(* ===== verification/Prelude.thy ===== *)
theory Prelude
  imports Main "HOL-Library.Word" "HOL-Library.AList" "HOL-Library.Multiset"
    "HOL-Library.Char_ord" "HOL-Library.List_Lexorder"
begin

text \<open>
  Shared vocabulary of the development: the machine types of the sources, the model of
  \<open>std::unordered_map<std::string, V>\<close> as an association list, word arithmetic read at
  \<open>nat\<close>, and two interfaces that several components implement, a capacity ledger and a
  transition system with an invariant.
\<close>

named_theorems umap_simps \<open>lookup, key set and size of the map operations\<close>
named_theorems word_ledger \<open>64-bit arithmetic on sizes, read at nat\<close>

section \<open>Machine types\<close>

text \<open>\<open>Bytes\<close> is \<open>std::uint64_t\<close> (memory.hpp): unsigned, 64 bits, wrapping.\<close>

type_synonym bytes = "64 word"

text \<open>\<open>std::numeric_limits<std::uint64_t>::max()\<close> as a natural number.\<close>

definition u64_max :: nat where
  "u64_max = 18446744073709551615"

lemma unat_bytes_less: "unat (w :: bytes) < 2 ^ 64"
proof -
  have "unat w < 2 ^ LENGTH(64)" by (rule unsigned_less)
  then show ?thesis by simp
qed

lemma unat_le_u64_max: "unat (w :: bytes) \<le> u64_max"
  using unat_bytes_less [of w] by (simp add: u64_max_def)

section \<open>Word arithmetic on sizes\<close>

lemma unat_free [word_ledger]:
  assumes "u \<le> (c :: bytes)"
  shows "unat (c - u) = unat c - unat u"
  using assms by (rule unat_sub)

lemma fits_free_iff [word_ledger]:
  assumes "u \<le> (c :: bytes)"
  shows "n \<le> c - u \<longleftrightarrow> unat n + unat u \<le> unat c"
  using assms by (auto simp: word_le_nat_alt unat_sub)

lemma unat_charge [word_ledger]:
  fixes u n c :: bytes
  assumes "unat n + unat u \<le> unat c"
  shows "unat (u + n) = unat u + unat n"
proof -
  have "unat u + unat n < 2 ^ LENGTH(64)"
    using assms unat_bytes_less [of c] by simp
  then show ?thesis by (rule unat_add_lem [THEN iffD1])
qed

lemma unat_discharge [word_ledger]:
  fixes u n :: bytes
  assumes "unat n \<le> unat u"
  shows "unat (u - n) = unat u - unat n"
  using assms by (simp add: unat_sub word_le_nat_alt)

lemma unat_pos_iff: "0 < unat (w :: bytes) \<longleftrightarrow> w \<noteq> 0"
  by (auto simp: unat_gt_0)

section \<open>Lists\<close>

lemma sorted_wrt_remove1: "sorted_wrt P xs \<Longrightarrow> sorted_wrt P (remove1 x xs)"
  by (induction xs) (use set_remove1_subset in fastforce)+

section \<open>String-keyed hash maps\<close>

text \<open>
  A \<open>std::unordered_map\<close> is an association list; its order stands for the container's
  unspecified iteration order. \<open>find\<close> is \<open>map_of\<close>, \<open>emplace\<close> keeps an existing entry,
  \<open>erase\<close> drops the key, assignment through an iterator or \<open>operator[]\<close> is
  \<open>AList.update\<close>.
\<close>

type_synonym 'v umap = "(string \<times> 'v) list"

definition um_contains :: "string \<Rightarrow> 'v umap \<Rightarrow> bool" where
  "um_contains k m \<longleftrightarrow> map_of m k \<noteq> None"

definition um_emplace :: "string \<Rightarrow> 'v \<Rightarrow> 'v umap \<Rightarrow> 'v umap" where
  "um_emplace k v m = (if um_contains k m then m else (k, v) # m)"

definition um_erase :: "string \<Rightarrow> 'v umap \<Rightarrow> 'v umap" where
  "um_erase k m = filter (\<lambda>e. fst e \<noteq> k) m"

abbreviation um_put :: "string \<Rightarrow> 'v \<Rightarrow> 'v umap \<Rightarrow> 'v umap" where
  "um_put \<equiv> AList.update"

abbreviation um_keys :: "'v umap \<Rightarrow> string set" where
  "um_keys m \<equiv> fst ` set m"

abbreviation um_wf :: "'v umap \<Rightarrow> bool" where
  "um_wf m \<equiv> distinct (map fst m)"

text \<open>What a snapshot does with a map: copy the entries out and sort them by key.\<close>

definition um_sorted :: "'v umap \<Rightarrow> 'v umap" where
  "um_sorted m = sort_key fst m"

lemma um_contains_iff [umap_simps]: "um_contains k m \<longleftrightarrow> k \<in> um_keys m"
  by (simp add: um_contains_def map_of_eq_None_iff)

lemma um_erase_notin: "k \<notin> um_keys m \<Longrightarrow> um_erase k m = m"
  unfolding um_erase_def by (rule filter_True) auto

lemma map_of_um_emplace [umap_simps]:
  "map_of (um_emplace k v m) = (if um_contains k m then map_of m else (map_of m)(k \<mapsto> v))"
  by (simp add: um_emplace_def)

lemma um_emplace_keeps: "map_of m k = Some v \<Longrightarrow> map_of (um_emplace k' v' m) k = Some v"
  by (auto simp: um_emplace_def um_contains_def)

lemma map_of_um_erase [umap_simps]: "map_of (um_erase k m) = (map_of m)(k := None)"
  by (rule ext) (induction m, auto simp: um_erase_def)

lemma um_keys_emplace [umap_simps]: "um_keys (um_emplace k v m) = insert k (um_keys m)"
  by (auto simp: um_emplace_def um_contains_iff)

lemma um_keys_erase [umap_simps]: "um_keys (um_erase k m) = um_keys m - {k}"
  by (auto simp: um_erase_def)

lemma um_keys_put [umap_simps]: "um_keys (um_put k v m) = insert k (um_keys m)"
  by (simp add: dom_update flip: dom_map_of_conv_image_fst) (simp add: update_conv')

lemma um_wf_emplace [intro]: "um_wf m \<Longrightarrow> um_wf (um_emplace k v m)"
  by (auto simp: um_emplace_def um_contains_iff)

lemma um_wf_erase [intro]: "um_wf m \<Longrightarrow> um_wf (um_erase k m)"
  by (simp add: um_erase_def distinct_map_filter)

lemma um_wf_put [intro]: "um_wf m \<Longrightarrow> um_wf (um_put k v m)"
  by (rule distinct_update)

lemma um_entry_iff: "um_wf m \<Longrightarrow> (k, v) \<in> set m \<longleftrightarrow> map_of m k = Some v"
  by (metis map_of_eq_Some_iff)

lemma um_in_erase: "(k, v) \<in> set (um_erase k' m) \<longleftrightarrow> (k, v) \<in> set m \<and> k \<noteq> k'"
  by (auto simp: um_erase_def)

lemma um_in_emplace:
  "(k, v) \<in> set (um_emplace k' v' m) \<Longrightarrow> (k, v) = (k', v') \<or> (k, v) \<in> set m"
  by (auto simp: um_emplace_def split: if_splits)

subsection \<open>A property of every entry\<close>

definition um_all :: "(string \<Rightarrow> 'v \<Rightarrow> bool) \<Rightarrow> 'v umap \<Rightarrow> bool" where
  "um_all P m \<longleftrightarrow> (\<forall>k v. map_of m k = Some v \<longrightarrow> P k v)"

lemma um_allD: "um_all P m \<Longrightarrow> map_of m k = Some v \<Longrightarrow> P k v"
  by (simp add: um_all_def)

lemma um_all_entry: "um_all P m \<Longrightarrow> um_wf m \<Longrightarrow> (k, v) \<in> set m \<Longrightarrow> P k v"
  by (simp add: um_all_def)

lemma um_all_Nil [simp]: "um_all P []"
  by (simp add: um_all_def)

lemma um_all_erase: "um_all P m \<Longrightarrow> um_all P (um_erase k m)"
  by (simp add: um_all_def map_of_um_erase)

lemma um_all_emplace: "um_all P m \<Longrightarrow> P k v \<Longrightarrow> um_all P (um_emplace k v m)"
  by (simp add: um_all_def map_of_um_emplace)

lemma um_all_put: "um_all P m \<Longrightarrow> P k v \<Longrightarrow> um_all P (um_put k v m)"
  by (simp add: um_all_def update_conv')

text \<open>Records that carry their own key, copied out and sorted by it.\<close>

lemma um_listing:
  assumes "um_all (\<lambda>k v. key v = k) m" and "um_wf m"
  shows "sorted (map key (sort_key key (map snd m)))"
    and "distinct (map key (sort_key key (map snd m)))"
    and "set (map key (sort_key key (map snd m))) = um_keys m"
proof -
  have "map key (map snd m) = map fst m"
    using um_all_entry [OF assms] by auto
  then have "mset (map key (sort_key key (map snd m))) = mset (map fst m)"
    by (metis mset_map mset_sort)
  then show "distinct (map key (sort_key key (map snd m)))"
    and "set (map key (sort_key key (map snd m))) = um_keys m"
    using assms(2) by (metis mset_eq_imp_distinct_iff) (metis \<open>mset _ = _\<close> list.set_map mset_eq_setD)
qed simp

subsection \<open>The bytes held in a map\<close>

definition um_total :: "bytes umap \<Rightarrow> nat" where
  "um_total m = sum_list (map (\<lambda>e. unat (snd e)) m)"

lemma um_total_Nil [simp]: "um_total [] = 0"
  by (simp add: um_total_def)

lemma um_total_append: "um_total (m @ m') = um_total m + um_total m'"
  by (simp add: um_total_def)

lemma um_total_map_keys: "um_total (map (\<lambda>(k, n). (f k, n)) m) = um_total m"
  by (induction m) (auto simp: um_total_def)

lemma um_total_emplace:
  "\<not> um_contains k m \<Longrightarrow> um_total (um_emplace k v m) = unat v + um_total m"
  by (simp add: um_total_def um_emplace_def)

lemma um_total_erase:
  assumes "um_wf m" and "map_of m k = Some v"
  shows "um_total m = unat v + um_total (um_erase k m)"
  using assms
proof (induction m)
  case (Cons e m)
  show ?case
  proof (cases "fst e = k")
    case True
    with Cons.prems have "k \<notin> um_keys m" and "snd e = v" by (auto split: prod.splits)
    with True show ?thesis
      by (simp add: um_total_def um_erase_def um_erase_notin [unfolded um_erase_def])
  next
    case False
    with Cons show ?thesis by (auto simp: um_total_def um_erase_def split: prod.splits if_splits)
  qed
qed simp

lemma um_total_ge: "map_of m k = Some v \<Longrightarrow> unat v \<le> um_total m"
  by (induction m) (auto simp: um_total_def split: if_splits)

subsection \<open>Snapshots\<close>

lemma um_sorted_mset [simp]: "mset (um_sorted m) = mset m"
  by (simp add: um_sorted_def)

lemma um_sorted_set [simp]: "set (um_sorted m) = set m"
  by (simp add: um_sorted_def)

lemma um_sorted_length [simp]: "length (um_sorted m) = length m"
  by (simp add: um_sorted_def)

lemma um_total_sorted [simp]: "um_total (um_sorted m) = um_total m"
proof -
  have "mset (map (\<lambda>e. unat (snd e)) (um_sorted m)) = mset (map (\<lambda>e. unat (snd e)) m)" by simp
  then show ?thesis unfolding um_total_def by (metis sum_mset_sum_list)
qed

lemma um_sorted_keys: "sorted (map fst (um_sorted m))"
  by (simp add: um_sorted_def)

lemma um_sorted_wf [simp]: "um_wf (um_sorted m) = um_wf m"
proof -
  have "mset (map fst (um_sorted m)) = mset (map fst m)" by simp
  then show ?thesis by (rule mset_eq_imp_distinct_iff)
qed

section \<open>Capacity ledgers\<close>

text \<open>
  The contract of every component that hands out bytes of a fixed capacity and keeps a
  running 64-bit \<open>used\<close> counter instead of summing what it handed out: under its
  invariant the counter is the true total and stays within the capacity. The lemmas are
  what the components' guards \<open>n <= capacity - used\<close> and updates rely on.
\<close>

locale ledger =
  fixes inv :: "'s \<Rightarrow> bool"
    and cap :: "'s \<Rightarrow> bytes"
    and used :: "'s \<Rightarrow> bytes"
    and total :: "'s \<Rightarrow> nat"
  assumes used_total: "inv s \<Longrightarrow> unat (used s) = total s"
    and used_le_cap: "inv s \<Longrightarrow> used s \<le> cap s"
begin

lemma total_le_cap: "inv s \<Longrightarrow> total s \<le> unat (cap s)"
  using used_total [of s] used_le_cap [of s] by (simp add: word_le_nat_alt)

lemma free_exact: "inv s \<Longrightarrow> unat (cap s - used s) = unat (cap s) - total s"
  by (simp add: unat_free used_le_cap used_total)

lemma fits_iff: "inv s \<Longrightarrow> n \<le> cap s - used s \<longleftrightarrow> unat n + total s \<le> unat (cap s)"
  by (simp add: fits_free_iff used_le_cap used_total)

lemma charge_exact:
  assumes "inv s" and "n \<le> cap s - used s"
  shows "unat (used s + n) = total s + unat n"
  using assms by (simp add: fits_free_iff used_le_cap unat_charge flip: used_total)

lemma charge_bounded:
  assumes "inv s" and "n \<le> cap s - used s"
  shows "used s + n \<le> cap s"
  using assms by (simp add: word_le_nat_alt charge_exact) (simp add: fits_iff flip: word_le_nat_alt)

lemma discharge_exact:
  assumes "inv s" and "unat n \<le> total s"
  shows "unat (used s - n) = total s - unat n"
  using assms by (simp add: unat_discharge used_total)

lemma discharge_bounded:
  assumes "inv s" and "unat n \<le> total s"
  shows "used s - n \<le> cap s"
  using discharge_exact [OF assms] total_le_cap [OF assms(1)] by (simp add: word_le_nat_alt)

lemma used_plus_free: "used s + (cap s - used s) = cap s"
  by simp

end

section \<open>Transition systems with an invariant\<close>

text \<open>Executions of a labelled step relation, as the list of labels taken.\<close>

inductive run :: "('s \<Rightarrow> 'e \<Rightarrow> 's \<Rightarrow> bool) \<Rightarrow> 's \<Rightarrow> 'e list \<Rightarrow> 's \<Rightarrow> bool"
  for step :: "'s \<Rightarrow> 'e \<Rightarrow> 's \<Rightarrow> bool" where
  run_nil: "run step s [] s"
| run_cons: "step s e t \<Longrightarrow> run step t es u \<Longrightarrow> run step s (e # es) u"

inductive_simps run_Nil_iff [simp]: "run step s [] t"
inductive_simps run_Cons_iff [simp]: "run step s (e # es) u"

lemma run_append: "run step s es t \<Longrightarrow> run step t fs u \<Longrightarrow> run step s (es @ fs) u"
  by (induction rule: run.induct) auto

lemma run_snoc: "run step s es t \<Longrightarrow> step t e u \<Longrightarrow> run step s (es @ [e]) u"
  by (erule run_append) simp

text \<open>
  The contract a component's state machine has to meet for its invariant to hold in every
  state an execution reaches: the start states satisfy it and every step keeps it.
\<close>

locale invariant_system =
  fixes start :: "'s \<Rightarrow> bool"
    and step :: "'s \<Rightarrow> 'e \<Rightarrow> 's \<Rightarrow> bool"
    and inv :: "'s \<Rightarrow> bool"
  assumes start_inv: "start s \<Longrightarrow> inv s"
    and step_inv: "step s e t \<Longrightarrow> inv s \<Longrightarrow> inv t"
begin

lemma run_keeps_inv: "run step s es t \<Longrightarrow> inv s \<Longrightarrow> inv t"
  by (induction rule: run.induct) (auto intro: step_inv)

lemma run_inv: "start s \<Longrightarrow> run step s es t \<Longrightarrow> inv t"
  by (blast intro: run_keeps_inv start_inv)

end

end
