(* ===== verification/ResourceManager.thy ===== *)
theory ResourceManager
  imports Prelude
begin

text \<open>
  The resource manager (resource_manager.hpp, resource_manager.cpp): client and model
  reservations against one capacity, a queue of blocked acquires, and the scheduler that
  grants them.

  The object's fields are the record \<open>resource_manager\<close>. Queued requests are heap objects
  shared between the queue and the blocked thread (\<open>std::shared_ptr<PendingRequest>\<close>), so
  the state holds a heap of requests, and \<open>pending_\<close> is a list of pointers into it. Every
  operation runs under the object's mutex, so an operation is one function on the state;
  a blocking \<open>acquire\<close> is cut at its \<open>condition_.wait\<close> into the part before the wait
  (\<open>acquire_enter\<close>), a wake-up (\<open>acquire_poll\<close>) and a timed-out wake-up
  (\<open>acquire_expire\<close>). The readings of the steady clock are arguments.
\<close>

section \<open>Data\<close>

datatype error_code =
    NoError
  | InvalidName
  | InvalidSize
  | DuplicateClient
  | UnknownClient
  | InsufficientMemory
  | Timeout
  | InvalidTimeout

datatype scheduling_policy = PriorityFifo | CostAware

record operation_result =
  op_error :: error_code
  op_amount :: bytes

abbreviation op_fail :: "error_code \<Rightarrow> operation_result" where
  "op_fail e \<equiv> \<lparr>op_error = e, op_amount = 0\<rparr>"

abbreviation op_done :: "bytes \<Rightarrow> operation_result" where
  "op_done n \<equiv> \<lparr>op_error = error_code.NoError, op_amount = n\<rparr>"

definition op_ok :: "operation_result \<Rightarrow> bool" where
  "op_ok r \<longleftrightarrow> op_error r = error_code.NoError"

text \<open>
  \<open>std::chrono::milliseconds\<close> and \<open>steady_clock::time_point\<close> count milliseconds and
  nanoseconds in a 64-bit signed integer; \<open>ms_max\<close> and \<open>time_max\<close> are their \<open>max()\<close>.
\<close>

type_synonym millis = int
type_synonym time = int

definition ms_max :: millis where "ms_max = 9223372036854775807"
definition time_max :: time where "time_max = 9223372036854775807"
definition ns_per_ms :: int where "ns_per_ms = 1000000"

record acquire_options =
  ao_priority :: int
  ao_timeout :: millis
  ao_cost :: millis

definition default_options :: acquire_options where
  "default_options = \<lparr>ao_priority = 0, ao_timeout = ms_max, ao_cost = 0\<rparr>"

record reservation =
  rs_name :: string
  rs_bytes :: bytes

record status_snapshot =
  st_capacity :: bytes
  st_used :: bytes
  st_free :: bytes
  st_reservations :: "reservation list"

record pending_request =
  pr_name :: string
  pr_bytes :: bytes
  pr_priority :: int
  pr_cost :: millis
  pr_sequence :: "64 word"
  pr_deadline :: time
  pr_completed :: bool
  pr_result :: operation_result

type_synonym req_ptr = nat
type_synonym req_heap = "req_ptr \<Rightarrow> pending_request"

text \<open>
  \<open>rm_requests\<close> is the heap; \<open>rm_next_ptr\<close> is the next pointer \<open>std::make_shared\<close> returns.
\<close>

record resource_manager =
  rm_capacity :: bytes
  rm_policy :: scheduling_policy
  rm_used :: bytes
  rm_reservations :: "bytes umap"
  rm_model_reservations :: "bytes umap"
  rm_pending :: "req_ptr list"
  rm_next_sequence :: "64 word"
  rm_requests :: req_heap
  rm_next_ptr :: req_ptr

definition empty_request :: pending_request where
  "empty_request = \<lparr>pr_name = [], pr_bytes = 0, pr_priority = 0, pr_cost = 0,
     pr_sequence = 0, pr_deadline = time_max, pr_completed = False,
     pr_result = op_done 0\<rparr>"

text \<open>The constructor throws \<open>std::invalid_argument\<close> (here \<open>None\<close>) on a zero capacity.\<close>

definition rm_new :: "bytes \<Rightarrow> scheduling_policy \<Rightarrow> resource_manager option" where
  "rm_new capacity policy =
     (if capacity = 0 then None
      else Some \<lparr>rm_capacity = capacity, rm_policy = policy, rm_used = 0,
        rm_reservations = [], rm_model_reservations = [], rm_pending = [],
        rm_next_sequence = 0, rm_requests = (\<lambda>_. empty_request), rm_next_ptr = 0\<rparr>)"

section \<open>Name checks\<close>

definition rm_valid_name :: "string \<Rightarrow> bool" where
  "rm_valid_name name \<longleftrightarrow>
     (if name = [] \<or> length name > 64 then False
      else list_all (\<lambda>c.
        (let letter = (CHR ''a'' \<le> c \<and> c \<le> CHR ''z'') \<or> (CHR ''A'' \<le> c \<and> c \<le> CHR ''Z'');
             digit = (CHR ''0'' \<le> c \<and> c \<le> CHR ''9'')
         in letter \<or> digit \<or> c = CHR ''_'' \<or> c = CHR ''-'' \<or> c = CHR ''.'')) name)"

definition has_name_locked :: "string \<Rightarrow> resource_manager \<Rightarrow> bool" where
  "has_name_locked name s \<longleftrightarrow>
     (if um_contains name (rm_reservations s) then True
      else list_ex (\<lambda>p. pr_name (rm_requests s p) = name) (rm_pending s))"

section \<open>The scheduler\<close>

text \<open>First loop of \<open>grant_waiters_locked\<close>: complete and erase the expired requests.\<close>

definition expired :: "time \<Rightarrow> pending_request \<Rightarrow> bool" where
  "expired now r \<longleftrightarrow> pr_deadline r \<noteq> time_max \<and> now \<ge> pr_deadline r"

definition complete_with :: "operation_result \<Rightarrow> pending_request \<Rightarrow> pending_request" where
  "complete_with res r = r\<lparr>pr_completed := True, pr_result := res\<rparr>"

fun expire_loop :: "time \<Rightarrow> req_heap \<Rightarrow> req_ptr list \<Rightarrow> req_heap \<times> req_ptr list" where
  "expire_loop now h [] = (h, [])"
| "expire_loop now h (p # ps) =
     (if expired now (h p)
      then expire_loop now (h(p := complete_with (op_fail error_code.Timeout) (h p))) ps
      else (let (h', ps') = expire_loop now h ps in (h', p # ps')))"

text \<open>
  The comparison of the inner \<open>for\<close> loop of the second part: \<open>candidate\<close> displaces the
  selected request.
\<close>

definition preferred :: "scheduling_policy \<Rightarrow> pending_request \<Rightarrow> pending_request \<Rightarrow> bool" where
  "preferred policy candidate selected \<longleftrightarrow>
     pr_priority candidate > pr_priority selected \<or>
     (pr_priority candidate = pr_priority selected \<and>
      ((policy = CostAware \<and> pr_cost candidate < pr_cost selected) \<or>
       ((policy \<noteq> CostAware \<or> pr_cost candidate = pr_cost selected) \<and>
        pr_sequence candidate < pr_sequence selected)))"

function select_loop ::
  "scheduling_policy \<Rightarrow> bytes \<Rightarrow> req_heap \<Rightarrow> req_ptr list \<Rightarrow> nat \<Rightarrow> nat \<Rightarrow> nat" where
  "select_loop policy avail h ps index selected =
     (if index < length ps then
        (let candidate = h (ps ! index) in
         if pr_bytes candidate > avail then
           select_loop policy avail h ps (index + 1) selected
         else if selected = length ps \<or> preferred policy candidate (h (ps ! selected)) then
           select_loop policy avail h ps (index + 1) index
         else select_loop policy avail h ps (index + 1) selected)
      else selected)"
  by pat_completeness auto
termination
  by (relation "measure (\<lambda>(_, _, _, ps, index, _). length ps - index)") auto

declare select_loop.simps [simp del]

definition select_waiter :: "resource_manager \<Rightarrow> nat" where
  "select_waiter s = select_loop (rm_policy s) (rm_capacity s - rm_used s)
     (rm_requests s) (rm_pending s) 0 (length (rm_pending s))"

text \<open>Body of the \<open>while (true)\<close> loop: grant the request at index \<open>selected\<close>.\<close>

definition erase_at :: "nat \<Rightarrow> 'a list \<Rightarrow> 'a list" where
  "erase_at i xs = take i xs @ drop (Suc i) xs"

definition grant_at :: "nat \<Rightarrow> resource_manager \<Rightarrow> resource_manager" where
  "grant_at selected s =
     (let p = rm_pending s ! selected;
          request = rm_requests s p
      in s\<lparr>rm_reservations := um_emplace (pr_name request) (pr_bytes request) (rm_reservations s),
           rm_used := rm_used s + pr_bytes request,
           rm_requests := (rm_requests s)(p := complete_with (op_done (pr_bytes request)) request),
           rm_pending := erase_at selected (rm_pending s)\<rparr>)"

lemma select_loop_le:
  "selected \<le> length ps \<Longrightarrow> select_loop policy avail h ps index selected \<le> length ps"
proof (induction policy avail h ps index selected rule: select_loop.induct)
  case (1 policy avail h ps index selected)
  then show ?case
    by (subst select_loop.simps) (auto simp: Let_def)
qed

lemma length_erase_at: "i < length xs \<Longrightarrow> length (erase_at i xs) = length xs - 1"
  by (simp add: erase_at_def)

function grant_loop :: "resource_manager \<Rightarrow> resource_manager" where
  "grant_loop s =
     (let selected = select_waiter s in
      if selected = length (rm_pending s) then s else grant_loop (grant_at selected s))"
  by pat_completeness auto
termination
proof (relation "measure (\<lambda>s. length (rm_pending s))", goal_cases)
  case (2 s selected)
  have "select_waiter s \<le> length (rm_pending s)"
    by (simp add: select_waiter_def select_loop_le)
  with 2 have "select_waiter s < length (rm_pending s)" by simp
  with 2 show ?case by (simp add: grant_at_def Let_def length_erase_at)
qed simp

declare grant_loop.simps [simp del]

definition expire_waiters :: "time \<Rightarrow> resource_manager \<Rightarrow> resource_manager" where
  "expire_waiters now s =
     (let (h, ps) = expire_loop now (rm_requests s) (rm_pending s)
      in s\<lparr>rm_requests := h, rm_pending := ps\<rparr>)"

definition grant_waiters_locked :: "time \<Rightarrow> resource_manager \<Rightarrow> resource_manager" where
  "grant_waiters_locked now s = grant_loop (expire_waiters now s)"

section \<open>Client reservations\<close>

definition rm_try_acquire ::
  "time \<Rightarrow> string \<Rightarrow> bytes \<Rightarrow> resource_manager \<Rightarrow> operation_result \<times> resource_manager" where
  "rm_try_acquire now name n s =
     (if \<not> rm_valid_name name then (op_fail error_code.InvalidName, s)
      else if n = 0 then (op_fail error_code.InvalidSize, s)
      else if has_name_locked name s then (op_fail error_code.DuplicateClient, s)
      else if n > rm_capacity s - rm_used s then (op_fail error_code.InsufficientMemory, s)
      else (op_done n, grant_waiters_locked now
             (s\<lparr>rm_reservations := um_emplace name n (rm_reservations s),
                rm_used := rm_used s + n\<rparr>)))"

definition acquire_deadline :: "time \<Rightarrow> millis \<Rightarrow> time" where
  "acquire_deadline now timeout =
     (if timeout \<noteq> ms_max then
        (let remaining = time_max - now;
             maximum_timeout = remaining div ns_per_ms
         in if timeout \<le> maximum_timeout then now + timeout * ns_per_ms else time_max)
      else time_max)"

text \<open>
  The call either returns or leaves the calling thread in the wait loop, holding its
  request.
\<close>

datatype acquire_outcome = Returned operation_result | Waiting req_ptr

definition acquire_enqueue ::
  "time \<Rightarrow> string \<Rightarrow> bytes \<Rightarrow> acquire_options \<Rightarrow> resource_manager \<Rightarrow> resource_manager" where
  "acquire_enqueue now name n opts s =
     (let p = rm_next_ptr s;
          request = empty_request\<lparr>pr_name := name, pr_bytes := n,
            pr_priority := ao_priority opts, pr_cost := ao_cost opts,
            pr_sequence := rm_next_sequence s,
            pr_deadline := acquire_deadline now (ao_timeout opts)\<rparr>
      in s\<lparr>rm_requests := (rm_requests s)(p := request),
           rm_next_ptr := Suc p,
           rm_next_sequence := rm_next_sequence s + 1,
           rm_pending := rm_pending s @ [p]\<rparr>)"

definition acquire_enter ::
  "time \<Rightarrow> string \<Rightarrow> bytes \<Rightarrow> acquire_options \<Rightarrow> resource_manager \<Rightarrow>
   acquire_outcome \<times> resource_manager" where
  "acquire_enter now name n opts s =
     (if \<not> rm_valid_name name then (Returned (op_fail error_code.InvalidName), s)
      else if n = 0 then (Returned (op_fail error_code.InvalidSize), s)
      else if ao_timeout opts < 0 then (Returned (op_fail error_code.InvalidTimeout), s)
      else if n > rm_capacity s then (Returned (op_fail error_code.InsufficientMemory), s)
      else if ao_timeout opts = 0 then
        (let (r, s') = rm_try_acquire now name n s in (Returned r, s'))
      else if has_name_locked name s then (Returned (op_fail error_code.DuplicateClient), s)
      else if rm_pending s = [] \<and> n \<le> rm_capacity s - rm_used s then
        (Returned (op_done n),
         s\<lparr>rm_reservations := um_emplace name n (rm_reservations s),
           rm_used := rm_used s + n\<rparr>)
      else if ao_cost opts < 0 then (Returned (op_fail error_code.InvalidTimeout), s)
      else (Waiting (rm_next_ptr s),
            grant_waiters_locked now (acquire_enqueue now name n opts s)))"

text \<open>
  One turn of \<open>while (!request->completed)\<close> up to the wait, taken on entering the loop and
  on every wake-up; \<open>None\<close> means the thread goes (back) to sleep.
\<close>

definition acquire_poll ::
  "time \<Rightarrow> req_ptr \<Rightarrow> resource_manager \<Rightarrow> operation_result option \<times> resource_manager" where
  "acquire_poll now p s =
     (if pr_completed (rm_requests s p) then (Some (pr_result (rm_requests s p)), s)
      else (let s' = grant_waiters_locked now s in
            if pr_completed (rm_requests s' p) then (Some (pr_result (rm_requests s' p)), s')
            else (None, s')))"

text \<open>
  \<open>wait_until\<close> reported a timeout: an uncompleted request is erased (the first pointer
  equal to it) and completed with \<open>Timeout\<close>, a completed one returns its result.
\<close>

definition acquire_expire ::
  "req_ptr \<Rightarrow> resource_manager \<Rightarrow> operation_result \<times> resource_manager" where
  "acquire_expire p s =
     (if pr_completed (rm_requests s p) then (pr_result (rm_requests s p), s)
      else (op_fail error_code.Timeout,
            s\<lparr>rm_pending := remove1 p (rm_pending s),
              rm_requests := (rm_requests s)
                (p := complete_with (op_fail error_code.Timeout) (rm_requests s p))\<rparr>))"

definition rm_release ::
  "time \<Rightarrow> string \<Rightarrow> resource_manager \<Rightarrow> operation_result \<times> resource_manager" where
  "rm_release now name s =
     (if \<not> rm_valid_name name then (op_fail error_code.InvalidName, s)
      else case map_of (rm_reservations s) name of
        None \<Rightarrow> (op_fail error_code.UnknownClient, s)
      | Some n \<Rightarrow>
          (op_done n, grant_waiters_locked now
            (s\<lparr>rm_reservations := um_erase name (rm_reservations s),
               rm_used := rm_used s - n\<rparr>)))"

section \<open>Model reservations\<close>

definition rm_acquire_model ::
  "string \<Rightarrow> bytes \<Rightarrow> resource_manager \<Rightarrow> operation_result \<times> resource_manager" where
  "rm_acquire_model ident n s =
     (if \<not> rm_valid_name ident then (op_fail error_code.InvalidName, s)
      else if n = 0 then (op_fail error_code.InvalidSize, s)
      else if um_contains ident (rm_model_reservations s)
        then (op_fail error_code.DuplicateClient, s)
      else if n > rm_capacity s - rm_used s then (op_fail error_code.InsufficientMemory, s)
      else (op_done n,
            s\<lparr>rm_model_reservations := um_emplace ident n (rm_model_reservations s),
              rm_used := rm_used s + n\<rparr>))"

definition rm_release_model ::
  "time \<Rightarrow> string \<Rightarrow> resource_manager \<Rightarrow> operation_result \<times> resource_manager" where
  "rm_release_model now ident s =
     (if \<not> rm_valid_name ident then (op_fail error_code.InvalidName, s)
      else case map_of (rm_model_reservations s) ident of
        None \<Rightarrow> (op_fail error_code.UnknownClient, s)
      | Some n \<Rightarrow>
          (op_done n, grant_waiters_locked now
            (s\<lparr>rm_model_reservations := um_erase ident (rm_model_reservations s),
               rm_used := rm_used s - n\<rparr>)))"

text \<open>The loops of \<open>replace_model_reservations\<close>, in their order.\<close>

fun unique_evictions :: "string list \<Rightarrow> string list \<Rightarrow> bool" where
  "unique_evictions seen [] = True"
| "unique_evictions seen (e # es) = (if e \<in> set seen then False else unique_evictions (e # seen) es)"

fun evicted_bytes :: "bytes umap \<Rightarrow> bytes \<Rightarrow> string list \<Rightarrow> bytes option" where
  "evicted_bytes m acc [] = Some acc"
| "evicted_bytes m acc (e # es) =
     (case map_of m e of None \<Rightarrow> None | Some n \<Rightarrow> evicted_bytes m (acc + n) es)"

fun drop_evictions :: "string list \<Rightarrow> resource_manager \<Rightarrow> resource_manager" where
  "drop_evictions [] s = s"
| "drop_evictions (e # es) s =
     (case map_of (rm_model_reservations s) e of
        None \<Rightarrow> drop_evictions es s \<comment> \<open>not reached: every eviction was found before\<close>
      | Some n \<Rightarrow>
          drop_evictions es
            (s\<lparr>rm_model_reservations := um_erase e (rm_model_reservations s),
               rm_used := rm_used s - n\<rparr>))"

definition rm_replace_model_reservations ::
  "time \<Rightarrow> string list \<Rightarrow> string \<Rightarrow> bytes \<Rightarrow> resource_manager \<Rightarrow>
   operation_result \<times> resource_manager" where
  "rm_replace_model_reservations now evictions ident n s =
     (if \<not> rm_valid_name ident then (op_fail error_code.InvalidName, s)
      else if n = 0 then (op_fail error_code.InvalidSize, s)
      else if um_contains ident (rm_model_reservations s)
        then (op_fail error_code.DuplicateClient, s)
      else if \<not> unique_evictions [] evictions then (op_fail error_code.DuplicateClient, s)
      else case evicted_bytes (rm_model_reservations s) 0 evictions of
        None \<Rightarrow> (op_fail error_code.UnknownClient, s)
      | Some evicted \<Rightarrow>
          if n > rm_capacity s - rm_used s + evicted
          then (op_fail error_code.InsufficientMemory, s)
          else
            (let s1 = drop_evictions evictions s;
                 s2 = s1\<lparr>rm_model_reservations :=
                           um_emplace ident n (rm_model_reservations s1),
                         rm_used := rm_used s1 + n\<rparr>
             in (op_done n, grant_waiters_locked now s2)))"

section \<open>Cancellation and status\<close>

definition rm_cancel_waiters :: "resource_manager \<Rightarrow> resource_manager" where
  "rm_cancel_waiters s =
     s\<lparr>rm_requests := fold (\<lambda>p h. h(p := complete_with (op_fail error_code.Timeout) (h p)))
         (rm_pending s) (rm_requests s),
       rm_pending := []\<rparr>"

definition rm_status :: "resource_manager \<Rightarrow> status_snapshot" where
  "rm_status s =
     \<lparr>st_capacity = rm_capacity s, st_used = rm_used s,
      st_free = rm_capacity s - rm_used s,
      st_reservations = map (\<lambda>(k, n). \<lparr>rs_name = k, rs_bytes = n\<rparr>)
        (um_sorted (rm_reservations s @
          map (\<lambda>(k, n). (''model:'' @ k, n)) (rm_model_reservations s)))\<rparr>"

end
