(* ===== verification/Scheduling.thy ===== *)
theory Scheduling
  imports ResourceManager
begin

text \<open>
  The scheduler of the resource manager: what the two loops of \<open>grant_waiters_locked\<close>
  compute. The first loop is a filter, the inner loop of the second selects an optimum of
  the policy's order among the requests that fit, and the outer loop stops only when no
  queued request fits.
\<close>

section \<open>Expiry\<close>

lemma complete_with_simps [simp]:
  "pr_name (complete_with r q) = pr_name q"
  "pr_bytes (complete_with r q) = pr_bytes q"
  "pr_priority (complete_with r q) = pr_priority q"
  "pr_cost (complete_with r q) = pr_cost q"
  "pr_sequence (complete_with r q) = pr_sequence q"
  "pr_deadline (complete_with r q) = pr_deadline q"
  "pr_completed (complete_with r q)"
  "pr_result (complete_with r q) = r"
  by (simp_all add: complete_with_def)

lemma expire_loop_eq:
  "distinct ps \<Longrightarrow> expire_loop now h ps =
    (\<lambda>p. if p \<in> set ps \<and> expired now (h p)
         then complete_with (op_fail error_code.Timeout) (h p) else h p,
     filter (\<lambda>p. \<not> expired now (h p)) ps)"
proof (induction ps arbitrary: h)
  case (Cons p ps)
  let ?h = "h(p := complete_with (op_fail error_code.Timeout) (h p))"
  have *: "filter (\<lambda>q. \<not> expired now (?h q)) ps = filter (\<lambda>q. \<not> expired now (h q)) ps"
    using Cons.prems by (intro filter_cong) auto
  show ?case
  proof (cases "expired now (h p)")
    case True
    have "expire_loop now h (p # ps) = expire_loop now ?h ps"
      using True by simp
    also have "\<dots> = (\<lambda>q. if q \<in> set ps \<and> expired now (?h q)
         then complete_with (op_fail error_code.Timeout) (?h q) else ?h q,
       filter (\<lambda>q. \<not> expired now (?h q)) ps)"
      using Cons.prems by (intro Cons.IH) simp
    finally show ?thesis
      using Cons.prems True unfolding * by (auto simp: fun_eq_iff)
  next
    case False
    then show ?thesis
      using Cons.prems Cons.IH [of h] by (auto simp: fun_eq_iff)
  qed
qed simp

section \<open>Selection\<close>

lemma preferred_irrefl [simp]: "\<not> preferred pol r r"
  by (simp add: preferred_def)

lemma preferred_trans:
  "preferred pol a b \<Longrightarrow> preferred pol b c \<Longrightarrow> preferred pol a c"
  unfolding preferred_def by (cases pol) (auto intro: less_trans)

lemma preferred_asym: "preferred pol a b \<Longrightarrow> \<not> preferred pol b a"
  using preferred_trans preferred_irrefl by blast

lemma preferred_total:
  "pr_sequence a \<noteq> pr_sequence b \<Longrightarrow> preferred pol a b \<or> preferred pol b a"
  unfolding preferred_def by (cases pol) (auto simp: neq_iff)

text \<open>
  The loop's invariant at \<open>index\<close>: nothing seen so far fits and nothing is selected, or
  the selected request fits and no fitting request seen so far is preferred to it.
\<close>

definition best_so_far ::
  "scheduling_policy \<Rightarrow> bytes \<Rightarrow> req_heap \<Rightarrow> req_ptr list \<Rightarrow> nat \<Rightarrow> nat \<Rightarrow> bool" where
  "best_so_far pol avail h ps index sel \<longleftrightarrow>
     (if sel = length ps then \<forall>j < index. j < length ps \<longrightarrow> pr_bytes (h (ps ! j)) > avail
      else sel < length ps \<and> pr_bytes (h (ps ! sel)) \<le> avail \<and>
        (\<forall>j < index. j < length ps \<longrightarrow> pr_bytes (h (ps ! j)) \<le> avail \<longrightarrow>
           \<not> preferred pol (h (ps ! j)) (h (ps ! sel))))"

lemma best_so_far_step:
  assumes "best_so_far pol avail h ps index sel" and "index < length ps"
  shows "best_so_far pol avail h ps (index + 1)
    (if pr_bytes (h (ps ! index)) > avail then sel
     else if sel = length ps \<or> preferred pol (h (ps ! index)) (h (ps ! sel)) then index
     else sel)"
proof (cases "pr_bytes (h (ps ! index)) > avail \<or>
    (sel \<noteq> length ps \<and> \<not> preferred pol (h (ps ! index)) (h (ps ! sel)))")
  case True
  with assms show ?thesis
    by (auto simp: best_so_far_def less_Suc_eq not_less)
next
  case False
  have "\<not> preferred pol (h (ps ! j)) (h (ps ! index))"
    if "j < index" and "pr_bytes (h (ps ! j)) \<le> avail" for j
  proof
    assume "preferred pol (h (ps ! j)) (h (ps ! index))"
    moreover from that assms have "sel \<noteq> length ps"
      by (fastforce simp: best_so_far_def)
    moreover from this False have "preferred pol (h (ps ! index)) (h (ps ! sel))" by simp
    ultimately have "preferred pol (h (ps ! j)) (h (ps ! sel))"
      by (blast intro: preferred_trans)
    with that assms \<open>sel \<noteq> length ps\<close> show False
      by (auto simp: best_so_far_def)
  qed
  with False assms(2) show ?thesis
    by (auto simp: best_so_far_def less_Suc_eq)
qed

lemma select_loop_best:
  "best_so_far pol avail h ps index sel \<Longrightarrow>
   best_so_far pol avail h ps (length ps) (select_loop pol avail h ps index sel)"
proof (induction pol avail h ps index sel rule: select_loop.induct)
  case (1 pol avail h ps index sel)
  show ?case
  proof (cases "index < length ps")
    case True
    note step = best_so_far_step [OF "1.prems" True]
    from "1.IH" [OF True refl] step show ?thesis
      by (subst select_loop.simps) (auto simp: Let_def True split: if_splits)
  next
    case False
    with "1.prems" show ?thesis
      by (subst select_loop.simps) (auto simp: best_so_far_def split: if_splits)
  qed
qed

lemma select_waiter_best:
  "best_so_far (rm_policy s) (rm_capacity s - rm_used s) (rm_requests s) (rm_pending s)
     (length (rm_pending s)) (select_waiter s)"
  unfolding select_waiter_def by (rule select_loop_best) (simp add: best_so_far_def)

lemma select_waiter_le: "select_waiter s \<le> length (rm_pending s)"
  by (simp add: select_waiter_def select_loop_le)

lemma select_waiter_none:
  "select_waiter s = length (rm_pending s) \<longleftrightarrow>
   (\<forall>p \<in> set (rm_pending s). pr_bytes (rm_requests s p) > rm_capacity s - rm_used s)"
  using select_waiter_best [of s]
  by (auto simp: best_so_far_def all_set_conv_all_nth split: if_splits)

lemma select_waiter_fits:
  assumes "select_waiter s \<noteq> length (rm_pending s)"
  shows "select_waiter s < length (rm_pending s)"
    and "pr_bytes (rm_requests s (rm_pending s ! select_waiter s)) \<le> rm_capacity s - rm_used s"
  using assms select_waiter_best [of s] by (auto simp: best_so_far_def)

lemma select_waiter_optimal:
  assumes "select_waiter s \<noteq> length (rm_pending s)"
    and "q \<in> set (rm_pending s)"
    and "pr_bytes (rm_requests s q) \<le> rm_capacity s - rm_used s"
  shows "\<not> preferred (rm_policy s) (rm_requests s q)
           (rm_requests s (rm_pending s ! select_waiter s))"
  using assms select_waiter_best [of s]
  by (auto simp: best_so_far_def in_set_conv_nth)

section \<open>Granting\<close>

lemma erase_at_remove1:
  "distinct xs \<Longrightarrow> i < length xs \<Longrightarrow> erase_at i xs = remove1 (xs ! i) xs"
proof (induction xs arbitrary: i)
  case (Cons x xs)
  then show ?case by (cases i) (auto simp: erase_at_def)
qed simp

lemma set_erase_at:
  "distinct xs \<Longrightarrow> i < length xs \<Longrightarrow> set (erase_at i xs) = set xs - {xs ! i}"
  by (simp add: erase_at_remove1)

text \<open>What \<open>grant_loop\<close> does, one turn at a time.\<close>

lemma grant_loop_stop:
  "select_waiter s = length (rm_pending s) \<Longrightarrow> grant_loop s = s"
  by (subst grant_loop.simps) simp

lemma grant_loop_turn:
  "select_waiter s \<noteq> length (rm_pending s) \<Longrightarrow>
   grant_loop s = grant_loop (grant_at (select_waiter s) s)"
  by (subst grant_loop.simps) simp

lemma grant_loop_induct [case_names stop turn]:
  assumes "\<And>s. select_waiter s = length (rm_pending s) \<Longrightarrow> P s"
    and "\<And>s. select_waiter s < length (rm_pending s) \<Longrightarrow>
      pr_bytes (rm_requests s (rm_pending s ! select_waiter s)) \<le> rm_capacity s - rm_used s \<Longrightarrow>
      P (grant_at (select_waiter s) s) \<Longrightarrow> P s"
  shows "P s"
proof (induction s rule: grant_loop.induct)
  case (1 s)
  then show ?case
    using assms select_waiter_fits by (cases "select_waiter s = length (rm_pending s)") auto
qed

lemma grant_at_frame [simp]:
  "rm_capacity (grant_at i s) = rm_capacity s"
  "rm_policy (grant_at i s) = rm_policy s"
  "rm_model_reservations (grant_at i s) = rm_model_reservations s"
  "rm_next_sequence (grant_at i s) = rm_next_sequence s"
  "rm_next_ptr (grant_at i s) = rm_next_ptr s"
  by (simp_all add: grant_at_def Let_def)

lemma grant_loop_frame [simp]:
  "rm_capacity (grant_loop s) = rm_capacity s"
  "rm_policy (grant_loop s) = rm_policy s"
  "rm_model_reservations (grant_loop s) = rm_model_reservations s"
  "rm_next_sequence (grant_loop s) = rm_next_sequence s"
  "rm_next_ptr (grant_loop s) = rm_next_ptr s"
  by (induction s rule: grant_loop_induct)
    (simp_all add: grant_loop_stop grant_loop_turn)

lemma expire_waiters_frame [simp]:
  "rm_capacity (expire_waiters now s) = rm_capacity s"
  "rm_policy (expire_waiters now s) = rm_policy s"
  "rm_used (expire_waiters now s) = rm_used s"
  "rm_reservations (expire_waiters now s) = rm_reservations s"
  "rm_model_reservations (expire_waiters now s) = rm_model_reservations s"
  "rm_next_sequence (expire_waiters now s) = rm_next_sequence s"
  "rm_next_ptr (expire_waiters now s) = rm_next_ptr s"
  by (simp_all add: expire_waiters_def split: prod.splits)

lemma grant_waiters_frame [simp]:
  "rm_capacity (grant_waiters_locked now s) = rm_capacity s"
  "rm_policy (grant_waiters_locked now s) = rm_policy s"
  "rm_model_reservations (grant_waiters_locked now s) = rm_model_reservations s"
  "rm_next_sequence (grant_waiters_locked now s) = rm_next_sequence s"
  "rm_next_ptr (grant_waiters_locked now s) = rm_next_ptr s"
  by (simp_all add: grant_waiters_locked_def)

end
