(* ===== verification/ResourceInvariant.thy ===== *)
theory ResourceInvariant
  imports Scheduling
begin

text \<open>
  The invariant of the resource manager and its preservation by every operation: the books
  balance (\<open>used_\<close> is the sum of all reservations, within the capacity), the queue is well
  formed (each queued request is a live, uncompleted heap object, in arrival order, under a
  name no one else holds), and the scheduler leaves no queued request that would fit.
\<close>

section \<open>The invariant\<close>

definition rm_total :: "resource_manager \<Rightarrow> nat" where
  "rm_total s = um_total (rm_reservations s) + um_total (rm_model_reservations s)"

definition rm_books :: "resource_manager \<Rightarrow> bool" where
  "rm_books s \<longleftrightarrow>
     um_wf (rm_reservations s) \<and> um_wf (rm_model_reservations s) \<and>
     unat (rm_used s) = rm_total s \<and> rm_used s \<le> rm_capacity s \<and>
     (\<forall>(k, n) \<in> set (rm_reservations s). rm_valid_name k \<and> n \<noteq> 0) \<and>
     (\<forall>(k, n) \<in> set (rm_model_reservations s). rm_valid_name k \<and> n \<noteq> 0)"

text \<open>A queued request: acquired by a thread that is still blocked.\<close>

definition rm_waiter :: "resource_manager \<Rightarrow> req_ptr \<Rightarrow> bool" where
  "rm_waiter s p \<longleftrightarrow>
     p < rm_next_ptr s \<and> \<not> pr_completed (rm_requests s p) \<and>
     rm_valid_name (pr_name (rm_requests s p)) \<and> pr_bytes (rm_requests s p) \<noteq> 0 \<and>
     pr_bytes (rm_requests s p) \<le> rm_capacity s \<and>
     pr_name (rm_requests s p) \<notin> um_keys (rm_reservations s)"

definition rm_queue :: "resource_manager \<Rightarrow> bool" where
  "rm_queue s \<longleftrightarrow>
     sorted_wrt (<) (rm_pending s) \<and>
     (\<forall>p \<in> set (rm_pending s). rm_waiter s p) \<and>
     inj_on (\<lambda>p. pr_name (rm_requests s p)) (set (rm_pending s)) \<and>
     (\<forall>p < rm_next_ptr s. p \<notin> set (rm_pending s) \<longrightarrow> pr_completed (rm_requests s p)) \<and>
     (\<forall>p < rm_next_ptr s. pr_sequence (rm_requests s p) = of_nat p) \<and>
     rm_next_sequence s = of_nat (rm_next_ptr s)"

definition rm_inv :: "resource_manager \<Rightarrow> bool" where
  "rm_inv s \<longleftrightarrow> rm_books s \<and> rm_queue s"

definition rm_settled :: "resource_manager \<Rightarrow> bool" where
  "rm_settled s \<longleftrightarrow>
     (\<forall>p \<in> set (rm_pending s). pr_bytes (rm_requests s p) > rm_capacity s - rm_used s)"

lemmas rm_inv_defs = rm_inv_def rm_books_def rm_queue_def

interpretation rm: ledger rm_inv rm_capacity rm_used rm_total
  by unfold_locales (simp_all add: rm_inv_def rm_books_def)

lemma rm_inv_distinct: "rm_inv s \<Longrightarrow> distinct (rm_pending s)"
  by (simp add: rm_inv_defs strict_sorted_iff)

lemma rm_inv_waiter: "rm_inv s \<Longrightarrow> p \<in> set (rm_pending s) \<Longrightarrow> rm_waiter s p"
  by (simp add: rm_inv_defs)

lemma rm_inv_wf:
  "rm_inv s \<Longrightarrow> um_wf (rm_reservations s)"
  "rm_inv s \<Longrightarrow> um_wf (rm_model_reservations s)"
  by (simp_all add: rm_inv_defs)

lemma has_name_iff:
  "has_name_locked name s \<longleftrightarrow> name \<in> um_keys (rm_reservations s) \<or>
     (\<exists>p \<in> set (rm_pending s). pr_name (rm_requests s p) = name)"
  by (simp add: has_name_locked_def um_contains_iff list_ex_iff)

lemma rm_inv_new: "rm_new capacity policy = Some s \<Longrightarrow> rm_inv s \<and> rm_settled s"
  by (auto simp: rm_new_def rm_inv_defs rm_total_def rm_settled_def split: if_splits)

section \<open>Elementary state changes\<close>

text \<open>
  Every operation is a composition of four changes: record a reservation, drop one,
  complete and unqueue a request, queue a new one.
\<close>

definition add_client :: "string \<Rightarrow> bytes \<Rightarrow> resource_manager \<Rightarrow> resource_manager" where
  "add_client name n s =
     s\<lparr>rm_reservations := um_emplace name n (rm_reservations s), rm_used := rm_used s + n\<rparr>"

definition add_model :: "string \<Rightarrow> bytes \<Rightarrow> resource_manager \<Rightarrow> resource_manager" where
  "add_model name n s =
     s\<lparr>rm_model_reservations := um_emplace name n (rm_model_reservations s),
       rm_used := rm_used s + n\<rparr>"

definition drop_client :: "string \<Rightarrow> bytes \<Rightarrow> resource_manager \<Rightarrow> resource_manager" where
  "drop_client name n s =
     s\<lparr>rm_reservations := um_erase name (rm_reservations s), rm_used := rm_used s - n\<rparr>"

definition drop_model :: "string \<Rightarrow> bytes \<Rightarrow> resource_manager \<Rightarrow> resource_manager" where
  "drop_model name n s =
     s\<lparr>rm_model_reservations := um_erase name (rm_model_reservations s),
       rm_used := rm_used s - n\<rparr>"

definition finish :: "req_ptr \<Rightarrow> operation_result \<Rightarrow> resource_manager \<Rightarrow> resource_manager" where
  "finish p r s =
     s\<lparr>rm_pending := remove1 p (rm_pending s),
       rm_requests := (rm_requests s)(p := complete_with r (rm_requests s p))\<rparr>"

lemmas rm_change_defs = add_client_def add_model_def drop_client_def drop_model_def finish_def

lemma add_client_inv:
  assumes inv: "rm_inv s" and "rm_valid_name name" and "n \<noteq> 0"
    and fits: "n \<le> rm_capacity s - rm_used s" and fresh: "\<not> has_name_locked name s"
  shows "rm_inv (add_client name n s)"
proof -
  have notin: "\<not> um_contains name (rm_reservations s)"
    using fresh by (auto simp: has_name_iff um_contains_iff)
  have "rm_books (add_client name n s)"
    using inv assms(2,3) notin rm.charge_exact [OF inv fits] rm.charge_bounded [OF inv fits]
    by (auto simp: rm_inv_defs add_client_def rm_total_def um_total_emplace
        dest: um_in_emplace)
  moreover have "rm_queue (add_client name n s)"
    using inv fresh
    by (fastforce simp: rm_inv_defs add_client_def rm_waiter_def has_name_iff umap_simps)
  ultimately show ?thesis by (simp add: rm_inv_def)
qed

lemma add_model_inv:
  assumes inv: "rm_inv s" and "rm_valid_name name" and "n \<noteq> 0"
    and fits: "n \<le> rm_capacity s - rm_used s"
    and fresh: "\<not> um_contains name (rm_model_reservations s)"
  shows "rm_inv (add_model name n s)"
proof -
  have "rm_books (add_model name n s)"
    using inv assms(2,3) fresh rm.charge_exact [OF inv fits] rm.charge_bounded [OF inv fits]
    by (auto simp: rm_inv_defs add_model_def rm_total_def um_total_emplace
        dest: um_in_emplace)
  moreover have "rm_queue (add_model name n s)"
    using inv by (simp add: rm_inv_defs add_model_def rm_waiter_def)
  ultimately show ?thesis by (simp add: rm_inv_def)
qed

lemma drop_client_inv:
  assumes inv: "rm_inv s" and held: "map_of (rm_reservations s) name = Some n"
  shows "rm_inv (drop_client name n s)"
proof -
  have total: "rm_total s = unat n + rm_total (drop_client name n s)"
    using um_total_erase [OF _ held] rm_inv_wf [OF inv] by (simp add: rm_total_def drop_client_def)
  then have le: "unat n \<le> rm_total s" by simp
  have "rm_books (drop_client name n s)"
    using inv total rm.discharge_exact [OF inv le] rm.discharge_bounded [OF inv le]
    by (auto simp: rm_inv_defs drop_client_def um_in_erase)
  moreover have "rm_queue (drop_client name n s)"
    using inv by (auto simp: rm_inv_defs drop_client_def rm_waiter_def umap_simps)
  ultimately show ?thesis by (simp add: rm_inv_def)
qed

lemma drop_model_inv:
  assumes inv: "rm_inv s" and held: "map_of (rm_model_reservations s) name = Some n"
  shows "rm_inv (drop_model name n s)"
proof -
  have total: "rm_total s = unat n + rm_total (drop_model name n s)"
    using um_total_erase [OF _ held] rm_inv_wf [OF inv] by (simp add: rm_total_def drop_model_def)
  then have le: "unat n \<le> rm_total s" by simp
  have "rm_books (drop_model name n s)"
    using inv total rm.discharge_exact [OF inv le] rm.discharge_bounded [OF inv le]
    by (auto simp: rm_inv_defs drop_model_def um_in_erase)
  moreover have "rm_queue (drop_model name n s)"
    using inv by (auto simp: rm_inv_defs drop_model_def rm_waiter_def)
  ultimately show ?thesis by (simp add: rm_inv_def)
qed

lemma finish_inv:
  assumes inv: "rm_inv s"
  shows "rm_inv (finish p r s)"
proof -
  have "rm_books (finish p r s)"
    using inv by (simp add: rm_inv_defs finish_def rm_total_def)
  moreover have "rm_queue (finish p r s)"
    using inv rm_inv_distinct [OF inv]
    by (auto simp: rm_inv_defs finish_def rm_waiter_def sorted_wrt_remove1 inj_on_def)
  ultimately show ?thesis by (simp add: rm_inv_def)
qed

lemma fold_complete_eq:
  "distinct ps \<Longrightarrow> fold (\<lambda>p h. h(p := complete_with r (h p))) ps h =
    (\<lambda>p. if p \<in> set ps then complete_with r (h p) else h p)"
  by (induction ps arbitrary: h) (auto simp: fun_eq_iff)

text \<open>The requests that leave the queue together, all with the same result.\<close>

definition finish_all ::
  "(req_ptr \<Rightarrow> bool) \<Rightarrow> operation_result \<Rightarrow> resource_manager \<Rightarrow> resource_manager" where
  "finish_all A r s =
     s\<lparr>rm_pending := filter (\<lambda>p. \<not> A p) (rm_pending s),
       rm_requests := (\<lambda>p. if p \<in> set (rm_pending s) \<and> A p
         then complete_with r (rm_requests s p) else rm_requests s p)\<rparr>"

lemma expire_waiters_eq:
  "rm_inv s \<Longrightarrow> expire_waiters now s =
     finish_all (\<lambda>p. expired now (rm_requests s p)) (op_fail error_code.Timeout) s"
  by (simp add: expire_waiters_def finish_all_def expire_loop_eq rm_inv_distinct)

lemma cancel_waiters_eq:
  "rm_inv s \<Longrightarrow> rm_cancel_waiters s = finish_all (\<lambda>_. True) (op_fail error_code.Timeout) s"
  by (simp add: rm_cancel_waiters_def finish_all_def fold_complete_eq rm_inv_distinct)

lemma finish_all_inv:
  assumes inv: "rm_inv s"
  shows "rm_inv (finish_all A r s)"
proof -
  have "rm_books (finish_all A r s)"
    using inv by (simp add: rm_inv_defs finish_all_def rm_total_def)
  moreover have "rm_queue (finish_all A r s)"
    using inv
    by (auto simp: rm_inv_defs finish_all_def rm_waiter_def sorted_wrt_filter inj_on_def)
  ultimately show ?thesis by (simp add: rm_inv_def)
qed

lemma grant_at_eq:
  assumes "rm_inv s" and "i < length (rm_pending s)"
  shows "grant_at i s =
    (let p = rm_pending s ! i; q = rm_requests s p
     in add_client (pr_name q) (pr_bytes q) (finish p (op_done (pr_bytes q)) s))"
  using assms rm_inv_distinct
  by (simp add: grant_at_def add_client_def finish_def Let_def erase_at_remove1)

lemma grant_at_inv:
  assumes inv: "rm_inv s" and i: "i < length (rm_pending s)"
    and fits: "pr_bytes (rm_requests s (rm_pending s ! i)) \<le> rm_capacity s - rm_used s"
  shows "rm_inv (grant_at i s)"
proof -
  define p where "p = rm_pending s ! i"
  define q where "q = rm_requests s p"
  let ?t = "finish p (op_done (pr_bytes q)) s"
  have p: "p \<in> set (rm_pending s)" using i by (simp add: p_def)
  note w = rm_inv_waiter [OF inv p, unfolded rm_waiter_def]
  have inj: "inj_on (\<lambda>p. pr_name (rm_requests s p)) (set (rm_pending s))"
    using inv by (simp add: rm_inv_defs)
  have "\<not> has_name_locked (pr_name q) ?t"
    using w p inj rm_inv_distinct [OF inv]
    by (auto simp: has_name_iff finish_def q_def dest: inj_onD)
  moreover have "rm_inv ?t" by (rule finish_inv [OF inv])
  ultimately have "rm_inv (add_client (pr_name q) (pr_bytes q) ?t)"
    using w fits by (intro add_client_inv) (simp_all add: finish_def p_def q_def)
  then show ?thesis
    by (simp add: grant_at_eq [OF inv i] p_def q_def Let_def)
qed

section \<open>The scheduler keeps the invariant and settles the queue\<close>

lemma grant_loop_inv: "rm_inv s \<Longrightarrow> rm_inv (grant_loop s)"
  by (induction s rule: grant_loop_induct)
    (simp_all add: grant_loop_stop grant_loop_turn grant_at_inv)

lemma grant_loop_settled: "rm_settled (grant_loop s)"
proof (induction s rule: grant_loop_induct)
  case (stop s)
  then show ?case by (simp add: grant_loop_stop) (simp add: select_waiter_none rm_settled_def)
qed (simp add: grant_loop_turn)

lemma grant_waiters_inv: "rm_inv s \<Longrightarrow> rm_inv (grant_waiters_locked now s)"
  by (simp add: grant_waiters_locked_def expire_waiters_eq finish_all_inv grant_loop_inv)

lemma grant_waiters_settled: "rm_settled (grant_waiters_locked now s)"
  by (simp add: grant_waiters_locked_def grant_loop_settled)

lemma acquire_enqueue_inv:
  assumes inv: "rm_inv s" and "rm_valid_name name" and "n \<noteq> 0" and "n \<le> rm_capacity s"
    and fresh: "\<not> has_name_locked name s"
  shows "rm_inv (acquire_enqueue now name n opts s)"
proof -
  have "rm_books (acquire_enqueue now name n opts s)"
    using inv by (simp add: rm_inv_defs acquire_enqueue_def rm_total_def Let_def)
  moreover have "rm_queue (acquire_enqueue now name n opts s)"
    using assms
    by (auto simp: rm_inv_defs acquire_enqueue_def rm_waiter_def Let_def has_name_iff
        sorted_wrt_append empty_request_def less_Suc_eq inj_on_def)
  ultimately show ?thesis by (simp add: rm_inv_def)
qed

end
