(* ===== verification/ResourceOps.thy ===== *)
theory ResourceOps
  imports ResourceInvariant
begin

text \<open>
  The operations of the resource manager: each keeps the invariant and leaves the queue
  settled, and the executions of the whole object, any interleaving of calls, wake-ups and
  timeouts, form a transition system whose reachable states satisfy both.
\<close>

definition rm_good :: "resource_manager \<Rightarrow> bool" where
  "rm_good s \<longleftrightarrow> rm_inv s \<and> rm_settled s"

section \<open>Operations as elementary changes\<close>

lemma add_client_settled_iff:
  "rm_pending s = [] \<Longrightarrow> rm_settled (add_client name n s)"
  by (simp add: rm_settled_def add_client_def)

lemma add_model_settled:
  assumes inv: "rm_inv s" and "rm_settled s" and fits: "n \<le> rm_capacity s - rm_used s"
  shows "rm_settled (add_model name n s)"
proof -
  have "unat (rm_used (add_model name n s)) = unat (rm_used s) + unat n"
    using rm.charge_exact [OF inv fits] rm.used_total [OF inv] by (simp add: add_model_def)
  moreover have "rm_used (add_model name n s) \<le> rm_capacity s"
    using rm.charge_bounded [OF inv fits] by (simp add: add_model_def)
  ultimately have "rm_capacity s - rm_used (add_model name n s) \<le> rm_capacity s - rm_used s"
    using rm.used_le_cap [OF inv] by (simp add: word_le_nat_alt unat_free)
  with assms(2) show ?thesis
    by (auto simp: rm_settled_def add_model_def)
qed

lemma finish_settled: "rm_inv s \<Longrightarrow> rm_settled s \<Longrightarrow> rm_settled (finish p r s)"
  by (simp add: rm_settled_def finish_def rm_inv_distinct)

lemma finish_all_settled: "rm_settled s \<Longrightarrow> rm_settled (finish_all A r s)"
  by (simp add: rm_settled_def finish_all_def)

lemma unique_evictions_iff:
  "unique_evictions seen es \<longleftrightarrow> distinct es \<and> set es \<inter> set seen = {}"
  by (induction seen es rule: unique_evictions.induct) auto

lemma drop_evictions_step:
  "drop_evictions (e # es) s =
     (case map_of (rm_model_reservations s) e of None \<Rightarrow> drop_evictions es s
      | Some n \<Rightarrow> drop_evictions es (drop_model e n s))"
  by (simp add: drop_model_def split: option.split)

lemma drop_evictions_inv: "rm_inv s \<Longrightarrow> rm_inv (drop_evictions es s)"
proof (induction es arbitrary: s)
  case (Cons e es)
  then show ?case
    by (auto simp: drop_evictions_step drop_model_inv simp del: drop_evictions.simps(2)
        split: option.split)
qed simp

lemma drop_evictions_frame [simp]:
  "rm_capacity (drop_evictions es s) = rm_capacity s"
  "rm_policy (drop_evictions es s) = rm_policy s"
  "rm_reservations (drop_evictions es s) = rm_reservations s"
  "rm_pending (drop_evictions es s) = rm_pending s"
  "rm_requests (drop_evictions es s) = rm_requests s"
  "rm_next_sequence (drop_evictions es s) = rm_next_sequence s"
  "rm_next_ptr (drop_evictions es s) = rm_next_ptr s"
  by (induction es s rule: drop_evictions.induct) (simp_all split: option.split)

lemma map_of_drop_evictions:
  "map_of (rm_model_reservations (drop_evictions es s)) =
     (map_of (rm_model_reservations s)) |` (- set es)"
proof (induction es s rule: drop_evictions.induct)
  case (2 e es s)
  then show ?case
    by (auto simp: umap_simps restrict_map_def fun_eq_iff split: option.split)
qed (simp add: restrict_map_def)

lemma evicted_bytes_erase:
  "e \<notin> set es \<Longrightarrow> evicted_bytes (um_erase e m) acc es = evicted_bytes m acc es"
  by (induction m acc es rule: evicted_bytes.induct) (auto simp: umap_simps split: option.split)

lemma drop_evictions_used:
  "evicted_bytes (rm_model_reservations s) acc es = Some ev \<Longrightarrow> distinct es \<Longrightarrow>
   rm_used (drop_evictions es s) = rm_used s - (ev - acc)"
proof (induction es arbitrary: s acc)
  case (Cons e es)
  then obtain n where n: "map_of (rm_model_reservations s) e = Some n"
    by (auto split: option.splits)
  let ?t = "drop_model e n s"
  have "evicted_bytes (rm_model_reservations ?t) (acc + n) es = Some ev"
    using Cons.prems n by (simp add: drop_model_def evicted_bytes_erase)
  with Cons.prems have "rm_used (drop_evictions es ?t) = rm_used ?t - (ev - (acc + n))"
    by (intro Cons.IH) simp_all
  with n show ?case by (simp add: drop_model_def)
qed simp

lemma evicted_bytes_found:
  "evicted_bytes m acc es = Some ev \<Longrightarrow> set es \<subseteq> um_keys m"
proof (induction m acc es rule: evicted_bytes.induct)
  case (2 m acc e es)
  then show ?case
    by (auto split: option.splits dest!: map_of_SomeD intro: rev_image_eqI)
qed simp

text \<open>The guard of the replacement is exact: the word it compares with is the free space
  after the evictions.\<close>

lemma replace_guard:
  assumes "evicted_bytes (rm_model_reservations s) 0 es = Some ev" and "distinct es"
  shows "rm_capacity s - rm_used s + ev = rm_capacity s - rm_used (drop_evictions es s)"
  using drop_evictions_used [OF assms] by simp

lemma replace_success:
  assumes "rm_replace_model_reservations now es ident n s = (r, t)" and "op_ok r"
  shows "distinct es" and "set es \<subseteq> um_keys (rm_model_reservations s)"
    and "rm_valid_name ident" and "n \<noteq> 0"
    and "ident \<notin> um_keys (rm_model_reservations s)"
    and "n \<le> rm_capacity s - rm_used (drop_evictions es s)"
    and "r = op_done n"
    and "t = grant_waiters_locked now (add_model ident n (drop_evictions es s))"
proof -
  from assms obtain ev where ev: "evicted_bytes (rm_model_reservations s) 0 es = Some ev"
    and guard: "n \<le> rm_capacity s - rm_used s + ev" and checks: "distinct es"
      "rm_valid_name ident" "n \<noteq> 0" "ident \<notin> um_keys (rm_model_reservations s)"
    and res: "r = op_done n"
      "t = grant_waiters_locked now (add_model ident n (drop_evictions es s))"
    by (auto simp: rm_replace_model_reservations_def op_ok_def unique_evictions_iff Let_def
        add_model_def um_contains_iff not_less split: if_splits option.splits)
  from guard show "n \<le> rm_capacity s - rm_used (drop_evictions es s)"
    by (simp only: replace_guard [OF ev checks(1)])
  from ev show "set es \<subseteq> um_keys (rm_model_reservations s)"
    by (rule evicted_bytes_found)
qed (use assms in \<open>auto simp: rm_replace_model_reservations_def op_ok_def
    unique_evictions_iff Let_def add_model_def um_contains_iff split: if_splits option.splits\<close>)

section \<open>Every operation keeps the invariant\<close>

lemma grant_waiters_good: "rm_inv s \<Longrightarrow> rm_good (grant_waiters_locked now s)"
  by (simp add: rm_good_def grant_waiters_inv grant_waiters_settled)

lemma try_acquire_good:
  assumes "rm_good s"
  shows "rm_good (snd (rm_try_acquire now name n s))"
  using assms add_client_inv [of s name n]
  by (auto simp: rm_try_acquire_def rm_good_def not_less add_client_def
      intro!: grant_waiters_inv grant_waiters_settled)

lemma acquire_enter_good:
  assumes "rm_good s"
  shows "rm_good (snd (acquire_enter now name n opts s))"
proof -
  have "rm_good (add_client name n s)"
    if "rm_valid_name name" "n \<noteq> 0" "\<not> has_name_locked name s" "rm_pending s = []"
      "n \<le> rm_capacity s - rm_used s"
    using that assms
    by (simp add: rm_good_def add_client_inv) (simp add: rm_settled_def add_client_def)
  moreover have "rm_good (grant_waiters_locked now (acquire_enqueue now name n opts s))"
    if "rm_valid_name name" "n \<noteq> 0" "\<not> has_name_locked name s" "n \<le> rm_capacity s"
    using that assms by (intro grant_waiters_good acquire_enqueue_inv) (simp_all add: rm_good_def)
  ultimately show ?thesis
    using assms try_acquire_good [OF assms, of now name n]
    by (auto simp: acquire_enter_def not_less add_client_def split: prod.split)
qed

lemma acquire_poll_good: "rm_good s \<Longrightarrow> rm_good (snd (acquire_poll now p s))"
  by (auto simp: acquire_poll_def Let_def intro!: grant_waiters_good) (simp add: rm_good_def)

lemma acquire_expire_eq:
  "acquire_expire p s =
     (if pr_completed (rm_requests s p) then (pr_result (rm_requests s p), s)
      else (op_fail error_code.Timeout, finish p (op_fail error_code.Timeout) s))"
  by (simp add: acquire_expire_def finish_def)

lemma acquire_expire_good: "rm_good s \<Longrightarrow> rm_good (snd (acquire_expire p s))"
  by (simp add: acquire_expire_eq rm_good_def finish_inv finish_settled)

lemma release_good: "rm_good s \<Longrightarrow> rm_good (snd (rm_release now name s))"
  using drop_client_inv [of s name]
  by (auto simp: rm_release_def rm_good_def drop_client_def
      intro!: grant_waiters_inv grant_waiters_settled split: option.split)

lemma acquire_model_good: "rm_good s \<Longrightarrow> rm_good (snd (rm_acquire_model ident n s))"
  using add_model_inv [of s ident n] add_model_settled [of s n ident]
  by (auto simp: rm_acquire_model_def rm_good_def add_model_def not_less)

lemma release_model_good: "rm_good s \<Longrightarrow> rm_good (snd (rm_release_model now ident s))"
  using drop_model_inv [of s ident]
  by (auto simp: rm_release_model_def rm_good_def drop_model_def
      intro!: grant_waiters_inv grant_waiters_settled split: option.split)

lemma replace_fail_unchanged:
  "rm_replace_model_reservations now es ident n s = (r, t) \<Longrightarrow> \<not> op_ok r \<Longrightarrow> t = s"
  by (auto simp: rm_replace_model_reservations_def op_ok_def Let_def
      split: if_splits option.splits)

lemma replace_good:
  assumes "rm_good s"
  shows "rm_good (snd (rm_replace_model_reservations now es ident n s))"
proof (cases "rm_replace_model_reservations now es ident n s")
  case (Pair r t)
  show ?thesis
  proof (cases "op_ok r")
    case True
    note ok = replace_success [OF Pair True]
    let ?d = "drop_evictions es s"
    have "map_of (rm_model_reservations ?d) ident = None"
      using ok(5) by (simp add: map_of_drop_evictions map_of_eq_None_iff restrict_map_def)
    then have "rm_inv (add_model ident n ?d)"
      using assms ok by (intro add_model_inv drop_evictions_inv)
        (simp_all add: rm_good_def um_contains_def)
    with Pair ok(8) show ?thesis by (simp add: grant_waiters_good)
  next
    case False
    with Pair replace_fail_unchanged assms show ?thesis by simp blast
  qed
qed

lemma cancel_good: "rm_good s \<Longrightarrow> rm_good (rm_cancel_waiters s)"
  by (simp add: rm_good_def cancel_waiters_eq finish_all_inv finish_all_settled)

section \<open>Executions\<close>

text \<open>
  The atomic steps threads take on the object: the public operations, and for a thread
  blocked in \<open>acquire\<close> a wake-up (notified or spurious) or a timed-out wake-up.
\<close>

datatype rm_label =
    TryAcquire time string bytes operation_result
  | Acquire time string bytes acquire_options acquire_outcome
  | Wake time req_ptr "operation_result option"
  | TimeOut time req_ptr operation_result
  | Release time string operation_result
  | AcquireModel string bytes operation_result
  | ReleaseModel time string operation_result
  | ReplaceModels time "string list" string bytes operation_result
  | CancelWaiters

inductive rm_step :: "resource_manager \<Rightarrow> rm_label \<Rightarrow> resource_manager \<Rightarrow> bool" where
  step_try_acquire:
    "rm_try_acquire now name n s = (r, t) \<Longrightarrow> rm_step s (TryAcquire now name n r) t"
| step_acquire:
    "acquire_enter now name n opts s = (r, t) \<Longrightarrow> rm_step s (Acquire now name n opts r) t"
| step_wake:
    "p < rm_next_ptr s \<Longrightarrow> acquire_poll now p s = (r, t) \<Longrightarrow> rm_step s (Wake now p r) t"
| step_time_out:
    "p < rm_next_ptr s \<Longrightarrow> expired now (rm_requests s p) \<Longrightarrow> acquire_expire p s = (r, t) \<Longrightarrow>
     rm_step s (TimeOut now p r) t"
| step_release:
    "rm_release now name s = (r, t) \<Longrightarrow> rm_step s (Release now name r) t"
| step_acquire_model:
    "rm_acquire_model ident n s = (r, t) \<Longrightarrow> rm_step s (AcquireModel ident n r) t"
| step_release_model:
    "rm_release_model now ident s = (r, t) \<Longrightarrow> rm_step s (ReleaseModel now ident r) t"
| step_replace_models:
    "rm_replace_model_reservations now es ident n s = (r, t) \<Longrightarrow>
     rm_step s (ReplaceModels now es ident n r) t"
| step_cancel:
    "rm_step s CancelWaiters (rm_cancel_waiters s)"

inductive_cases rm_step_TryAcquireE: "rm_step s (TryAcquire now name n r) t"
inductive_cases rm_step_WakeE: "rm_step s (Wake now p r) t"

definition rm_start :: "resource_manager \<Rightarrow> bool" where
  "rm_start s \<longleftrightarrow> rm_new (rm_capacity s) (rm_policy s) = Some s"

lemma rm_step_good: "rm_step s e t \<Longrightarrow> rm_good s \<Longrightarrow> rm_good t"
proof (induction rule: rm_step.induct)
  case (step_try_acquire now name n s r t)
  then show ?case using try_acquire_good [of s now name n] by simp
next
  case (step_acquire now name n opts s r t)
  then show ?case using acquire_enter_good [of s now name n opts] by simp
next
  case (step_wake p s now r t)
  then show ?case using acquire_poll_good [of s now p] by simp
next
  case (step_time_out p s now r t)
  then show ?case using acquire_expire_good [of s p] by simp
next
  case (step_release now name s r t)
  then show ?case using release_good [of s now name] by simp
next
  case (step_acquire_model ident n s r t)
  then show ?case using acquire_model_good [of s ident n] by simp
next
  case (step_release_model now ident s r t)
  then show ?case using release_model_good [of s now ident] by simp
next
  case (step_replace_models now es ident n s r t)
  then show ?case using replace_good [of s now es ident n] by simp
qed (rule cancel_good)

interpretation rm_system: invariant_system rm_start rm_step rm_good
proof
  show "rm_good s" if "rm_start s" for s
    using that rm_inv_new by (simp add: rm_start_def rm_good_def)
qed (rule rm_step_good)

end
