(* ===== verification/SchedulerSpec.thy ===== *)
theory SchedulerSpec
  imports ResourceOps "HOL-Library.Product_Lexorder"
begin

text \<open>
  An abstract scheduler and the proof that the code's loops implement it. The code searches
  the whole queue for the best fitting request, grants it and starts over; the abstract
  scheduler sorts the queue once by the policy's key and walks it front to back, granting
  every request that still fits.
\<close>

section \<open>The abstract scheduler\<close>

text \<open>
  Higher priority first; under the cost-aware policy cheaper loads first; then arrival.
\<close>

definition dispatch_key :: "resource_manager \<Rightarrow> req_ptr \<Rightarrow> int \<times> int \<times> nat" where
  "dispatch_key s p =
     (- pr_priority (rm_requests s p),
      if rm_policy s = CostAware then pr_cost (rm_requests s p) else 0, p)"

definition request_size :: "resource_manager \<Rightarrow> req_ptr \<Rightarrow> nat" where
  "request_size s p = unat (pr_bytes (rm_requests s p))"

fun greedy :: "(req_ptr \<Rightarrow> nat) \<Rightarrow> nat \<Rightarrow> req_ptr list \<Rightarrow> req_ptr list" where
  "greedy sz room [] = []"
| "greedy sz room (p # ps) =
     (if sz p \<le> room then p # greedy sz (room - sz p) ps else greedy sz room ps)"

definition greedy_grants :: "resource_manager \<Rightarrow> req_ptr list" where
  "greedy_grants s =
     greedy (request_size s) (unat (rm_capacity s) - rm_total s)
       (sort_key (dispatch_key s) (rm_pending s))"

lemma greedy_skip:
  "\<forall>p \<in> set ps. room < sz p \<Longrightarrow> greedy sz room (ps @ qs) = greedy sz room qs"
  by (induction ps) auto

lemma greedy_cong:
  "(\<And>p. p \<in> set ps \<Longrightarrow> sz p = sz' p) \<Longrightarrow> greedy sz room ps = greedy sz' room ps"
  by (induction ps arbitrary: room) auto

section \<open>The selected request has the least key among those that fit\<close>

text \<open>
  Arrival order is the order of the 64-bit sequence numbers until \<open>2 ^ 64\<close> requests have
  been queued.
\<close>

definition no_sequence_wrap :: "resource_manager \<Rightarrow> bool" where
  "no_sequence_wrap s \<longleftrightarrow> rm_next_ptr s \<le> 2 ^ 64"

lemma sequence_less_iff:
  assumes "rm_inv s" "no_sequence_wrap s" "p \<in> set (rm_pending s)" "q \<in> set (rm_pending s)"
  shows "pr_sequence (rm_requests s p) < pr_sequence (rm_requests s q) \<longleftrightarrow> p < q"
proof -
  have "p < 2 ^ 64" "q < 2 ^ 64"
    using assms by (auto simp: no_sequence_wrap_def rm_inv_defs rm_waiter_def)
  moreover have "pr_sequence (rm_requests s p) = of_nat p" "pr_sequence (rm_requests s q) = of_nat q"
    using assms by (auto simp: rm_inv_defs rm_waiter_def)
  ultimately show ?thesis
    by (simp add: word_less_nat_alt unat_of_nat)
qed

lemma preferred_iff_key:
  assumes "rm_inv s" "no_sequence_wrap s" "p \<in> set (rm_pending s)" "q \<in> set (rm_pending s)"
  shows "preferred (rm_policy s) (rm_requests s p) (rm_requests s q) \<longleftrightarrow>
    dispatch_key s p < dispatch_key s q"
  using sequence_less_iff [OF assms]
  by (cases "rm_policy s") (auto simp: preferred_def dispatch_key_def)

lemma dispatch_key_inj: "inj_on (dispatch_key s) A"
  by (auto simp: inj_on_def dispatch_key_def)

lemma selected_least_key:
  assumes inv: "rm_inv s" and wrap: "no_sequence_wrap s"
    and sel: "select_waiter s < length (rm_pending s)"
    and q: "q \<in> set (rm_pending s)" "q \<noteq> rm_pending s ! select_waiter s"
    and fits: "pr_bytes (rm_requests s q) \<le> rm_capacity s - rm_used s"
  shows "dispatch_key s (rm_pending s ! select_waiter s) < dispatch_key s q"
proof -
  let ?p = "rm_pending s ! select_waiter s"
  have p: "?p \<in> set (rm_pending s)" using sel by simp
  have "\<not> dispatch_key s q < dispatch_key s ?p"
    using select_waiter_optimal [of s q] sel q(1) fits preferred_iff_key [OF inv wrap q(1) p]
    by simp
  moreover have "dispatch_key s q \<noteq> dispatch_key s ?p"
    using q(2) by (auto simp: dispatch_key_def)
  ultimately show ?thesis by (simp add: neq_iff)
qed

section \<open>The loop performs the greedy walk\<close>

text \<open>The requests the loop grants, in order.\<close>

function grant_order :: "resource_manager \<Rightarrow> req_ptr list" where
  "grant_order s =
     (let i = select_waiter s in
      if i = length (rm_pending s) then []
      else rm_pending s ! i # grant_order (grant_at i s))"
  by pat_completeness auto
termination
proof (relation "measure (\<lambda>s. length (rm_pending s))", goal_cases)
  case (2 s i)
  then show ?case
    using select_waiter_fits(1) [of s] by (simp add: grant_at_def Let_def length_erase_at)
qed simp

declare grant_order.simps [simp del]

lemma sort_key_unique:
  assumes "inj_on f (set xs)" and "distinct xs" and "distinct ys" and "set ys = set xs"
    and "sorted (map f ys)"
  shows "sort_key f xs = ys"
proof -
  have "map f (sort_key f xs) = map f ys"
    using assms by (intro sorted_distinct_set_unique) (auto simp: distinct_map)
  then show ?thesis
    by (rule map_inj_on) (simp add: assms)
qed

lemma sort_key_remove1:
  assumes "distinct xs" and "inj_on f (set xs)" and "sort_key f xs = ys @ x # zs"
  shows "sort_key f (remove1 x xs) = ys @ zs"
proof (rule sort_key_unique)
  have d: "distinct (ys @ x # zs)" and st: "sorted (map f (ys @ x # zs))"
    and set: "set xs = set (ys @ x # zs)"
    using assms(1) by (simp_all flip: assms(3))
  show "distinct (ys @ zs)" using d by simp
  show "sorted (map f (ys @ zs))" using st by (simp add: sorted_append)
  show "set (ys @ zs) = set (remove1 x xs)" using d set assms(1) by auto
qed (use assms in \<open>auto intro: inj_on_subset simp: distinct_remove1\<close>)

text \<open>
  The sorted queue splits at the selected request into a prefix of requests that do not
  fit, the request, and the rest.
\<close>

lemma sorted_queue_split:
  assumes inv: "rm_inv s" and wrap: "no_sequence_wrap s"
    and sel: "select_waiter s < length (rm_pending s)"
  obtains ys zs where
    "sort_key (dispatch_key s) (rm_pending s) = ys @ rm_pending s ! select_waiter s # zs"
    and "\<forall>q \<in> set ys. unat (rm_capacity s) - rm_total s < request_size s q"
proof -
  let ?p = "rm_pending s ! select_waiter s"
  let ?xs = "sort_key (dispatch_key s) (rm_pending s)"
  have "?p \<in> set ?xs" using sel by simp
  then obtain ys zs where split: "?xs = ys @ ?p # zs" by (blast dest: split_list)
  have "unat (rm_capacity s) - rm_total s < request_size s q" if q: "q \<in> set ys" for q
  proof (rule ccontr)
    assume "\<not> ?thesis"
    then have fits: "pr_bytes (rm_requests s q) \<le> rm_capacity s - rm_used s"
      by (simp add: request_size_def word_le_nat_alt rm.free_exact [OF inv])
    have "sorted (map (dispatch_key s) (ys @ ?p # zs))" by (simp flip: split)
    with q have le: "dispatch_key s q \<le> dispatch_key s ?p"
      by (auto simp: sorted_append)
    have "set ?xs = set (rm_pending s)" by simp
    with split q have q': "q \<in> set (rm_pending s)" by auto
    have "distinct ?xs" using rm_inv_distinct [OF inv] by simp
    with split q have "q \<noteq> ?p" by auto
    with selected_least_key [OF inv wrap sel q' _ fits] le show False by simp
  qed
  with split that show thesis by blast
qed

text \<open>Granting a request changes no one's key or size.\<close>

lemma grant_at_key [simp]: "dispatch_key (grant_at i s) = dispatch_key s"
  by (auto simp: fun_eq_iff dispatch_key_def grant_at_def Let_def)

lemma grant_at_size [simp]: "request_size (grant_at i s) = request_size s"
  by (auto simp: fun_eq_iff request_size_def grant_at_def Let_def)

lemma grant_at_pending:
  "rm_inv s \<Longrightarrow> i < length (rm_pending s) \<Longrightarrow>
   rm_pending (grant_at i s) = remove1 (rm_pending s ! i) (rm_pending s)"
  by (simp add: grant_at_def Let_def erase_at_remove1 rm_inv_distinct)

lemma grant_at_total:
  assumes inv: "rm_inv s" and i: "i < length (rm_pending s)"
    and fits: "pr_bytes (rm_requests s (rm_pending s ! i)) \<le> rm_capacity s - rm_used s"
  shows "rm_total (grant_at i s) = rm_total s + request_size s (rm_pending s ! i)"
proof -
  have "rm_total (grant_at i s) = unat (rm_used (grant_at i s))"
    using rm.used_total [OF grant_at_inv [OF assms]] by simp
  then show ?thesis
    by (simp add: grant_at_def Let_def request_size_def rm.charge_exact [OF inv fits])
qed

lemma grant_order_stop:
  "select_waiter s = length (rm_pending s) \<Longrightarrow> grant_order s = []"
  by (subst grant_order.simps) simp

lemma grant_order_turn:
  "select_waiter s \<noteq> length (rm_pending s) \<Longrightarrow>
   grant_order s = rm_pending s ! select_waiter s # grant_order (grant_at (select_waiter s) s)"
  by (subst grant_order.simps) (simp add: Let_def)

lemma greedy_after_grant:
  assumes inv: "rm_inv s" and wrap: "no_sequence_wrap s"
    and sel: "select_waiter s < length (rm_pending s)"
    and fits: "pr_bytes (rm_requests s (rm_pending s ! select_waiter s))
      \<le> rm_capacity s - rm_used s"
  shows "greedy_grants s =
    rm_pending s ! select_waiter s # greedy_grants (grant_at (select_waiter s) s)"
proof -
  let ?p = "rm_pending s ! select_waiter s" and ?t = "grant_at (select_waiter s) s"
  let ?room = "unat (rm_capacity s) - rm_total s"
  from sorted_queue_split [OF inv wrap sel] obtain ys zs where
    split: "sort_key (dispatch_key s) (rm_pending s) = ys @ ?p # zs"
    and skip: "\<forall>q \<in> set ys. ?room < request_size s q" by blast
  have "sort_key (dispatch_key ?t) (rm_pending ?t) = ys @ zs"
    using sort_key_remove1 [OF rm_inv_distinct [OF inv] dispatch_key_inj split]
    by (simp add: grant_at_pending [OF inv sel])
  moreover have "unat (rm_capacity ?t) - rm_total ?t = ?room - request_size s ?p"
    by (simp add: grant_at_total [OF inv sel fits])
  moreover have "request_size s ?p \<le> ?room"
    using fits by (simp add: request_size_def word_le_nat_alt rm.free_exact [OF inv])
  moreover have "\<forall>q \<in> set ys. ?room - request_size s ?p < request_size s q"
    using skip by (auto intro: less_imp_diff_less simp del: diff_diff_left)
  ultimately show ?thesis
    using skip by (simp add: greedy_grants_def split greedy_skip del: diff_diff_left)
qed

lemma grant_order_greedy:
  "rm_inv s \<Longrightarrow> no_sequence_wrap s \<Longrightarrow> grant_order s = greedy_grants s"
proof (induction s rule: grant_loop_induct)
  case (stop s)
  then have "\<forall>p \<in> set (sort_key (dispatch_key s) (rm_pending s)).
      unat (rm_capacity s) - rm_total s < request_size s p"
    by (simp add: select_waiter_none request_size_def word_less_nat_alt rm.free_exact)
  from greedy_skip [OF this, of "[]"] have "greedy_grants s = []"
    by (simp add: greedy_grants_def)
  with stop show ?case by (simp add: grant_order_stop del: select_waiter_none)
next
  case (turn s)
  have "grant_order (grant_at (select_waiter s) s) = greedy_grants (grant_at (select_waiter s) s)"
    using turn by (intro turn.IH grant_at_inv) (simp_all add: no_sequence_wrap_def)
  with turn show ?case by (simp add: grant_order_turn greedy_after_grant)
qed

text \<open>What the loop leaves behind, in terms of the requests it granted.\<close>

lemma grant_order_subset: "rm_inv s \<Longrightarrow> set (grant_order s) \<subseteq> set (rm_pending s)"
proof (induction s rule: grant_loop_induct)
  case (turn s)
  then show ?case
    using set_remove1_subset [of "rm_pending s ! select_waiter s" "rm_pending s"]
    by (auto simp: grant_order_turn grant_at_inv grant_at_pending)
qed (simp add: grant_order_stop)

lemma grant_loop_pending:
  "rm_inv s \<Longrightarrow> rm_pending (grant_loop s) = filter (\<lambda>p. p \<notin> set (grant_order s)) (rm_pending s)"
proof (induction s rule: grant_loop_induct)
  case (turn s)
  then show ?case
    by (auto simp: grant_loop_turn grant_order_turn grant_at_inv grant_at_pending
        rm_inv_distinct distinct_remove1_removeAll removeAll_filter_not_eq intro!: filter_cong)
qed (simp add: grant_loop_stop grant_order_stop)

end
