(* ===== verification/WaiterFate.thy ===== *)
theory WaiterFate
  imports SchedulerSpec
begin

text \<open>
  What one step of the object does to each blocked request: it stays queued untouched, or
  it is completed exactly once, with the memory it asked for now reserved under its name or
  with \<open>Timeout\<close>. A completed request never changes again.
\<close>

definition waiter_fate :: "resource_manager \<Rightarrow> resource_manager \<Rightarrow> req_ptr \<Rightarrow> bool" where
  "waiter_fate s t p \<longleftrightarrow>
     (let q = rm_requests s p; q' = rm_requests t p in
      if p \<in> set (rm_pending s) then
        (p \<in> set (rm_pending t) \<and> q' = q) \<or>
        (p \<notin> set (rm_pending t) \<and> q' = complete_with (op_fail error_code.Timeout) q) \<or>
        (p \<notin> set (rm_pending t) \<and> q' = complete_with (op_done (pr_bytes q)) q \<and>
         map_of (rm_reservations t) (pr_name q) = Some (pr_bytes q))
      else p \<notin> set (rm_pending t) \<and> q' = q)"

lemma waiter_fate_cong:
  "rm_pending s = rm_pending s' \<Longrightarrow> rm_requests s = rm_requests s' \<Longrightarrow>
   waiter_fate s t p = waiter_fate s' t p"
  by (simp add: waiter_fate_def)

lemma waiter_fate_refl: "waiter_fate s s p"
  by (simp add: waiter_fate_def Let_def)

section \<open>One pass of the scheduler\<close>

lemma grant_at_keeps_reservation:
  "map_of (rm_reservations s) k = Some n \<Longrightarrow> map_of (rm_reservations (grant_at i s)) k = Some n"
  by (simp add: grant_at_def Let_def um_emplace_keeps)

lemma grant_loop_keeps_reservation:
  "map_of (rm_reservations s) k = Some n \<Longrightarrow> map_of (rm_reservations (grant_loop s)) k = Some n"
  by (induction s rule: grant_loop_induct)
    (simp_all add: grant_loop_stop grant_loop_turn grant_at_keeps_reservation)

text \<open>The loop grants or leaves alone; it times nothing out.\<close>

definition granted_or_kept :: "resource_manager \<Rightarrow> resource_manager \<Rightarrow> req_ptr \<Rightarrow> bool" where
  "granted_or_kept s t p \<longleftrightarrow>
     (let q = rm_requests s p in
      if p \<in> set (rm_pending s) \<and> p \<notin> set (rm_pending t) then
        rm_requests t p = complete_with (op_done (pr_bytes q)) q \<and>
        map_of (rm_reservations t) (pr_name q) = Some (pr_bytes q)
      else rm_requests t p = q \<and> (p \<in> set (rm_pending t) \<longrightarrow> p \<in> set (rm_pending s)))"

lemma grant_at_fate:
  assumes "rm_inv s" and "i < length (rm_pending s)"
  shows "granted_or_kept s (grant_at i s) p"
proof -
  let ?p = "rm_pending s ! i"
  have fresh: "\<not> um_contains (pr_name (rm_requests s ?p)) (rm_reservations s)"
    using rm_inv_waiter [OF assms(1), of ?p] assms(2)
    by (simp add: rm_waiter_def um_contains_iff)
  have pend: "set (rm_pending (grant_at i s)) = set (rm_pending s) - {?p}"
    using assms by (simp add: grant_at_pending rm_inv_distinct)
  show ?thesis
  proof (cases "p = ?p")
    case True
    with fresh assms(2) pend show ?thesis
      by (simp add: granted_or_kept_def Let_def)
        (simp add: grant_at_def Let_def map_of_um_emplace)
  next
    case False
    with pend show ?thesis
      by (simp add: granted_or_kept_def Let_def) (simp add: grant_at_def Let_def)
  qed
qed

lemma granted_or_kept_trans:
  assumes st: "granted_or_kept s t p" and tu: "granted_or_kept t u p"
    and keeps: "\<And>k n. map_of (rm_reservations t) k = Some n \<Longrightarrow>
      map_of (rm_reservations u) k = Some n"
  shows "granted_or_kept s u p"
proof (cases "p \<in> set (rm_pending s) \<and> p \<notin> set (rm_pending t)")
  case True
  with st tu keeps show ?thesis by (simp add: granted_or_kept_def Let_def)
next
  case False
  with st have "rm_requests t p = rm_requests s p"
    and "p \<in> set (rm_pending t) \<longleftrightarrow> p \<in> set (rm_pending s)"
    by (auto simp: granted_or_kept_def Let_def)
  with tu show ?thesis by (auto simp: granted_or_kept_def Let_def)
qed

lemma grant_loop_fate: "rm_inv s \<Longrightarrow> granted_or_kept s (grant_loop s) p"
proof (induction s rule: grant_loop_induct)
  case (stop s)
  then show ?case by (simp add: grant_loop_stop granted_or_kept_def del: select_waiter_none)
next
  case (turn s)
  let ?t = "grant_at (select_waiter s) s"
  have "granted_or_kept s ?t p" by (rule grant_at_fate [OF turn.prems turn.hyps(1)])
  moreover have "granted_or_kept ?t (grant_loop ?t) p"
    by (rule turn.IH [OF grant_at_inv [OF turn.prems turn.hyps]])
  ultimately have "granted_or_kept s (grant_loop ?t) p"
    by (rule granted_or_kept_trans) (rule grant_loop_keeps_reservation)
  with turn show ?case by (simp add: grant_loop_turn)
qed

lemma grant_waiters_fate:
  assumes inv: "rm_inv s"
  shows "waiter_fate s (grant_waiters_locked now s) p"
proof -
  let ?e = "expire_waiters now s"
  have "granted_or_kept ?e (grant_loop ?e) p"
    using inv by (intro grant_loop_fate) (simp add: expire_waiters_eq finish_all_inv)
  then show ?thesis
    using inv
    by (auto simp: grant_waiters_locked_def waiter_fate_def granted_or_kept_def Let_def
        expire_waiters_eq finish_all_def split: if_splits)
qed

lemma grant_waiters_keeps_reservation:
  "map_of (rm_reservations s) k = Some n \<Longrightarrow>
   map_of (rm_reservations (grant_waiters_locked now s)) k = Some n"
  by (simp add: grant_waiters_locked_def grant_loop_keeps_reservation)

section \<open>One step of the object\<close>

lemma grant_after_change_fate:
  assumes "rm_inv t" and "rm_pending s = rm_pending t" and "rm_requests s = rm_requests t"
  shows "waiter_fate s (grant_waiters_locked now t) p"
  using grant_waiters_fate [OF assms(1)] waiter_fate_cong [OF assms(2,3)] by blast

lemma finish_fate:
  assumes "rm_inv s" and "p \<in> set (rm_pending s)"
  shows "waiter_fate s (finish p (op_fail error_code.Timeout) s) q"
  using assms by (simp add: waiter_fate_def finish_def Let_def rm_inv_distinct)

lemma finish_all_fate:
  "waiter_fate s (finish_all A (op_fail error_code.Timeout) s) q"
  by (simp add: waiter_fate_def finish_all_def Let_def)

lemma try_acquire_fate:
  assumes "rm_good s" and "rm_try_acquire now name n s = (r, t)"
  shows "waiter_fate s t p"
proof (cases "t = s")
  case False
  with assms(2) have checks: "rm_valid_name name" "n \<noteq> 0" "\<not> has_name_locked name s"
      "n \<le> rm_capacity s - rm_used s"
    and t: "t = grant_waiters_locked now (add_client name n s)"
    by (auto simp: rm_try_acquire_def add_client_def split: if_splits)
  show ?thesis
    unfolding t using assms(1) checks
    by (intro grant_after_change_fate add_client_inv) (simp_all add: rm_good_def add_client_def)
qed (simp add: waiter_fate_refl)

lemma acquire_enter_cases:
  "acquire_enter now name n opts s = (r, t) \<Longrightarrow>
   snd (rm_try_acquire now name n s) = t \<or>
   (rm_pending t = rm_pending s \<and> rm_requests t = rm_requests s) \<or>
   (rm_valid_name name \<and> n \<noteq> 0 \<and> \<not> has_name_locked name s \<and> n \<le> rm_capacity s \<and>
    t = grant_waiters_locked now (acquire_enqueue now name n opts s))"
  unfolding acquire_enter_def
  by (cases "rm_try_acquire now name n s") (simp split: if_splits, auto)

lemma acquire_enter_waiting:
  "acquire_enter now name n opts s = (Waiting p, t) \<Longrightarrow>
   p = rm_next_ptr s \<and> t = grant_waiters_locked now (acquire_enqueue now name n opts s)"
  unfolding acquire_enter_def
  by (cases "rm_try_acquire now name n s") (simp split: if_splits)

lemma acquire_enter_fate:
  assumes "rm_good s" and "acquire_enter now name n opts s = (r, t)" and "p < rm_next_ptr s"
  shows "waiter_fate s t p"
proof -
  from acquire_enter_cases [OF assms(2)] show ?thesis
  proof (elim disjE conjE)
    assume "snd (rm_try_acquire now name n s) = t"
    then have "rm_try_acquire now name n s = (fst (rm_try_acquire now name n s), t)" by auto
    then show ?thesis by (rule try_acquire_fate [OF assms(1)])
  next
    assume "rm_pending t = rm_pending s" "rm_requests t = rm_requests s"
    then show ?thesis by (simp add: waiter_fate_def Let_def)
  next
    let ?u = "acquire_enqueue now name n opts s"
    assume queued: "rm_valid_name name" "n \<noteq> 0" "\<not> has_name_locked name s" "n \<le> rm_capacity s"
      and t: "t = grant_waiters_locked now ?u"
    have "waiter_fate ?u t p"
      unfolding t using queued assms(1)
      by (intro grant_waiters_fate acquire_enqueue_inv) (simp_all add: rm_good_def)
    moreover have "rm_requests ?u p = rm_requests s p"
      "p \<in> set (rm_pending ?u) \<longleftrightarrow> p \<in> set (rm_pending s)"
      using assms(3) by (auto simp: acquire_enqueue_def Let_def)
    ultimately show ?thesis by (simp add: waiter_fate_def)
  qed
qed

lemma rm_step_fate:
  assumes "rm_step s e t" and "rm_good s" and "p < rm_next_ptr s"
  shows "waiter_fate s t p"
  using assms
proof (induction rule: rm_step.induct)
  case (step_try_acquire now name n s r t)
  then show ?case by (blast intro: try_acquire_fate)
next
  case (step_acquire now name n opts s r t)
  then show ?case by (blast intro: acquire_enter_fate)
next
  case (step_wake q s now r t)
  then show ?case
    by (auto simp: acquire_poll_def rm_good_def Let_def waiter_fate_refl
        intro: grant_waiters_fate split: if_splits)
next
  case (step_time_out q s now r t)
  then have "q \<in> set (rm_pending s) \<or> pr_completed (rm_requests s q)"
    by (auto simp: rm_good_def rm_inv_defs)
  with step_time_out show ?case
    by (auto simp: acquire_expire_eq rm_good_def waiter_fate_refl intro: finish_fate
        split: if_splits)
next
  case (step_release now name s r t)
  then show ?case
    by (auto simp: rm_release_def rm_good_def drop_client_def [symmetric] waiter_fate_refl
        intro!: grant_after_change_fate drop_client_inv split: if_splits option.splits)
      (simp_all add: drop_client_def)
next
  case (step_acquire_model ident n s r t)
  then show ?case
    by (auto simp: rm_acquire_model_def waiter_fate_def Let_def split: if_splits)
next
  case (step_release_model now ident s r t)
  then show ?case
    by (auto simp: rm_release_model_def rm_good_def drop_model_def [symmetric] waiter_fate_refl
        intro!: grant_after_change_fate drop_model_inv split: if_splits option.splits)
      (simp_all add: drop_model_def)
next
  case (step_replace_models now es ident n s r t)
  show ?case
  proof (cases "op_ok r")
    case True
    note ok = replace_success [OF step_replace_models(1) True]
    let ?d = "drop_evictions es s"
    have "map_of (rm_model_reservations ?d) ident = None"
      using ok(5) by (simp add: map_of_drop_evictions map_of_eq_None_iff restrict_map_def)
    then have "rm_inv (add_model ident n ?d)"
      using step_replace_models.prems ok by (intro add_model_inv drop_evictions_inv)
        (simp_all add: rm_good_def um_contains_def)
    then show ?thesis
      unfolding ok(8) by (rule grant_after_change_fate) (simp_all add: add_model_def)
  next
    case False
    with step_replace_models show ?thesis
      using replace_fail_unchanged waiter_fate_refl by blast
  qed
next
  case (step_cancel s)
  then show ?case by (simp add: cancel_waiters_eq rm_good_def finish_all_fate)
qed

lemma rm_step_frame:
  assumes "rm_step s e t"
  shows "rm_capacity t = rm_capacity s" and "rm_policy t = rm_policy s"
    and "rm_next_ptr s \<le> rm_next_ptr t"
  using assms
  by (induction rule: rm_step.induct)
    (auto simp: rm_try_acquire_def acquire_enter_def acquire_enqueue_def acquire_poll_def
      acquire_expire_def rm_release_def rm_acquire_model_def rm_release_model_def
      rm_replace_model_reservations_def rm_cancel_waiters_def Let_def
      split: if_splits option.splits prod.splits)

end
