(* ===== verification/ResourceProperties.thy ===== *)
theory ResourceProperties
  imports WaiterFate
begin

text \<open>
  The properties of the resource manager, over every state an execution can reach.
\<close>

definition rm_reachable :: "resource_manager \<Rightarrow> bool" where
  "rm_reachable s \<longleftrightarrow> (\<exists>s0 es. rm_start s0 \<and> run rm_step s0 es s)"

lemma rm_reachable_good: "rm_reachable s \<Longrightarrow> rm_good s"
  by (auto simp: rm_reachable_def intro: rm_system.run_inv)

lemma rm_reachable_inv: "rm_reachable s \<Longrightarrow> rm_inv s"
  using rm_reachable_good by (simp add: rm_good_def)

lemma rm_reachable_start: "rm_start s \<Longrightarrow> rm_reachable s"
  unfolding rm_reachable_def by (rule exI [of _ s], rule exI [of _ "[]"]) simp

lemma rm_reachable_step: "rm_reachable s \<Longrightarrow> rm_step s e t \<Longrightarrow> rm_reachable t"
  unfolding rm_reachable_def
  by (elim exE conjE, rule_tac x = s0 in exI, rule_tac x = "es @ [e]" in exI)
    (auto intro: run_append)

text \<open>A manager with 100 bytes held by one client and a second client queued for 50.\<close>

definition demo_start :: resource_manager where
  "demo_start = \<lparr>rm_capacity = 100, rm_policy = PriorityFifo, rm_used = 0,
     rm_reservations = [], rm_model_reservations = [], rm_pending = [],
     rm_next_sequence = 0, rm_requests = (\<lambda>_. empty_request), rm_next_ptr = 0\<rparr>"

definition demo_full :: resource_manager where
  "demo_full = snd (rm_try_acquire 5 ''owner'' 100 demo_start)"

definition demo_queued :: resource_manager where
  "demo_queued = snd (acquire_enter 10 ''waiter'' 50 default_options demo_full)"

lemma demo_reachable:
  "rm_reachable demo_start" "rm_reachable demo_full" "rm_reachable demo_queued"
proof -
  show start: "rm_reachable demo_start"
    by (rule rm_reachable_start) (simp add: rm_start_def rm_new_def demo_start_def)
  show full: "rm_reachable demo_full"
    unfolding demo_full_def
    by (rule rm_reachable_step [OF start step_try_acquire]) (rule surjective_pairing)
  show "rm_reachable demo_queued"
    unfolding demo_queued_def
    by (rule rm_reachable_step [OF full step_acquire]) (rule surjective_pairing)
qed

lemma demo_full_state:
  "demo_full = demo_start\<lparr>rm_reservations := [(''owner'', 100)], rm_used := 100\<rparr>"
  by (simp add: demo_full_def rm_try_acquire_def demo_start_def rm_valid_name_def
      has_name_locked_def um_contains_def um_emplace_def grant_waiters_locked_def
      expire_waiters_def grant_loop_stop select_waiter_def select_loop.simps)

lemma demo_queued_state:
  "rm_pending demo_queued = [0]" "rm_capacity demo_queued = 100" "rm_used demo_queued = 100"
  "rm_next_ptr demo_queued = 1" "pr_bytes (rm_requests demo_queued 0) = 50"
  "pr_deadline (rm_requests demo_queued 0) = time_max"
  "pr_name (rm_requests demo_queued 0) = ''waiter''"
  by (simp_all add: demo_queued_def demo_full_state acquire_enter_def demo_start_def
      rm_valid_name_def has_name_locked_def um_contains_def acquire_enqueue_def Let_def
      default_options_def ms_max_def acquire_deadline_def grant_waiters_locked_def
      expire_waiters_def expired_def time_max_def grant_loop_stop select_waiter_def
      select_loop.simps empty_request_def)

lemma demo_queued_reservations:
  "rm_reservations demo_queued = [(''owner'', 100)]" "rm_model_reservations demo_queued = []"
  by (simp_all add: demo_queued_def demo_full_state acquire_enter_def demo_start_def
      rm_valid_name_def has_name_locked_def um_contains_def acquire_enqueue_def Let_def
      default_options_def ms_max_def acquire_deadline_def grant_waiters_locked_def
      expire_waiters_def expired_def time_max_def grant_loop_stop select_waiter_def
      select_loop.simps empty_request_def)

section \<open>Helper facts\<close>

lemma rm_valid_name_no_colon: "rm_valid_name k \<Longrightarrow> CHR '':'' \<notin> set k"
  by (auto simp: rm_valid_name_def list_all_iff Let_def split: if_splits)

lemma status_names:
  assumes inv: "rm_inv s"
  shows "distinct (map rs_name (st_reservations (rm_status s)))"
    and "sorted (map rs_name (st_reservations (rm_status s)))"
proof -
  let ?models = "map (\<lambda>(k, n). (''model:'' @ k, n)) (rm_model_reservations s)"
  have names: "map rs_name (st_reservations (rm_status s)) =
      map fst (um_sorted (rm_reservations s @ ?models))"
    by (simp add: rm_status_def comp_def case_prod_beta)
  have "(''model:'' @ k, n) \<notin> set (rm_reservations s)" for k n
    using inv rm_valid_name_no_colon [of "''model:'' @ k"]
    by (auto simp: rm_inv_defs)
  moreover have "um_wf ?models"
    using rm_inv_wf(2) [OF inv]
    by (auto simp: distinct_map inj_on_def comp_def case_prod_beta)
  ultimately have "um_wf (rm_reservations s @ ?models)"
    using rm_inv_wf(1) [OF inv] by auto
  then show "distinct (map rs_name (st_reservations (rm_status s)))"
    by (simp add: names)
  show "sorted (map rs_name (st_reservations (rm_status s)))"
    by (simp add: names um_sorted_keys)
qed

lemma status_sum:
  "(\<Sum>r \<leftarrow> st_reservations (rm_status s). unat (rs_bytes r)) = rm_total s"
proof -
  let ?m = "rm_reservations s @ map (\<lambda>(k, n). (''model:'' @ k, n)) (rm_model_reservations s)"
  have "(\<Sum>r \<leftarrow> st_reservations (rm_status s). unat (rs_bytes r)) = um_total (um_sorted ?m)"
    by (simp add: rm_status_def um_total_def comp_def case_prod_beta)
  then show ?thesis
    by (simp only: um_total_sorted um_total_append um_total_map_keys rm_total_def)
qed

lemma run_capacity: "run rm_step s es t \<Longrightarrow> rm_capacity t = rm_capacity s"
  by (induction rule: run.induct) (simp_all add: rm_step_frame(1))

lemma run_completed_stable:
  assumes "run rm_step s es t" and "rm_good s" and "p < rm_next_ptr s"
    and "pr_completed (rm_requests s p)"
  shows "rm_requests t p = rm_requests s p"
  using assms
proof (induction rule: run.induct)
  case (run_cons s e t es u)
  have "p \<notin> set (rm_pending s)"
    using run_cons.prems rm_inv_waiter by (auto simp: rm_good_def rm_waiter_def)
  then have "rm_requests t p = rm_requests s p"
    using rm_step_fate [OF run_cons.hyps(1) run_cons.prems(1,2)]
    by (simp add: waiter_fate_def Let_def)
  moreover have "p < rm_next_ptr t"
    using rm_step_frame(3) [OF run_cons.hyps(1)] run_cons.prems(2) by simp
  ultimately show ?case
    using run_cons rm_step_good by simp
qed simp

lemma no_expiry: 
  assumes "rm_inv s" and "\<And>p. p \<in> set (rm_pending s) \<Longrightarrow> \<not> expired now (rm_requests s p)"
  shows "expire_waiters now s = s"
proof -
  have "filter (\<lambda>p. \<not> expired now (rm_requests s p)) (rm_pending s) = rm_pending s"
    using assms(2) by simp
  moreover have "(\<lambda>p. if p \<in> set (rm_pending s) \<and> expired now (rm_requests s p)
      then complete_with (op_fail error_code.Timeout) (rm_requests s p)
      else rm_requests s p) = rm_requests s"
    by (intro ext) (auto dest: assms(2))
  ultimately show ?thesis
    by (simp add: expire_waiters_eq [OF assms(1)] finish_all_def)
qed

lemma settled_grant_loop: "rm_settled s \<Longrightarrow> grant_loop s = s"
  by (rule grant_loop_stop) (simp add: select_waiter_none rm_settled_def)

section \<open>Accounting\<close>

text \<open>
  C1: the books always balance. In every reachable state the status snapshot reports the
  configured capacity, its \<open>used\<close> is the exact sum of the listed reservations, client and
  model alike, \<open>used\<close> and \<open>free\<close> add up to the capacity with no 64-bit wrap-around, and
  the listing is sorted with no name twice.
\<close>

theorem status_accounts_for_all:
  assumes "rm_start s0" and "run rm_step s0 es s"
  shows "let st = rm_status s in
    st_capacity st = rm_capacity s0 \<and>
    unat (st_used st) = (\<Sum>r \<leftarrow> st_reservations st. unat (rs_bytes r)) \<and>
    unat (st_used st) + unat (st_free st) = unat (st_capacity st) \<and>
    sorted (map rs_name (st_reservations st)) \<and>
    distinct (map rs_name (st_reservations st))"
proof -
  have inv: "rm_inv s"
    using assms by (intro rm_reachable_inv) (auto simp: rm_reachable_def)
  have "st_capacity (rm_status s) = rm_capacity s0"
    using run_capacity [OF assms(2)] by (simp add: rm_status_def)
  moreover have "unat (st_used (rm_status s)) + unat (st_free (rm_status s))
      = unat (st_capacity (rm_status s))"
    using rm.used_le_cap [OF inv]
    by (simp add: rm_status_def unat_free word_le_nat_alt)
  moreover have "unat (st_used (rm_status s)) = rm_total s"
    using rm.used_total [OF inv] by (simp add: rm_status_def)
  ultimately show ?thesis
    using status_names [OF inv] by (simp add: status_sum Let_def)
qed

theorem status_accounts_for_all_witness:
  "\<exists>s. run rm_step demo_start
        [TryAcquire 5 ''owner'' 100 (fst (rm_try_acquire 5 ''owner'' 100 demo_start))] s \<and>
      (let st = rm_status s in
       st_capacity st = 100 \<and> st_used st = 100 \<and>
       unat (st_used st) = (\<Sum>r \<leftarrow> st_reservations st. unat (rs_bytes r)))"
proof -
  have start: "rm_start demo_start"
    by (simp add: rm_start_def rm_new_def demo_start_def)
  have run: "run rm_step demo_start
      [TryAcquire 5 ''owner'' 100 (fst (rm_try_acquire 5 ''owner'' 100 demo_start))] demo_full"
    by (auto simp: demo_full_def intro!: step_try_acquire)
  show ?thesis
    using status_accounts_for_all [OF start run] run
    by (intro exI [of _ demo_full])
      (auto simp: Let_def demo_full_state demo_start_def rm_status_def)
qed

text \<open>
  C5: no memory is left idle while a request that fits waits, in any reachable state, and
  so a request can only be waiting while somebody holds memory.
\<close>

theorem no_fitting_request_waits:
  assumes "rm_reachable s" and "p \<in> set (rm_pending s)"
  shows "pr_bytes (rm_requests s p) > st_free (rm_status s) \<and>
    st_reservations (rm_status s) \<noteq> []"
proof
  have good: "rm_good s" and inv: "rm_inv s"
    using assms(1) by (auto intro: rm_reachable_good rm_reachable_inv)
  show fits: "pr_bytes (rm_requests s p) > st_free (rm_status s)"
    using good assms(2) by (simp add: rm_good_def rm_settled_def rm_status_def)
  show "st_reservations (rm_status s) \<noteq> []"
  proof
    assume "st_reservations (rm_status s) = []"
    with status_sum [of s] have "rm_total s = 0" by simp
    with rm.used_total [OF inv] have "rm_used s = 0" by (simp add: unat_eq_0)
    with fits rm_inv_waiter [OF inv assms(2)] show False
      by (auto simp: rm_status_def rm_waiter_def dest: leD)
  qed
qed

theorem no_fitting_request_waits_witness:
  "0 \<in> set (rm_pending demo_queued) \<and>
   pr_bytes (rm_requests demo_queued 0) > st_free (rm_status demo_queued) \<and>
   st_reservations (rm_status demo_queued) \<noteq> []"
  using no_fitting_request_waits [OF demo_reachable(3), of 0]
  by (simp add: demo_queued_state)

section \<open>Scheduling\<close>

text \<open>
  C4: the scheduler's repeated search implements one greedy pass. Once memory has been
  given back and the expired requests are gone, \<open>grant_waiters_locked\<close> serves exactly the
  requests a single walk over the queue serves, taken by decreasing priority, under the
  cost-aware policy by increasing estimated cost, and by arrival, each as soon as it fits
  what is left; each served request completes with its bytes, reserved under its name, and
  the others stay queued in order. Up to \<open>2 ^ 64\<close> queued requests, when the sequence
  counter wraps.
\<close>

theorem scheduler_refines_greedy:
  assumes "rm_inv s" and "no_sequence_wrap s"
  shows "let e = expire_waiters now s; t = grant_waiters_locked now s in
    rm_pending t = filter (\<lambda>p. p \<notin> set (greedy_grants e)) (rm_pending e) \<and>
    (\<forall>p \<in> set (greedy_grants e).
       rm_requests t p = complete_with (op_done (pr_bytes (rm_requests e p))) (rm_requests e p) \<and>
       map_of (rm_reservations t) (pr_name (rm_requests e p)) = Some (pr_bytes (rm_requests e p)))"
proof -
  let ?e = "expire_waiters now s"
  have inv: "rm_inv ?e"
    using assms(1) by (simp add: expire_waiters_eq finish_all_inv)
  moreover have "no_sequence_wrap ?e"
    using assms(2) by (simp add: no_sequence_wrap_def)
  ultimately have order: "grant_order ?e = greedy_grants ?e"
    by (rule grant_order_greedy)
  have "granted_or_kept ?e (grant_loop ?e) p" for p
    by (rule grant_loop_fate [OF inv])
  with grant_order_subset [OF inv] show ?thesis
    by (auto simp: grant_waiters_locked_def grant_loop_pending [OF inv] order Let_def
        granted_or_kept_def)
qed

theorem scheduler_refines_greedy_witness:
  "let s = drop_client ''owner'' 100 demo_queued; e = expire_waiters 20 s;
       t = grant_waiters_locked 20 s in
   greedy_grants e = [0] \<and>
   rm_pending t = filter (\<lambda>p. p \<notin> set (greedy_grants e)) (rm_pending e) \<and>
   map_of (rm_reservations t) ''waiter'' = Some 50"
proof -
  let ?s = "drop_client ''owner'' 100 demo_queued"
  have inv: "rm_inv ?s"
    by (rule drop_client_inv [OF rm_reachable_inv [OF demo_reachable(3)]])
      (simp add: demo_queued_reservations)
  have e: "expire_waiters 20 ?s = ?s"
    by (rule no_expiry [OF inv]) (simp add: drop_client_def demo_queued_state expired_def)
  have "greedy_grants ?s = [0]"
    by (simp add: greedy_grants_def drop_client_def demo_queued_state demo_queued_reservations
        request_size_def rm_total_def um_erase_def)
  then show ?thesis
    using scheduler_refines_greedy [OF inv, of 20] e
    by (simp add: Let_def no_sequence_wrap_def)
      (simp add: drop_client_def demo_queued_state demo_queued_reservations)
qed

text \<open>
  C15: every blocked request has one of three fates in a step of the object: it stays
  queued and untouched, or it leaves the queue with the bytes it asked for reserved under
  its name, or it leaves the queue with \<open>Timeout\<close>; a request that already left the queue
  is never touched again.
\<close>

theorem waiter_settled_once:
  assumes "rm_reachable s" and "rm_step s e t" and "p < rm_next_ptr s"
  shows "waiter_fate s t p"
  using assms by (intro rm_step_fate rm_reachable_good)

theorem waiter_settled_once_witness:
  "rm_step demo_queued CancelWaiters (rm_cancel_waiters demo_queued) \<and>
   waiter_fate demo_queued (rm_cancel_waiters demo_queued) 0"
  using waiter_settled_once [OF demo_reachable(3) step_cancel, of 0] step_cancel
  by (simp add: demo_queued_state)

text \<open>
  A result once delivered is final. Whatever the object does after a request was
  completed, the thread holding it returns from \<open>acquire\<close> with that result on its next
  wake-up, and the wake-up changes nothing.
\<close>

theorem completed_result_is_final:
  assumes "rm_reachable s" and "p < rm_next_ptr s" and "p \<notin> set (rm_pending s)"
    and "run rm_step s es t"
  shows "acquire_poll now p t = (Some (pr_result (rm_requests s p)), t)"
proof -
  have good: "rm_good s" using assms(1) by (rule rm_reachable_good)
  then have "pr_completed (rm_requests s p)"
    using assms(2,3) by (auto simp: rm_good_def rm_inv_defs)
  moreover from this have "rm_requests t p = rm_requests s p"
    using assms good by (intro run_completed_stable)
  ultimately show ?thesis by (simp add: acquire_poll_def)
qed

theorem completed_result_is_final_witness:
  "acquire_poll 99 0 (rm_cancel_waiters demo_queued) =
     (Some (op_fail error_code.Timeout), rm_cancel_waiters demo_queued)"
proof -
  let ?c = "rm_cancel_waiters demo_queued"
  have "rm_reachable ?c" by (rule rm_reachable_step [OF demo_reachable(3) step_cancel])
  moreover have "0 < rm_next_ptr ?c" "0 \<notin> set (rm_pending ?c)"
    by (simp_all add: rm_cancel_waiters_def demo_queued_state)
  ultimately have "acquire_poll 99 0 ?c = (Some (pr_result (rm_requests ?c 0)), ?c)"
    by (rule completed_result_is_final [where es = "[]"]) simp
  then show ?thesis by (simp add: rm_cancel_waiters_def demo_queued_state)
qed

text \<open>
  Spurious wake-ups are harmless. A thread that wakes while its request is still
  queued and no deadline has passed goes back to sleep and leaves the object as it was.
\<close>

theorem spurious_wakeup_is_noop:
  assumes "rm_reachable s" and "p \<in> set (rm_pending s)"
    and "\<And>q. q \<in> set (rm_pending s) \<Longrightarrow> \<not> expired now (rm_requests s q)"
  shows "acquire_poll now p s = (None, s)"
proof -
  have good: "rm_good s" using assms(1) by (rule rm_reachable_good)
  then have "grant_waiters_locked now s = s"
    using assms(3) by (simp add: grant_waiters_locked_def no_expiry settled_grant_loop rm_good_def)
  moreover have "\<not> pr_completed (rm_requests s p)"
    using good assms(2) rm_inv_waiter by (auto simp: rm_good_def rm_waiter_def)
  ultimately show ?thesis by (simp add: acquire_poll_def Let_def)
qed

theorem spurious_wakeup_is_noop_witness:
  "acquire_poll 20 0 demo_queued = (None, demo_queued)"
  by (rule spurious_wakeup_is_noop [OF demo_reachable(3)])
    (auto simp: demo_queued_state expired_def)

section \<open>Acquiring\<close>

lemma acquire_deadline_bounds:
  assumes "0 \<le> now" and "now < time_max" and "0 < timeout"
  shows "now < acquire_deadline now timeout" and "acquire_deadline now timeout \<le> time_max"
proof -
  have "timeout * 1000000 \<le> time_max - now" if "timeout \<le> (time_max - now) div 1000000"
    using that by linarith
  then show "now < acquire_deadline now timeout" and "acquire_deadline now timeout \<le> time_max"
    using assms by (auto simp: acquire_deadline_def Let_def ns_per_ms_def)
qed

text \<open>The queue as the first pass of a freshly queued request finds it.\<close>

lemma fresh_request_pass:
  assumes good: "rm_good s" and valid: "rm_valid_name name" "n \<noteq> 0" "n \<le> rm_capacity s"
    and fresh: "\<not> has_name_locked name s"
    and live: "now < acquire_deadline now (ao_timeout opts)"
  defines "e \<equiv> expire_waiters now (acquire_enqueue now name n opts s)"
  shows "rm_inv e" and "rm_used e = rm_used s" and "rm_capacity e = rm_capacity s"
    and "rm_next_ptr s \<in> set (rm_pending e)"
    and "pr_bytes (rm_requests e (rm_next_ptr s)) = n"
    and "\<forall>q \<in> set (rm_pending e). \<not> expired now (rm_requests e q)"
    and "\<forall>q \<in> set (rm_pending e). q \<noteq> rm_next_ptr s \<longrightarrow>
      pr_bytes (rm_requests e q) > rm_capacity s - rm_used s"
proof -
  let ?u = "acquire_enqueue now name n opts s"
  have u: "rm_inv ?u"
    using good valid fresh by (intro acquire_enqueue_inv) (simp_all add: rm_good_def)
  then show "rm_inv e" by (simp add: e_def expire_waiters_eq finish_all_inv)
  have e: "e = finish_all (\<lambda>p. expired now (rm_requests ?u p)) (op_fail error_code.Timeout) ?u"
    unfolding e_def by (rule expire_waiters_eq [OF u])
  have q_old: "q < rm_next_ptr s" if "q \<in> set (rm_pending s)" for q
    using good that rm_inv_waiter by (auto simp: rm_good_def rm_waiter_def)
  have settled: "rm_settled s" using good by (simp add: rm_good_def)
  show "\<forall>q \<in> set (rm_pending e). q \<noteq> rm_next_ptr s \<longrightarrow>
      pr_bytes (rm_requests e q) > rm_capacity s - rm_used s"
    using settled q_old unfolding e finish_all_def
    by (auto simp: acquire_enqueue_def Let_def rm_settled_def)
  show "rm_next_ptr s \<in> set (rm_pending e)" "pr_bytes (rm_requests e (rm_next_ptr s)) = n"
    "\<forall>q \<in> set (rm_pending e). \<not> expired now (rm_requests e q)"
    using live unfolding e finish_all_def
    by (auto simp: acquire_enqueue_def Let_def expired_def)
qed (simp_all add: e_def acquire_enqueue_def Let_def)

lemma fresh_request_granted:
  assumes good: "rm_good s" and valid: "rm_valid_name name" "n \<noteq> 0" "n \<le> rm_capacity s"
    and fresh: "\<not> has_name_locked name s"
    and live: "now < acquire_deadline now (ao_timeout opts)"
    and fits: "n \<le> rm_capacity s - rm_used s"
  defines "t \<equiv> grant_waiters_locked now (acquire_enqueue now name n opts s)"
  shows "acquire_poll now (rm_next_ptr s) t = (Some (op_done n), t)"
proof -
  let ?e = "expire_waiters now (acquire_enqueue now name n opts s)"
  let ?i = "select_waiter ?e" and ?p = "rm_next_ptr s"
  note pass = fresh_request_pass [OF good valid fresh live]
  have sel: "?i \<noteq> length (rm_pending ?e)"
    using pass(2-5) fits select_waiter_none by (metis leD)
  note i = select_waiter_fits [OF sel]
  have ip: "rm_pending ?e ! ?i = ?p"
    using pass(2,3,7) i by (metis leD nth_mem)
  have p1: "rm_requests (grant_at ?i ?e) ?p = complete_with (op_done n) (rm_requests ?e ?p)"
    using pass(5) by (simp add: grant_at_def Let_def ip)
  have p2: "?p \<notin> set (rm_pending (grant_at ?i ?e))"
    using pass(1) i(1) by (simp add: grant_at_pending rm_inv_distinct ip)
  have "granted_or_kept (grant_at ?i ?e) t ?p"
    unfolding t_def grant_waiters_locked_def grant_loop_turn [OF sel]
    by (rule grant_loop_fate [OF grant_at_inv [OF pass(1) i]])
  with p1 p2 show ?thesis
    by (simp add: granted_or_kept_def Let_def acquire_poll_def)
qed

lemma fresh_request_blocked:
  assumes good: "rm_good s" and valid: "rm_valid_name name" "n \<noteq> 0" "n \<le> rm_capacity s"
    and fresh: "\<not> has_name_locked name s"
    and live: "now < acquire_deadline now (ao_timeout opts)"
    and full: "n > rm_capacity s - rm_used s"
  defines "t \<equiv> grant_waiters_locked now (acquire_enqueue now name n opts s)"
  shows "acquire_poll now (rm_next_ptr s) t = (None, t)"
proof -
  let ?e = "expire_waiters now (acquire_enqueue now name n opts s)"
  note pass = fresh_request_pass [OF good valid fresh live]
  have settled: "rm_settled ?e"
    using pass(2,3,5,7) full unfolding rm_settled_def by metis
  then have t: "t = ?e" by (simp add: t_def grant_waiters_locked_def settled_grant_loop)
  have "\<not> pr_completed (rm_requests ?e (rm_next_ptr s))"
    using rm_inv_waiter [OF pass(1,4)] by (simp add: rm_waiter_def)
  moreover have "grant_waiters_locked now ?e = ?e"
    using pass(1,6) settled
    by (simp add: grant_waiters_locked_def no_expiry settled_grant_loop)
  ultimately show ?thesis
    unfolding t by (simp add: acquire_poll_def Let_def)
qed

text \<open>
  C24: a well-formed \<open>acquire\<close> with a positive timeout blocks its caller exactly when the
  bytes it asks for exceed the free memory. In particular requests already waiting do not
  make a fitting one wait, and a fitting one is granted before its caller sleeps even
  when it had to go through the queue.
\<close>

theorem acquire_blocks_iff_full:
  assumes "rm_reachable s" and "rm_valid_name name" and "n \<noteq> 0" and "n \<le> rm_capacity s"
    and "\<not> has_name_locked name s" and "0 < ao_timeout opts" and "0 \<le> ao_cost opts"
    and "0 \<le> now" and "now < time_max"
  shows "(\<exists>p t. acquire_enter now name n opts s = (Waiting p, t) \<and>
      fst (acquire_poll now p t) = None) \<longleftrightarrow> n > st_free (rm_status s)"
proof -
  have good: "rm_good s" using assms(1) by (rule rm_reachable_good)
  have live: "now < acquire_deadline now (ao_timeout opts)"
    using assms by (intro acquire_deadline_bounds)
  let ?t = "grant_waiters_locked now (acquire_enqueue now name n opts s)"
  show ?thesis
  proof (cases "n > rm_capacity s - rm_used s")
    case True
    then have "acquire_enter now name n opts s = (Waiting (rm_next_ptr s), ?t)"
      using assms by (simp add: acquire_enter_def not_less [symmetric])
    with fresh_request_blocked [OF good assms(2-5) live True] True show ?thesis
      by (simp add: rm_status_def)
  next
    case False
    then have fits: "n \<le> rm_capacity s - rm_used s" by (simp add: not_less)
    have "fst (acquire_poll now p t) \<noteq> None"
      if "acquire_enter now name n opts s = (Waiting p, t)" for p t
    proof -
      have "acquire_poll now p t = (Some (op_done n), t)"
        using acquire_enter_waiting [OF that]
          fresh_request_granted [OF good assms(2-5) live fits] by simp
      then show ?thesis by simp
    qed
    then have "\<not> (\<exists>p t. acquire_enter now name n opts s = (Waiting p, t) \<and>
        fst (acquire_poll now p t) = None)" by blast
    moreover have "\<not> n > st_free (rm_status s)" using False by (simp add: rm_status_def)
    ultimately show ?thesis by blast
  qed
qed

theorem acquire_blocks_iff_full_witness:
  "\<exists>p t. acquire_enter 10 ''waiter'' 50 default_options demo_full = (Waiting p, t) \<and>
     fst (acquire_poll 10 p t) = None"
proof -
  have "(\<exists>p t. acquire_enter 10 ''waiter'' 50 default_options demo_full = (Waiting p, t) \<and>
      fst (acquire_poll 10 p t) = None) \<longleftrightarrow> 50 > st_free (rm_status demo_full)"
    by (rule acquire_blocks_iff_full [OF demo_reachable(2)])
      (simp_all add: demo_full_state demo_start_def rm_valid_name_def has_name_locked_def
        um_contains_def default_options_def ms_max_def time_max_def)
  then show ?thesis by (simp add: rm_status_def demo_full_state demo_start_def)
qed

lemma try_acquire_result:
  assumes "rm_inv s" and "rm_try_acquire now name n s = (r, t)"
  shows "if rm_valid_name name \<and> n \<noteq> 0 \<and> \<not> has_name_locked name s \<and>
        unat n + rm_total s \<le> unat (rm_capacity s)
    then r = op_done n \<and> map_of (rm_reservations t) name = Some n \<and>
      (\<forall>k m. map_of (rm_reservations s) k = Some m \<longrightarrow> map_of (rm_reservations t) k = Some m)
    else \<not> op_ok r \<and> t = s"
proof -
  have fits: "n \<le> rm_capacity s - rm_used s \<longleftrightarrow> unat n + rm_total s \<le> unat (rm_capacity s)"
    by (rule rm.fits_iff [OF assms(1)])
  show ?thesis
  proof (cases "rm_valid_name name \<and> n \<noteq> 0 \<and> \<not> has_name_locked name s \<and>
      n \<le> rm_capacity s - rm_used s")
    case True
    then have t: "r = op_done n" "t = grant_waiters_locked now (add_client name n s)"
      using assms(2) by (auto simp: rm_try_acquire_def add_client_def split: if_splits)
    have "\<not> um_contains name (rm_reservations s)"
      using True by (auto simp: has_name_iff um_contains_iff)
    then have "map_of (rm_reservations (add_client name n s)) name = Some n"
      by (simp add: add_client_def map_of_um_emplace)
    moreover have "map_of (rm_reservations s) k = Some m \<Longrightarrow>
        map_of (rm_reservations (add_client name n s)) k = Some m" for k m
      by (simp add: add_client_def um_emplace_keeps)
    ultimately show ?thesis
      using True t fits by (simp add: grant_waiters_keeps_reservation)
  next
    case False
    then have "\<not> op_ok r \<and> t = s"
      using assms(2) by (auto simp: rm_try_acquire_def op_ok_def split: if_splits)
    with False fits show ?thesis by auto
  qed
qed

text \<open>
  \<open>try_acquire\<close> succeeds exactly when the name is valid and unused by clients and
  waiters, the size is positive and fits beside everything already reserved, compared
  without wrap-around; it then reserves exactly these bytes, and otherwise changes nothing.
\<close>

theorem try_acquire_exact:
  assumes "rm_reachable s" and "rm_try_acquire now name n s = (r, t)"
  shows "if rm_valid_name name \<and> n \<noteq> 0 \<and> \<not> has_name_locked name s \<and>
        unat n + rm_total s \<le> unat (rm_capacity s)
    then r = op_done n \<and> map_of (rm_reservations t) name = Some n \<and>
      (\<forall>k m. map_of (rm_reservations s) k = Some m \<longrightarrow> map_of (rm_reservations t) k = Some m)
    else \<not> op_ok r \<and> t = s"
  by (rule try_acquire_result [OF rm_reachable_inv [OF assms(1)] assms(2)])

theorem try_acquire_exact_witness:
  "fst (rm_try_acquire 5 ''owner'' 100 demo_start) = op_done 100 \<and>
   \<not> op_ok (fst (rm_try_acquire 6 ''other'' 1 demo_full))"
  using try_acquire_exact [OF demo_reachable(1), of 5 "''owner''" 100, OF surjective_pairing]
    try_acquire_exact [OF demo_reachable(2), of 6 "''other''" 1, OF surjective_pairing]
  by (simp add: demo_full_state demo_start_def rm_valid_name_def has_name_locked_def
      um_contains_def rm_total_def um_total_def)

lemma release_result:
  assumes "rm_inv s" and "rm_release now name s = (r, t)"
  shows "case map_of (rm_reservations s) name of
      None \<Rightarrow> \<not> op_ok r \<and> t = s
    | Some n \<Rightarrow> r = op_done n \<and> t = grant_waiters_locked now (drop_client name n s) \<and>
        rm_total (drop_client name n s) + unat n = rm_total s \<and>
        unat (rm_used (drop_client name n s)) = rm_total (drop_client name n s) \<and>
        (\<forall>k m. k \<noteq> name \<longrightarrow> map_of (rm_reservations s) k = Some m \<longrightarrow>
           map_of (rm_reservations t) k = Some m)"
proof (cases "map_of (rm_reservations s) name")
  case None
  with assms(2) show ?thesis by (auto simp: rm_release_def op_ok_def split: if_splits)
next
  case (Some n)
  have "rm_valid_name name"
    using assms(1) map_of_SomeD [OF Some] by (auto simp: rm_inv_defs)
  with assms(2) Some have t: "r = op_done n" "t = grant_waiters_locked now (drop_client name n s)"
    by (auto simp: rm_release_def drop_client_def)
  have "rm_total s = unat n + rm_total (drop_client name n s)"
    using um_total_erase [OF rm_inv_wf(1) [OF assms(1)] Some] by (simp add: rm_total_def drop_client_def)
  moreover have "unat (rm_used (drop_client name n s)) = rm_total (drop_client name n s)"
    by (rule rm.used_total [OF drop_client_inv [OF assms(1) Some]])
  moreover have "map_of (rm_reservations (drop_client name n s)) k = Some m"
    if "k \<noteq> name" "map_of (rm_reservations s) k = Some m" for k m
    using that by (simp add: drop_client_def map_of_um_erase)
  ultimately show ?thesis
    using Some t by (simp add: grant_waiters_keeps_reservation)
qed

text \<open>
  \<open>release\<close> gives back exactly what the name held: unknown names change nothing, and
  for a known one the result names the bytes, the memory in use drops by exactly these
  bytes before waiters are served, and no other reservation is lost.
\<close>

theorem release_exact:
  assumes "rm_reachable s" and "rm_release now name s = (r, t)"
  shows "case map_of (rm_reservations s) name of
      None \<Rightarrow> \<not> op_ok r \<and> t = s
    | Some n \<Rightarrow> r = op_done n \<and> t = grant_waiters_locked now (drop_client name n s) \<and>
        rm_total (drop_client name n s) + unat n = rm_total s \<and>
        unat (rm_used (drop_client name n s)) = rm_total (drop_client name n s) \<and>
        (\<forall>k m. k \<noteq> name \<longrightarrow> map_of (rm_reservations s) k = Some m \<longrightarrow>
           map_of (rm_reservations t) k = Some m)"
  by (rule release_result [OF rm_reachable_inv [OF assms(1)] assms(2)])

theorem release_exact_witness:
  "fst (rm_release 7 ''owner'' demo_full) = op_done 100 \<and>
   rm_total (drop_client ''owner'' 100 demo_full) + 100 = rm_total demo_full"
  using release_exact [OF demo_reachable(2), of 7 "''owner''", OF surjective_pairing]
  by (simp add: demo_full_state)

text \<open>
  C25: replacing model reservations is all or nothing. A refused replacement leaves the
  object untouched; an accepted one removes exactly the named evictions and adds exactly
  the new model, and its capacity check is exact although it is computed in wrapping
  64-bit arithmetic.
\<close>

theorem replace_is_atomic:
  assumes "rm_reachable s" and "rm_replace_model_reservations now es ident n s = (r, t)"
  shows "if op_ok r
    then map_of (rm_model_reservations t) =
        ((map_of (rm_model_reservations s)) |` (- set es))(ident \<mapsto> n) \<and>
      distinct es \<and> set es \<subseteq> um_keys (rm_model_reservations s) \<and>
      (\<forall>k m. map_of (rm_reservations s) k = Some m \<longrightarrow> map_of (rm_reservations t) k = Some m) \<and>
      unat n + rm_total (drop_evictions es s) \<le> unat (rm_capacity s)
    else t = s"
proof (cases "op_ok r")
  case True
  note ok = replace_success [OF assms(2) True]
  let ?d = "drop_evictions es s"
  have inv: "rm_inv ?d"
    using assms(1) by (intro drop_evictions_inv rm_reachable_inv)
  have "\<not> um_contains ident (rm_model_reservations ?d)"
    using ok(5) by (simp add: um_contains_def map_of_drop_evictions map_of_eq_None_iff
        restrict_map_def)
  then have "map_of (rm_model_reservations t) =
      ((map_of (rm_model_reservations s)) |` (- set es))(ident \<mapsto> n)"
    unfolding ok(8) by (simp add: add_model_def map_of_um_emplace map_of_drop_evictions)
  moreover have "unat n + rm_total ?d \<le> unat (rm_capacity s)"
    using ok(6) rm.fits_iff [OF inv, of n] by simp
  moreover have "map_of (rm_reservations s) k = Some m \<Longrightarrow>
      map_of (rm_reservations t) k = Some m" for k m
    unfolding ok(8) by (rule grant_waiters_keeps_reservation) (simp add: add_model_def)
  ultimately show ?thesis using True ok(1,2) by simp
next
  case False
  with replace_fail_unchanged [OF assms(2)] show ?thesis by simp
qed

theorem replace_is_atomic_witness:
  "op_ok (fst (rm_replace_model_reservations 3 [] ''bert'' 40 demo_start)) \<and>
   map_of (rm_model_reservations (snd (rm_replace_model_reservations 3 [] ''bert'' 40 demo_start)))
     = [''bert'' \<mapsto> 40] \<and>
   snd (rm_replace_model_reservations 3 [''gpt''] ''bert'' 40 demo_start) = demo_start"
proof -
  have ok: "op_ok (fst (rm_replace_model_reservations 3 [] ''bert'' 40 demo_start))"
    and bad: "\<not> op_ok (fst (rm_replace_model_reservations 3 [''gpt''] ''bert'' 40 demo_start))"
    by (simp_all add: rm_replace_model_reservations_def demo_start_def rm_valid_name_def
        um_contains_def op_ok_def)
  show ?thesis
    using ok bad
      replace_is_atomic [OF demo_reachable(1), of 3 "[]" "''bert''" 40,
        OF surjective_pairing]
      replace_is_atomic [OF demo_reachable(1), of 3 "[''gpt'']" "''bert''" 40,
        OF surjective_pairing]
    by (simp add: restrict_map_def) (simp add: demo_start_def)
qed

text \<open>
  The deadline arithmetic cannot overflow. For a positive timeout and a clock reading
  before the end of time the deadline lies strictly in the future and within the clock's
  range, and it is the requested instant or, where that is not representable or the
  timeout is unlimited, the value that never expires.
\<close>

theorem deadline_never_overflows:
  assumes "0 \<le> now" and "now < time_max" and "0 < timeout"
  shows "now < acquire_deadline now timeout \<and> acquire_deadline now timeout \<le> time_max \<and>
    (acquire_deadline now timeout = now + timeout * ns_per_ms \<or>
     (acquire_deadline now timeout = time_max \<and>
      (timeout = ms_max \<or> now + timeout * ns_per_ms > time_max)))"
proof -
  have "now + timeout * ns_per_ms > time_max" if "\<not> timeout \<le> (time_max - now) div ns_per_ms"
    using that unfolding ns_per_ms_def by linarith
  then show ?thesis
    using acquire_deadline_bounds [OF assms] by (auto simp: acquire_deadline_def Let_def)
qed

theorem deadline_never_overflows_witness:
  "acquire_deadline 1000 30 = 30001000 \<and> acquire_deadline (time_max - 5) 30 = time_max"
  using deadline_never_overflows [of 1000 30] deadline_never_overflows [of "time_max - 5" 30]
  by (auto simp: time_max_def ns_per_ms_def ms_max_def)

text \<open>
  A negative estimated cost is refused only when the request has to wait. With free
  memory the same call succeeds; the header's \<open>InvalidTimeout\<close> for it is reported on the
  queueing path alone.
\<close>

theorem negative_cost_check_depends_on_load:
  "fst (acquire_enter 5 ''a'' 10 (default_options\<lparr>ao_cost := - 1\<rparr>) demo_start) =
     Returned (op_done 10) \<and>
   fst (acquire_enter 5 ''a'' 10 (default_options\<lparr>ao_cost := - 1\<rparr>) demo_full) =
     Returned (op_fail error_code.InvalidTimeout)"
  by (simp add: acquire_enter_def demo_full_state demo_start_def rm_valid_name_def
      default_options_def ms_max_def has_name_locked_def um_contains_def)

end
