(* ===== verification/MemoryAllocator.thy ===== *)
theory MemoryAllocator
  imports Prelude
begin

text \<open>
  The memory allocator (memory_allocator.hpp, memory_allocator.cpp): offsets inside one
  region of fixed capacity, either handed out once and counted (\<open>Direct\<close>) or managed as a
  first-fit pool with block reuse and coalescing (\<open>Pool\<close>). Each public operation runs under
  the object's mutex and is one function on the record of its fields.
\<close>

section \<open>Data\<close>

datatype allocation_strategy = Direct | Pool

datatype allocator_error =
    NoError
  | InvalidId
  | InvalidSize
  | DuplicateAllocation
  | UnknownAllocation
  | OutOfMemory

record allocation_result =
  al_error :: allocator_error
  al_offset :: bytes
  al_bytes :: bytes

abbreviation al_fail :: "allocator_error \<Rightarrow> allocation_result" where
  "al_fail e \<equiv> \<lparr>al_error = e, al_offset = 0, al_bytes = 0\<rparr>"

definition al_ok :: "allocation_result \<Rightarrow> bool" where
  "al_ok r \<longleftrightarrow> al_error r = allocator_error.NoError"

record allocation_record =
  ar_id :: string
  ar_offset :: bytes
  ar_bytes :: bytes

record allocator_snapshot =
  as_capacity :: bytes
  as_used :: bytes
  as_free :: bytes
  as_allocations :: "allocation_record list"

record free_block =
  fb_offset :: bytes
  fb_bytes :: bytes

record memory_allocator =
  ma_capacity :: bytes
  ma_strategy :: allocation_strategy
  ma_used :: bytes
  ma_direct_next_offset :: bytes
  ma_free_blocks :: "free_block list"
  ma_allocations :: "allocation_record list"

text \<open>The constructor throws \<open>std::invalid_argument\<close> (here \<open>None\<close>) on a zero capacity.\<close>

definition ma_new :: "bytes \<Rightarrow> allocation_strategy \<Rightarrow> memory_allocator option" where
  "ma_new capacity strategy =
     (if capacity = 0 then None
      else Some \<lparr>ma_capacity = capacity, ma_strategy = strategy, ma_used = 0,
        ma_direct_next_offset = 0,
        ma_free_blocks = [\<lparr>fb_offset = 0, fb_bytes = capacity\<rparr>], ma_allocations = []\<rparr>)"

definition ma_valid_id :: "string \<Rightarrow> bool" where
  "ma_valid_id ident \<longleftrightarrow>
     (if ident = [] \<or> length ident > 64 then False
      else list_all (\<lambda>c.
        (CHR ''a'' \<le> c \<and> c \<le> CHR ''z'') \<or> (CHR ''A'' \<le> c \<and> c \<le> CHR ''Z'') \<or>
        (CHR ''0'' \<le> c \<and> c \<le> CHR ''9'') \<or> c = CHR ''_'' \<or> c = CHR ''-'' \<or>
        c = CHR ''.'') ident)"

section \<open>Operations\<close>

text \<open>
  \<open>find_if\<close> on the free list and the carving of the block found: the offset handed out and
  the list left, the block erased when nothing of it remains.
\<close>

fun carve_first_fit :: "bytes \<Rightarrow> free_block list \<Rightarrow> (bytes \<times> free_block list) option" where
  "carve_first_fit n [] = None"
| "carve_first_fit n (b # bs) =
     (if fb_bytes b \<ge> n then
        (let b' = b\<lparr>fb_offset := fb_offset b + n, fb_bytes := fb_bytes b - n\<rparr>
         in Some (fb_offset b, if fb_bytes b' = 0 then bs else b' # bs))
      else map_option (\<lambda>(off, bs'). (off, b # bs')) (carve_first_fit n bs))"

definition ma_record ::
  "string \<Rightarrow> bytes \<Rightarrow> bytes \<Rightarrow> memory_allocator \<Rightarrow> allocation_result \<times> memory_allocator" where
  "ma_record ident off n s =
     (\<lparr>al_error = allocator_error.NoError, al_offset = off, al_bytes = n\<rparr>,
      s\<lparr>ma_allocations := ma_allocations s @ [\<lparr>ar_id = ident, ar_offset = off, ar_bytes = n\<rparr>],
        ma_used := ma_used s + n\<rparr>)"

definition ma_allocate ::
  "string \<Rightarrow> bytes \<Rightarrow> memory_allocator \<Rightarrow> allocation_result \<times> memory_allocator" where
  "ma_allocate ident n s =
     (if \<not> ma_valid_id ident then (al_fail allocator_error.InvalidId, s)
      else if n = 0 then (al_fail allocator_error.InvalidSize, s)
      else if list_ex (\<lambda>a. ar_id a = ident) (ma_allocations s)
        then (al_fail allocator_error.DuplicateAllocation, s)
      else case ma_strategy s of
        Direct \<Rightarrow>
          (if n > ma_capacity s - ma_used s then (al_fail allocator_error.OutOfMemory, s)
           else ma_record ident (ma_direct_next_offset s) n
             (s\<lparr>ma_direct_next_offset := ma_direct_next_offset s + n\<rparr>))
      | Pool \<Rightarrow>
          (case carve_first_fit n (ma_free_blocks s) of
             None \<Rightarrow> (al_fail allocator_error.OutOfMemory, s)
           | Some (off, bs) \<Rightarrow> ma_record ident off n (s\<lparr>ma_free_blocks := bs\<rparr>)))"

text \<open>The loop of \<open>coalesce_locked\<close>; \<open>merged.back()\<close> is \<open>last\<close>.\<close>

fun coalesce_loop :: "free_block list \<Rightarrow> free_block list \<Rightarrow> free_block list" where
  "coalesce_loop merged [] = merged"
| "coalesce_loop merged (b # bs) =
     (if merged \<noteq> [] \<and> fb_offset (last merged) + fb_bytes (last merged) = fb_offset b
      then coalesce_loop
        (butlast merged @ [(last merged)\<lparr>fb_bytes := fb_bytes (last merged) + fb_bytes b\<rparr>]) bs
      else coalesce_loop (merged @ [b]) bs)"

definition coalesce_locked :: "memory_allocator \<Rightarrow> memory_allocator" where
  "coalesce_locked s =
     s\<lparr>ma_free_blocks := coalesce_loop [] (sort_key fb_offset (ma_free_blocks s))\<rparr>"

fun erase_first :: "('a \<Rightarrow> bool) \<Rightarrow> 'a list \<Rightarrow> 'a list" where
  "erase_first P [] = []"
| "erase_first P (x # xs) = (if P x then xs else x # erase_first P xs)"

definition ma_release ::
  "string \<Rightarrow> memory_allocator \<Rightarrow> allocation_result \<times> memory_allocator" where
  "ma_release ident s =
     (case find (\<lambda>a. ar_id a = ident) (ma_allocations s) of
        None \<Rightarrow> (al_fail allocator_error.UnknownAllocation, s)
      | Some a \<Rightarrow>
          (let s1 = (if ma_strategy s = Pool
             then coalesce_locked (s\<lparr>ma_free_blocks := ma_free_blocks s @
               [\<lparr>fb_offset = ar_offset a, fb_bytes = ar_bytes a\<rparr>]\<rparr>)
             else s)
           in (\<lparr>al_error = allocator_error.NoError, al_offset = ar_offset a, al_bytes = ar_bytes a\<rparr>,
               s1\<lparr>ma_used := ma_used s1 - ar_bytes a,
                  ma_allocations := erase_first (\<lambda>a. ar_id a = ident) (ma_allocations s1)\<rparr>)))"

definition ma_snapshot :: "memory_allocator \<Rightarrow> allocator_snapshot" where
  "ma_snapshot s =
     \<lparr>as_capacity = ma_capacity s, as_used = ma_used s,
      as_free = ma_capacity s - ma_used s,
      as_allocations = sort_key ar_id (ma_allocations s)\<rparr>"

section \<open>Regions\<close>

text \<open>
  Addresses are natural numbers. A free block or an allocation covers the addresses from
  its offset up to, not including, its end.
\<close>

definition fb_lo :: "free_block \<Rightarrow> nat" where "fb_lo b = unat (fb_offset b)"
definition fb_hi :: "free_block \<Rightarrow> nat" where "fb_hi b = unat (fb_offset b) + unat (fb_bytes b)"
definition ar_lo :: "allocation_record \<Rightarrow> nat" where "ar_lo a = unat (ar_offset a)"
definition ar_hi :: "allocation_record \<Rightarrow> nat" where "ar_hi a = unat (ar_offset a) + unat (ar_bytes a)"

definition fb_covers :: "nat \<Rightarrow> free_block \<Rightarrow> bool" where
  "fb_covers x b \<longleftrightarrow> fb_lo b \<le> x \<and> x < fb_hi b"

definition ar_covers :: "nat \<Rightarrow> allocation_record \<Rightarrow> bool" where
  "ar_covers x a \<longleftrightarrow> ar_lo a \<le> x \<and> x < ar_hi a"

definition free_count :: "free_block list \<Rightarrow> nat \<Rightarrow> nat" where
  "free_count bs x = length (filter (fb_covers x) bs)"

definition alloc_count :: "allocation_record list \<Rightarrow> nat \<Rightarrow> nat" where
  "alloc_count as x = length (filter (ar_covers x) as)"

definition ma_total :: "memory_allocator \<Rightarrow> nat" where
  "ma_total s = (\<Sum>a \<leftarrow> ma_allocations s. unat (ar_bytes a))"

definition free_total :: "free_block list \<Rightarrow> nat" where
  "free_total bs = (\<Sum>b \<leftarrow> bs. unat (fb_bytes b))"

text \<open>Free blocks in address order, with a gap between any two: nothing left to coalesce.\<close>

definition separated :: "free_block list \<Rightarrow> bool" where
  "separated bs \<longleftrightarrow> sorted_wrt (\<lambda>a b. fb_hi a < fb_lo b) bs"

definition blocks_within :: "nat \<Rightarrow> free_block list \<Rightarrow> bool" where
  "blocks_within c bs \<longleftrightarrow> (\<forall>b \<in> set bs. fb_bytes b \<noteq> 0 \<and> fb_hi b \<le> c)"

text \<open>The bookkeeping both strategies share.\<close>

definition ma_books :: "memory_allocator \<Rightarrow> bool" where
  "ma_books s \<longleftrightarrow>
     distinct (map ar_id (ma_allocations s)) \<and>
     (\<forall>a \<in> set (ma_allocations s). ma_valid_id (ar_id a) \<and> ar_bytes a \<noteq> 0) \<and>
     unat (ma_used s) = ma_total s \<and> ma_used s \<le> ma_capacity s"

text \<open>
  The pool's invariant: free blocks and allocations tile the region, each address below
  the capacity in exactly one of them, and the free list is coalesced.
\<close>

definition ma_tiles :: "memory_allocator \<Rightarrow> bool" where
  "ma_tiles s \<longleftrightarrow>
     (\<forall>x. free_count (ma_free_blocks s) x + alloc_count (ma_allocations s) x
        = (if x < unat (ma_capacity s) then 1 else 0)) \<and>
     free_total (ma_free_blocks s) + ma_total s = unat (ma_capacity s) \<and>
     blocks_within (unat (ma_capacity s)) (ma_free_blocks s) \<and>
     (\<forall>a \<in> set (ma_allocations s). ar_hi a \<le> unat (ma_capacity s)) \<and>
     separated (ma_free_blocks s)"

definition ma_inv :: "memory_allocator \<Rightarrow> bool" where
  "ma_inv s \<longleftrightarrow> ma_books s \<and> (ma_strategy s = Pool \<longrightarrow> ma_tiles s)"

lemmas ma_inv_defs = ma_inv_def ma_books_def ma_tiles_def

interpretation ma: ledger ma_inv ma_capacity ma_used ma_total
  by unfold_locales (simp_all add: ma_inv_def ma_books_def)

lemma ma_inv_new: "ma_new capacity strategy = Some s \<Longrightarrow> ma_inv s"
  by (auto simp: ma_new_def ma_inv_defs ma_total_def free_count_def alloc_count_def
      fb_covers_def fb_lo_def fb_hi_def free_total_def blocks_within_def separated_def
      split: if_splits)

section \<open>First fit\<close>

lemma carve_none: "carve_first_fit n bs = None \<longleftrightarrow> (\<forall>b \<in> set bs. fb_bytes b < n)"
  by (induction bs) (auto simp: not_le)

text \<open>
  A carved list: one block large enough was shrunk from its start by exactly the bytes
  handed out, or removed when they used it up.
\<close>

lemma carve_some:
  assumes "carve_first_fit n bs = Some (off, bs')" and "n \<noteq> 0"
  obtains ps b qs where "bs = ps @ b # qs" "off = fb_offset b" "n \<le> fb_bytes b"
    "bs' = ps @ (if fb_bytes b = n then []
      else [b\<lparr>fb_offset := fb_offset b + n, fb_bytes := fb_bytes b - n\<rparr>]) @ qs"
proof -
  have "\<exists>ps b qs. bs = ps @ b # qs \<and> off = fb_offset b \<and> n \<le> fb_bytes b \<and>
    bs' = ps @ (if fb_bytes b = n then []
      else [b\<lparr>fb_offset := fb_offset b + n, fb_bytes := fb_bytes b - n\<rparr>]) @ qs"
    using assms(1)
  proof (induction bs arbitrary: bs')
    case (Cons b bs)
    show ?case
    proof (cases "n \<le> fb_bytes b")
      case True
      with Cons.prems show ?thesis
        by (intro exI [of _ "[]"] exI [of _ b] exI [of _ bs]) (auto simp: Let_def split: if_splits)
    next
      case False
      with Cons.prems obtain bs'' where "carve_first_fit n bs = Some (off, bs'')" "bs' = b # bs''"
        by auto
      with Cons.IH show ?thesis by (metis append_Cons)
    qed
  qed simp
  with that show thesis by blast
qed

end
