(* ===== verification/AllocatorPool.thy ===== *)
theory AllocatorPool
  imports MemoryAllocator
begin

text \<open>
  The pool: carving, coalescing and the canonical form of the free list. A coalesced free
  list is determined by the set of free addresses, which is what makes releasing an
  allocation undo it exactly and first fit complete.
\<close>

section \<open>Counting\<close>

lemma free_count_simps [simp]:
  "free_count [] x = 0"
  "free_count (b # bs) x = (if fb_covers x b then 1 else 0) + free_count bs x"
  "free_count (bs @ cs) x = free_count bs x + free_count cs x"
  by (simp_all add: free_count_def)

lemma alloc_count_simps [simp]:
  "alloc_count [] x = 0"
  "alloc_count (a # as) x = (if ar_covers x a then 1 else 0) + alloc_count as x"
  "alloc_count (as @ cs) x = alloc_count as x + alloc_count cs x"
  by (simp_all add: alloc_count_def)

lemma free_total_simps [simp]:
  "free_total [] = 0"
  "free_total (b # bs) = unat (fb_bytes b) + free_total bs"
  "free_total (bs @ cs) = free_total bs + free_total cs"
  by (simp_all add: free_total_def)

lemma free_count_pos: "0 < free_count bs x \<longleftrightarrow> (\<exists>b \<in> set bs. fb_covers x b)"
  by (induction bs) auto

lemma alloc_count_pos: "0 < alloc_count as x \<longleftrightarrow> (\<exists>a \<in> set as. ar_covers x a)"
  by (induction as) auto

lemma free_count_sort [simp]: "free_count (sort_key f bs) x = free_count bs x"
  unfolding free_count_def by (metis filter_sort length_sort)

lemma free_total_sort [simp]: "free_total (sort_key f bs) = free_total bs"
proof -
  have "mset (map (\<lambda>b. unat (fb_bytes b)) (sort_key f bs)) = mset (map (\<lambda>b. unat (fb_bytes b)) bs)"
    by simp
  then show ?thesis unfolding free_total_def by (metis sum_mset_sum_list)
qed

lemma fb_lo_covered: "fb_bytes b \<noteq> 0 \<Longrightarrow> fb_covers (fb_lo b) b"
  by (simp add: fb_covers_def fb_lo_def fb_hi_def unat_pos_iff)

lemma fb_lo_less_hi: "fb_bytes b \<noteq> 0 \<Longrightarrow> fb_lo b < fb_hi b"
  by (simp add: fb_lo_def fb_hi_def unat_pos_iff)

lemma blocks_within_simps [simp]:
  "blocks_within c []"
  "blocks_within c (b # bs) \<longleftrightarrow> fb_bytes b \<noteq> 0 \<and> fb_hi b \<le> c \<and> blocks_within c bs"
  "blocks_within c (bs @ cs) \<longleftrightarrow> blocks_within c bs \<and> blocks_within c cs"
  by (auto simp: blocks_within_def)

lemma separated_simps:
  "separated []"
  "separated (b # bs) \<longleftrightarrow> (\<forall>d \<in> set bs. fb_hi b < fb_lo d) \<and> separated bs"
  "separated (bs @ cs) \<longleftrightarrow> separated bs \<and> separated cs \<and>
     (\<forall>b \<in> set bs. \<forall>d \<in> set cs. fb_hi b < fb_lo d)"
  by (auto simp: separated_def sorted_wrt_append)

section \<open>Carving\<close>

definition shrink :: "bytes \<Rightarrow> free_block \<Rightarrow> free_block list" where
  "shrink n b = (if fb_bytes b = n then []
     else [b\<lparr>fb_offset := fb_offset b + n, fb_bytes := fb_bytes b - n\<rparr>])"

lemma shrink_bounds:
  assumes "n \<le> fb_bytes b" and "fb_hi b < 2 ^ 64" and "d \<in> set (shrink n b)"
  shows "fb_lo d = fb_lo b + unat n" and "fb_hi d = fb_hi b" and "fb_bytes d \<noteq> 0"
proof -
  have d: "d = b\<lparr>fb_offset := fb_offset b + n, fb_bytes := fb_bytes b - n\<rparr>"
    and ne: "fb_bytes b \<noteq> n"
    using assms(3) by (auto simp: shrink_def split: if_splits)
  have le: "unat n \<le> unat (fb_bytes b)" using assms(1) by (simp add: word_le_nat_alt)
  have "unat (fb_offset b) + unat n < 2 ^ LENGTH(64)"
    using le assms(2) by (simp add: fb_hi_def)
  then show "fb_lo d = fb_lo b + unat n"
    unfolding fb_lo_def d by (simp add: unat_add_lem [THEN iffD1])
  then show "fb_hi d = fb_hi b"
    using le by (simp add: fb_hi_def fb_lo_def d unat_discharge)
  show "fb_bytes d \<noteq> 0" using ne by (simp add: d)
qed

lemma shrink_count:
  assumes "n \<le> fb_bytes b" and "fb_hi b < 2 ^ 64"
  shows "free_count (shrink n b) x + (if fb_lo b \<le> x \<and> x < fb_lo b + unat n then 1 else 0)
    = free_count [b] x"
proof (cases "fb_bytes b = n")
  case True
  then show ?thesis by (auto simp: shrink_def fb_covers_def fb_hi_def fb_lo_def)
next
  case False
  then obtain d where d: "shrink n b = [d]" by (simp add: shrink_def)
  have "unat n \<le> unat (fb_bytes b)" using assms(1) by (simp add: word_le_nat_alt)
  with shrink_bounds [OF assms, of d] d show ?thesis
    by (auto simp: fb_covers_def fb_hi_def fb_lo_def)
qed

lemma shrink_total:
  "n \<le> fb_bytes b \<Longrightarrow> free_total (shrink n b) + unat n = unat (fb_bytes b)"
  by (simp add: shrink_def unat_discharge word_le_nat_alt)

lemma carve_pool:
  assumes carve: "carve_first_fit n bs = Some (off, bs')" and n: "n \<noteq> 0"
    and within: "blocks_within c bs" and c: "c < 2 ^ 64" and sep: "separated bs"
  shows "free_count bs x = free_count bs' x +
      (if unat off \<le> x \<and> x < unat off + unat n then 1 else 0)"
    and "free_total bs = free_total bs' + unat n"
    and "blocks_within c bs'" and "separated bs'" and "unat off + unat n \<le> c"
proof -
  from carve_some [OF carve n] obtain ps b qs where bs: "bs = ps @ b # qs"
    and off: "off = fb_offset b" and le: "n \<le> fb_bytes b" and bs': "bs' = ps @ shrink n b @ qs"
    unfolding shrink_def by metis
  have hi: "fb_hi b < 2 ^ 64" using within c by (simp add: bs)
  note bounds = shrink_bounds [OF le hi]
  show "free_count bs x = free_count bs' x +
      (if unat off \<le> x \<and> x < unat off + unat n then 1 else 0)"
    using shrink_count [OF le hi, of x] by (simp add: bs bs' off fb_lo_def)
  show "free_total bs = free_total bs' + unat n"
    using shrink_total [OF le] by (simp add: bs bs')
  show "blocks_within c bs'"
    using within bounds by (auto simp: bs bs' blocks_within_def)
  have "separated (shrink n b)" by (simp add: shrink_def separated_simps)
  then show "separated bs'"
    using sep by (auto simp: bs bs' separated_simps bounds intro: trans_less_add1)
  show "unat off + unat n \<le> c"
    using within le by (simp add: bs off fb_hi_def word_le_nat_alt)
qed

section \<open>Coalescing\<close>

definition touching_order :: "free_block list \<Rightarrow> bool" where
  "touching_order bs \<longleftrightarrow> sorted_wrt (\<lambda>a b. fb_hi a \<le> fb_lo b) bs"

lemma sorted_disjoint_touching:
  assumes "sorted (map fb_offset bs)" and "\<forall>x. free_count bs x \<le> 1"
    and "\<forall>b \<in> set bs. fb_bytes b \<noteq> 0"
  shows "touching_order bs"
  using assms
proof (induction bs)
  case (Cons b bs)
  have "fb_hi b \<le> fb_lo d" if d: "d \<in> set bs" for d
  proof (rule ccontr)
    assume "\<not> fb_hi b \<le> fb_lo d"
    moreover have "fb_lo b \<le> fb_lo d"
      using Cons.prems(1) d by (simp add: fb_lo_def word_le_nat_alt)
    ultimately have "fb_covers (fb_lo d) b" by (simp add: fb_covers_def)
    moreover have "0 < free_count bs (fb_lo d)"
      using d Cons.prems(3) fb_lo_covered by (auto simp: free_count_pos)
    ultimately have "1 < free_count (b # bs) (fb_lo d)" by simp
    with Cons.prems(2) show False by (metis not_le)
  qed
  moreover have "\<forall>x. free_count bs x \<le> 1"
    using Cons.prems(2) by (metis add_leD2 free_count_simps(2))
  ultimately show ?case
    using Cons by (simp add: touching_order_def)
qed (simp add: touching_order_def)

text \<open>The word comparison of two touching blocks is exact, and so is the merged size.\<close>

lemma touching_iff:
  assumes "fb_hi a < 2 ^ 64"
  shows "fb_offset a + fb_bytes a = fb_offset b \<longleftrightarrow> fb_hi a = fb_lo b"
proof -
  have "unat (fb_offset a + fb_bytes a) = fb_hi a"
    using assms unat_add_lem [of "fb_offset a" "fb_bytes a"] by (simp add: fb_hi_def)
  then show ?thesis by (metis fb_lo_def word_unat_eq_iff)
qed

lemma merged_block:
  assumes "fb_hi a = fb_lo b" and "fb_hi b < 2 ^ 64"
  defines "m \<equiv> a\<lparr>fb_bytes := fb_bytes a + fb_bytes b\<rparr>"
  shows "fb_lo m = fb_lo a" and "fb_hi m = fb_hi b"
    and "unat (fb_bytes m) = unat (fb_bytes a) + unat (fb_bytes b)"
proof -
  have "unat (fb_bytes a) + unat (fb_bytes b) < 2 ^ LENGTH(64)"
    using assms(1,2) by (simp add: fb_hi_def fb_lo_def)
  then show b: "unat (fb_bytes m) = unat (fb_bytes a) + unat (fb_bytes b)"
    by (simp add: m_def unat_add_lem [THEN iffD1])
  show "fb_lo m = fb_lo a" by (simp add: m_def fb_lo_def)
  then show "fb_hi m = fb_hi b"
    using b assms(1) by (simp add: fb_hi_def fb_lo_def)
qed

lemma coalesce_loop_spec:
  assumes "separated merged" and "touching_order bs" and "blocks_within c (merged @ bs)"
    and "\<forall>a \<in> set merged. \<forall>b \<in> set bs. fb_hi a \<le> fb_lo b" and c: "c < 2 ^ 64"
  shows "separated (coalesce_loop merged bs) \<and> blocks_within c (coalesce_loop merged bs) \<and>
    (\<forall>x. free_count (coalesce_loop merged bs) x = free_count (merged @ bs) x) \<and>
    free_total (coalesce_loop merged bs) = free_total (merged @ bs)"
  using assms(1-4)
proof (induction merged bs rule: coalesce_loop.induct)
  case (2 merged b bs)
  have hb: "fb_hi b < 2 ^ 64" using "2.prems"(3) c by simp
  have tail: "touching_order bs" "\<forall>d \<in> set bs. fb_hi b \<le> fb_lo d"
    using "2.prems"(2) by (simp_all add: touching_order_def)
  show ?case
  proof (cases "merged \<noteq> [] \<and> fb_offset (last merged) + fb_bytes (last merged) = fb_offset b")
    case True
    then obtain ms a where m: "merged = ms @ [a]" by (metis rev_exhaust)
    let ?m = "a\<lparr>fb_bytes := fb_bytes a + fb_bytes b\<rparr>"
    have ha: "fb_hi a < 2 ^ 64" using "2.prems"(3) c by (simp add: m)
    have touch: "fb_hi a = fb_lo b" using True touching_iff [OF ha] by (simp add: m)
    note mb = merged_block [OF touch hb]
    have lt: "fb_lo a < fb_hi a" "fb_lo b < fb_hi b"
      using "2.prems"(3) by (simp_all add: m fb_lo_less_hi)
    have "fb_bytes ?m \<noteq> 0"
      using mb(3) "2.prems"(3) by (metis add_is_0 m blocks_within_simps(2,3) unat_eq_0 append_Cons)
    then have "separated (ms @ [?m])" "blocks_within c ((ms @ [?m]) @ bs)"
      "\<forall>a \<in> set (ms @ [?m]). \<forall>b \<in> set bs. fb_hi a \<le> fb_lo b"
      using "2.prems" mb tail(2) by (auto simp: m separated_simps)
    note IH = "2.IH"(1) [OF True, unfolded m, simplified, OF this(1) tail(1) this(2,3)[simplified]]
    have "(if fb_covers x ?m then 1 else 0 :: nat) =
        (if fb_covers x a then 1 else 0) + (if fb_covers x b then 1 else 0)" for x
      using mb(1,2) touch lt by (auto simp: fb_covers_def)
    with IH True mb(3) show ?thesis by (simp add: m)
  next
    case False
    have "fb_hi a < fb_lo b" if a: "a \<in> set merged" for a
    proof -
      obtain ms l where m: "merged = ms @ [l]" using a by (metis empty_iff empty_set rev_exhaust)
      have hl: "fb_hi l < 2 ^ 64" using "2.prems"(3) c by (simp add: m)
      have "fb_hi l \<noteq> fb_lo b" using False touching_iff [OF hl] by (simp add: m)
      moreover have "fb_hi l \<le> fb_lo b" using "2.prems"(4) by (simp add: m)
      ultimately have l: "fb_hi l < fb_lo b" by simp
      have "fb_lo l < fb_hi l" using "2.prems"(3) by (simp add: m fb_lo_less_hi)
      with l a "2.prems"(1) show ?thesis by (auto simp: m separated_simps)
    qed
    then have "separated (merged @ [b])" using "2.prems"(1) by (simp add: separated_simps)
    moreover have "blocks_within c ((merged @ [b]) @ bs)" using "2.prems"(3) by simp
    moreover have "\<forall>a \<in> set (merged @ [b]). \<forall>d \<in> set bs. fb_hi a \<le> fb_lo d"
      using "2.prems"(4) tail(2) by auto
    ultimately have IH: "separated (coalesce_loop (merged @ [b]) bs) \<and>
        blocks_within c (coalesce_loop (merged @ [b]) bs) \<and>
        (\<forall>x. free_count (coalesce_loop (merged @ [b]) bs) x = free_count ((merged @ [b]) @ bs) x) \<and>
        free_total (coalesce_loop (merged @ [b]) bs) = free_total ((merged @ [b]) @ bs)"
      using "2.IH"(2) [OF False] tail(1) by blast
    moreover have "coalesce_loop merged (b # bs) = coalesce_loop (merged @ [b]) bs"
      using False by auto
    ultimately show ?thesis by (simp del: coalesce_loop.simps)
  qed
qed simp

section \<open>The canonical form of a free list\<close>

lemma separated_head_least:
  assumes "separated (b # bs)" and "blocks_within c (b # bs)" and "d \<in> set (b # bs)"
  shows "fb_lo b \<le> fb_lo d"
  using assms fb_lo_less_hi [of b] by (auto simp: separated_simps dest: bspec)

lemma separated_count_beyond_head:
  assumes "separated (b # bs)" and "x \<le> fb_hi b"
  shows "free_count bs x = 0"
proof -
  have "\<not> fb_covers x d" if "d \<in> set bs" for d
    using assms that by (force simp: separated_simps fb_covers_def)
  then show ?thesis using free_count_pos [of bs x] by auto
qed

lemma separated_same_head:
  assumes "separated (b # bs)" "blocks_within c (b # bs)"
    and "separated (d # ds)" "blocks_within c (d # ds)"
    and count: "\<forall>x. free_count (b # bs) x = free_count (d # ds) x"
  shows "fb_lo b \<le> fb_lo d" and "fb_hi d \<le> fb_hi b"
proof -
  have "0 < free_count (d # ds) (fb_lo d)"
    using assms(4) fb_lo_covered by simp
  then have "0 < free_count (b # bs) (fb_lo d)"
    by (simp only: count [rule_format, of "fb_lo d"])
  then obtain e where "e \<in> set (b # bs)" "fb_covers (fb_lo d) e"
    unfolding free_count_pos by blast
  moreover from separated_head_least [OF assms(1,2) this(1)] have "fb_lo b \<le> fb_lo e" .
  ultimately show lo: "fb_lo b \<le> fb_lo d" by (simp add: fb_covers_def)
  show "fb_hi d \<le> fb_hi b"
  proof (rule ccontr)
    assume "\<not> fb_hi d \<le> fb_hi b"
    moreover have "fb_lo d \<le> fb_hi b"
    proof (rule ccontr)
      assume gap: "\<not> fb_lo d \<le> fb_hi b"
      have "0 < free_count (b # bs) (fb_lo b)" using assms(2) fb_lo_covered by simp
      then have "0 < free_count (d # ds) (fb_lo b)"
        by (simp only: count [rule_format, of "fb_lo b"])
      then obtain e where "e \<in> set (d # ds)" "fb_covers (fb_lo b) e"
        unfolding free_count_pos by blast
      with separated_head_least [OF assms(3,4) this(1)] gap fb_lo_less_hi [of b] assms(2)
      show False by (simp add: fb_covers_def)
    qed
    ultimately have "0 < free_count (d # ds) (fb_hi b)" by (simp add: fb_covers_def)
    moreover have "free_count (b # bs) (fb_hi b) = 0"
      using separated_count_beyond_head [OF assms(1), of "fb_hi b"] by (simp add: fb_covers_def)
    ultimately show False by (simp only: count [rule_format, of "fb_hi b"])
  qed
qed

lemma free_list_canonical:
  assumes "separated bs" "blocks_within c bs" and "separated ds" "blocks_within c ds"
    and "\<forall>x. free_count bs x = free_count ds x"
  shows "bs = ds"
  using assms
proof (induction bs arbitrary: ds)
  case Nil
  have False if "d \<in> set ds" for d
    using that Nil.prems(4,5) fb_lo_covered [of d] free_count_pos [of ds "fb_lo d"]
    by (auto simp: blocks_within_def)
  then show ?case by (cases ds) auto
next
  case (Cons b bs)
  have "0 < free_count (b # bs) (fb_lo b)" using Cons.prems(2) fb_lo_covered by simp
  with Cons.prems(5) obtain d ds' where ds: "ds = d # ds'" by (cases ds) auto
  note count = Cons.prems(5) [unfolded ds]
  have "fb_lo b = fb_lo d" "fb_hi b = fb_hi d"
    using separated_same_head [OF Cons.prems(1-4) [unfolded ds] count]
      separated_same_head [OF Cons.prems(3,4) [unfolded ds] Cons.prems(1,2)] count
    by (auto intro: antisym)
  then have bd: "b = d" by (cases b, cases d) (auto simp: fb_lo_def fb_hi_def word_unat_eq_iff)
  have "bs = ds'"
    using Cons.prems count by (intro Cons.IH) (auto simp: ds bd separated_simps)
  with bd ds show ?case by simp
qed

section \<open>Every operation keeps the invariant\<close>

lemma ma_inv_lt: "unat (ma_capacity s) < 2 ^ 64"
  by (rule unat_bytes_less)

lemma ma_record_books:
  assumes inv: "ma_books s" and "ma_valid_id ident" "n \<noteq> 0"
    and fresh: "\<not> list_ex (\<lambda>a. ar_id a = ident) (ma_allocations s)"
    and fits: "unat n + ma_total s \<le> unat (ma_capacity s)"
  shows "ma_books (snd (ma_record ident off n s))"
proof -
  have "unat (ma_used s + n) = ma_total s + unat n"
    using inv unat_charge [of n "ma_used s" "ma_capacity s"] fits by (simp add: ma_books_def)
  with assms show ?thesis
    by (auto simp: ma_books_def ma_record_def ma_total_def list_ex_iff word_le_nat_alt)
qed

lemma ma_record_total: "ma_total (snd (ma_record ident off n s)) = ma_total s + unat n"
  by (simp add: ma_record_def ma_total_def)

lemma allocate_cases:
  assumes "ma_allocate ident n s = (r, t)" and "al_ok r"
  shows "ma_valid_id ident" and "n \<noteq> 0"
    and "\<not> list_ex (\<lambda>a. ar_id a = ident) (ma_allocations s)"
    and "(ma_strategy s = Direct \<and> n \<le> ma_capacity s - ma_used s \<and>
        (r, t) = ma_record ident (ma_direct_next_offset s) n
          (s\<lparr>ma_direct_next_offset := ma_direct_next_offset s + n\<rparr>)) \<or>
      (ma_strategy s = Pool \<and> (\<exists>off bs. carve_first_fit n (ma_free_blocks s) = Some (off, bs) \<and>
        (r, t) = ma_record ident off n (s\<lparr>ma_free_blocks := bs\<rparr>)))"
  using assms
  by (auto simp: ma_allocate_def al_ok_def not_less
      split: if_splits allocation_strategy.splits option.splits)

lemma allocate_fail: "ma_allocate ident n s = (r, t) \<Longrightarrow> \<not> al_ok r \<Longrightarrow> t = s"
  by (auto simp: ma_allocate_def al_ok_def ma_record_def
      split: if_splits allocation_strategy.splits option.splits)

lemma pool_fits:
  assumes "ma_inv s" and "ma_strategy s = Pool"
    and "carve_first_fit n (ma_free_blocks s) = Some (off, bs)" and "n \<noteq> 0"
  shows "unat n + ma_total s \<le> unat (ma_capacity s)"
  using carve_pool(2) [OF assms(3,4) _ ma_inv_lt [of s]] assms(1,2)
  by (auto simp: ma_inv_def ma_tiles_def)

lemma pool_allocate_tiles:
  assumes inv: "ma_inv s" and pool: "ma_strategy s = Pool"
    and carve: "carve_first_fit n (ma_free_blocks s) = Some (off, bs)" and n: "n \<noteq> 0"
  shows "ma_tiles (snd (ma_record ident off n (s\<lparr>ma_free_blocks := bs\<rparr>)))"
proof -
  have tiles: "ma_tiles s" using inv pool by (simp add: ma_inv_def)
  then have within: "blocks_within (unat (ma_capacity s)) (ma_free_blocks s)"
    and sep: "separated (ma_free_blocks s)" by (simp_all add: ma_tiles_def)
  note c = carve_pool [OF carve n within ma_inv_lt sep]
  have "free_count bs x + alloc_count (ma_allocations s @
        [\<lparr>ar_id = ident, ar_offset = off, ar_bytes = n\<rparr>]) x =
      free_count (ma_free_blocks s) x + alloc_count (ma_allocations s) x" for x
    using c(1) [of x] by (auto simp: ar_covers_def ar_lo_def ar_hi_def)
  with tiles c(2-5) show ?thesis
    by (auto simp: ma_tiles_def ma_record_def ma_total_def ar_hi_def)
qed

lemma allocate_inv:
  assumes inv: "ma_inv s"
  shows "ma_inv (snd (ma_allocate ident n s))"
proof (cases "ma_allocate ident n s")
  case (Pair r t)
  show ?thesis
  proof (cases "al_ok r")
    case True
    note c = allocate_cases [OF Pair True]
    from c(4) show ?thesis
    proof (elim disjE conjE exE)
      assume direct: "ma_strategy s = Direct" and fits: "n \<le> ma_capacity s - ma_used s"
        and rt: "(r, t) = ma_record ident (ma_direct_next_offset s) n
          (s\<lparr>ma_direct_next_offset := ma_direct_next_offset s + n\<rparr>)"
      have "ma_books (snd (ma_record ident (ma_direct_next_offset s) n
          (s\<lparr>ma_direct_next_offset := ma_direct_next_offset s + n\<rparr>)))"
        using inv c(1-3) fits ma.fits_iff [OF inv, of n]
        by (intro ma_record_books) (simp_all add: ma_inv_def ma_books_def ma_total_def)
      then have "ma_books t" by (simp flip: rt)
      moreover have "ma_strategy t = Direct"
        using rt direct by (simp add: ma_record_def)
      ultimately show ?thesis by (simp add: Pair ma_inv_def)
    next
      fix off bs
      assume pool: "ma_strategy s = Pool"
        and carve: "carve_first_fit n (ma_free_blocks s) = Some (off, bs)"
        and rt: "(r, t) = ma_record ident off n (s\<lparr>ma_free_blocks := bs\<rparr>)"
      have "ma_books (snd (ma_record ident off n (s\<lparr>ma_free_blocks := bs\<rparr>)))"
        using inv c(1-3) pool_fits [OF inv pool carve c(2)]
        by (intro ma_record_books) (simp_all add: ma_inv_def ma_books_def ma_total_def)
      then have "ma_books t" by (simp flip: rt)
      moreover have "ma_tiles t"
        using pool_allocate_tiles [OF inv pool carve c(2), of ident] by (simp flip: rt)
      ultimately show ?thesis by (simp add: Pair ma_inv_def)
    qed
  next
    case False
    with allocate_fail [OF Pair] inv Pair show ?thesis by simp
  qed
qed

lemma find_erase_split:
  "find P xs = Some a \<Longrightarrow> \<exists>ys zs. xs = ys @ a # zs \<and> P a \<and> erase_first P xs = ys @ zs"
proof (induction xs)
  case (Cons x xs)
  show ?case
  proof (cases "P x")
    case True
    with Cons.prems show ?thesis by (intro exI [of _ "[]"] exI [of _ xs]) auto
  next
    case False
    with Cons obtain ys zs where "xs = ys @ a # zs" "P a" "erase_first P xs = ys @ zs" by auto
    with False show ?thesis by (intro exI [of _ "x # ys"] exI [of _ zs]) simp
  qed
qed simp

text \<open>
  Returning a region to a coalesced list: the coalesced result covers the old free
  addresses and the returned ones, and nothing twice.
\<close>

lemma coalesce_returned:
  assumes within: "blocks_within c bs" and n: "n \<noteq> 0" and hi: "unat off + unat n \<le> c"
    and c: "c < 2 ^ 64"
    and once: "\<forall>x. free_count (bs @ [\<lparr>fb_offset = off, fb_bytes = n\<rparr>]) x \<le> 1"
  defines "fb \<equiv> coalesce_loop [] (sort_key fb_offset (bs @ [\<lparr>fb_offset = off, fb_bytes = n\<rparr>]))"
  shows "separated fb" and "blocks_within c fb"
    and "free_count fb x = free_count bs x +
      (if unat off \<le> x \<and> x < unat off + unat n then 1 else 0)"
    and "free_total fb = free_total bs + unat n"
proof -
  let ?b = "\<lparr>fb_offset = off, fb_bytes = n\<rparr>"
  let ?l = "sort_key fb_offset (bs @ [?b])"
  have w: "blocks_within c (bs @ [?b])"
    using within n hi by (simp add: fb_hi_def)
  then have wl: "blocks_within c ?l" by (simp add: blocks_within_def)
  have "touching_order ?l"
    by (rule sorted_disjoint_touching)
      (use once wl in \<open>simp_all add: blocks_within_def del: sort_key_simps\<close>)
  note spec = coalesce_loop_spec [of "[]" ?l c, OF _ this _ _ c]
  have "separated fb \<and> blocks_within c fb \<and> (\<forall>x. free_count fb x = free_count ?l x) \<and>
      free_total fb = free_total ?l"
    using spec wl by (simp add: separated_simps fb_def)
  then show "separated fb" "blocks_within c fb" "free_total fb = free_total bs + unat n"
    "free_count fb x = free_count bs x +
      (if unat off \<le> x \<and> x < unat off + unat n then 1 else 0)"
    by (simp_all add: fb_covers_def fb_lo_def fb_hi_def)
qed

lemma release_known:
  assumes "find (\<lambda>a. ar_id a = ident) (ma_allocations s) = Some a"
  shows "ma_release ident s =
    (\<lparr>al_error = allocator_error.NoError, al_offset = ar_offset a, al_bytes = ar_bytes a\<rparr>,
     s\<lparr>ma_used := ma_used s - ar_bytes a,
       ma_free_blocks := (if ma_strategy s = Pool
         then coalesce_loop [] (sort_key fb_offset (ma_free_blocks s @
           [\<lparr>fb_offset = ar_offset a, fb_bytes = ar_bytes a\<rparr>])) else ma_free_blocks s),
       ma_allocations := erase_first (\<lambda>a. ar_id a = ident) (ma_allocations s)\<rparr>)"
  using assms by (simp add: ma_release_def Let_def coalesce_locked_def)

lemma release_cases:
  assumes inv: "ma_inv s" and rel: "ma_release ident s = (r, t)"
  obtains (unknown) "find (\<lambda>a. ar_id a = ident) (ma_allocations s) = None"
      "r = al_fail allocator_error.UnknownAllocation" "t = s"
  | (known) ys a zs where "ma_allocations s = ys @ a # zs" "ar_id a = ident"
      "r = \<lparr>al_error = allocator_error.NoError, al_offset = ar_offset a, al_bytes = ar_bytes a\<rparr>"
      "ma_allocations t = ys @ zs" "ma_used t = ma_used s - ar_bytes a"
      "ma_capacity t = ma_capacity s" "ma_strategy t = ma_strategy s"
      "ma_direct_next_offset t = ma_direct_next_offset s"
      "ma_free_blocks t = (if ma_strategy s = Pool
         then coalesce_loop [] (sort_key fb_offset (ma_free_blocks s @
           [\<lparr>fb_offset = ar_offset a, fb_bytes = ar_bytes a\<rparr>])) else ma_free_blocks s)"
proof (cases "find (\<lambda>a. ar_id a = ident) (ma_allocations s)")
  case None
  then have "ma_release ident s = (al_fail allocator_error.UnknownAllocation, s)"
    by (simp add: ma_release_def)
  with rel have "r = al_fail allocator_error.UnknownAllocation" "t = s" by simp_all
  with None show thesis by (rule unknown)
next
  case (Some a)
  from find_erase_split [OF this] obtain ys zs where split: "ma_allocations s = ys @ a # zs"
    "ar_id a = ident" and erase: "erase_first (\<lambda>a. ar_id a = ident) (ma_allocations s) = ys @ zs"
    by blast
  note eq = rel [unfolded release_known [OF Some] prod.inject]
  note r = conjunct1 [OF eq, symmetric] and t = conjunct2 [OF eq, symmetric]
  show thesis
    by (rule known [OF split r]) (simp_all add: t erase)
qed

lemma release_inv:
  assumes inv: "ma_inv s"
  shows "ma_inv (snd (ma_release ident s))"
proof (cases "ma_release ident s")
  case (Pair r t)
  from inv Pair show ?thesis
  proof (cases rule: release_cases)
    case unknown
    with Pair inv show ?thesis by simp
  next
    case (known ys a zs)
    have total: "ma_total s = unat (ar_bytes a) + ma_total t"
      using known by (simp add: ma_total_def)
    have books: "ma_books t"
      using inv known total
        ma.discharge_exact [OF inv, of "ar_bytes a"] ma.discharge_bounded [OF inv, of "ar_bytes a"]
      by (auto simp: ma_inv_def ma_books_def)
    have "ma_tiles t" if pool: "ma_strategy s = Pool"
    proof -
      have tiles: "ma_tiles s" using inv pool by (simp add: ma_inv_def)
      have once: "\<forall>x. free_count (ma_free_blocks s @
          [\<lparr>fb_offset = ar_offset a, fb_bytes = ar_bytes a\<rparr>]) x \<le> 1"
      proof
        fix x
        have "free_count (ma_free_blocks s) x + (alloc_count ys x +
            ((if ar_covers x a then 1 else 0) + alloc_count zs x)) \<le> 1"
          using tiles known(1) by (simp add: ma_tiles_def)
        then show "free_count (ma_free_blocks s @
            [\<lparr>fb_offset = ar_offset a, fb_bytes = ar_bytes a\<rparr>]) x \<le> 1"
          by (simp add: ar_covers_def fb_covers_def fb_lo_def fb_hi_def ar_lo_def ar_hi_def
              split: if_splits)
      qed
      have a: "ar_bytes a \<noteq> 0" "unat (ar_offset a) + unat (ar_bytes a) \<le> unat (ma_capacity s)"
        using inv tiles known(1) by (simp_all add: ma_inv_def ma_books_def ma_tiles_def ar_hi_def)
      have "blocks_within (unat (ma_capacity s)) (ma_free_blocks s)"
        using tiles by (simp add: ma_tiles_def)
      note c = coalesce_returned [OF this a ma_inv_lt once]
      have fb: "ma_free_blocks t = coalesce_loop [] (sort_key fb_offset (ma_free_blocks s @
          [\<lparr>fb_offset = ar_offset a, fb_bytes = ar_bytes a\<rparr>]))"
        using known(9) pool by simp
      have "free_count (ma_free_blocks t) x + alloc_count (ma_allocations t) x =
          free_count (ma_free_blocks s) x + alloc_count (ma_allocations s) x" for x
        unfolding fb c(3) using known(1,4)
        by (simp add: ar_covers_def ar_lo_def ar_hi_def)
      with tiles c(1,2,4) known(1,4,6) total show ?thesis
        unfolding ma_tiles_def fb by simp
    qed
    with books known(7) Pair show ?thesis by (simp add: ma_inv_def)
  qed
qed

text \<open>Releasing what was just allocated restores the pool exactly.\<close>

lemma pool_allocate_release:
  assumes inv: "ma_inv s" and pool: "ma_strategy s = Pool"
    and alloc: "ma_allocate ident n s = (r, t)" and ok: "al_ok r"
  shows "snd (ma_release ident t) = s"
proof -
  note c = allocate_cases [OF alloc ok]
  from c(4) pool obtain off bs where carve: "carve_first_fit n (ma_free_blocks s) = Some (off, bs)"
    and rt: "(r, t) = ma_record ident off n (s\<lparr>ma_free_blocks := bs\<rparr>)" by auto
  let ?a = "\<lparr>ar_id = ident, ar_offset = off, ar_bytes = n\<rparr>"
  have t: "ma_allocations t = ma_allocations s @ [?a]" "ma_free_blocks t = bs"
    "ma_used t = ma_used s + n" "ma_strategy t = Pool" "ma_capacity t = ma_capacity s"
    "ma_direct_next_offset t = ma_direct_next_offset s"
    using rt pool by (simp_all add: ma_record_def)
  have tinv: "ma_inv t" using allocate_inv [OF inv, of ident n] alloc by simp
  define u where "u = snd (ma_release ident t)"
  have uinv: "ma_inv u" unfolding u_def by (rule release_inv [OF tinv])
  from c(3) have fresh: "ident \<notin> ar_id ` set (ma_allocations s)"
    by (auto simp: list_ex_iff)
  have rel: "ma_release ident t = (fst (ma_release ident t), u)" by (simp add: u_def)
  from tinv rel have uf: "ma_allocations u = ma_allocations s \<and> ma_used u = ma_used s \<and>
      ma_capacity u = ma_capacity s \<and> ma_strategy u = Pool \<and>
      ma_direct_next_offset u = ma_direct_next_offset s"
  proof (cases rule: release_cases)
    case unknown
    have "\<forall>x \<in> set (ma_allocations t). ar_id x \<noteq> ident"
      using unknown(1) by (simp add: find_None_iff)
    with t show ?thesis by simp
  next
    case (known ys a zs)
    have "ys = ma_allocations s \<and> a = ?a \<and> zs = []"
      using known(1,2) t(1) fresh by (cases zs rule: rev_cases) auto
    with known t show ?thesis by simp
  qed
  have tiles: "ma_tiles s" "ma_tiles u" using inv uinv pool uf by (simp_all add: ma_inv_def)
  then have "\<forall>x. free_count (ma_free_blocks u) x = free_count (ma_free_blocks s) x"
    using uf unfolding ma_tiles_def by (metis add_right_cancel)
  with tiles have "ma_free_blocks u = ma_free_blocks s"
    using uf by (intro free_list_canonical [of _ "unat (ma_capacity s)"])
      (simp_all add: ma_tiles_def)
  with uf pool have "u = s" by (cases u, cases s) simp
  then show ?thesis by (simp add: u_def)
qed

end
