(* ===== verification/AllocatorProperties.thy ===== *)
theory AllocatorProperties
  imports AllocatorPool
begin

text \<open>
  Executions of the memory allocator and its properties over every state they reach.
\<close>

section \<open>Executions\<close>

text \<open>The mutating calls, each with the result it returned.\<close>

datatype ma_label =
    MAllocate string bytes allocation_result
  | MRelease string allocation_result

inductive ma_step :: "memory_allocator \<Rightarrow> ma_label \<Rightarrow> memory_allocator \<Rightarrow> bool" where
  step_allocate: "ma_allocate ident n s = (r, t) \<Longrightarrow> ma_step s (MAllocate ident n r) t"
| step_free: "ma_release ident s = (r, t) \<Longrightarrow> ma_step s (MRelease ident r) t"

inductive_cases ma_step_cases: "ma_step s e t"
inductive_simps ma_step_simps [simp]:
  "ma_step s (MAllocate ident n r) t"
  "ma_step s (MRelease ident r) t"

definition ma_start :: "memory_allocator \<Rightarrow> bool" where
  "ma_start s \<longleftrightarrow> ma_new (ma_capacity s) (ma_strategy s) = Some s"

lemma ma_start_fields:
  "ma_start s \<Longrightarrow> ma_allocations s = [] \<and> ma_used s = 0 \<and> ma_direct_next_offset s = 0"
  by (cases s) (auto simp: ma_start_def ma_new_def split: if_splits)

lemma ma_step_inv: "ma_step s e t \<Longrightarrow> ma_inv s \<Longrightarrow> ma_inv t"
  by (erule ma_step_cases) (metis allocate_inv release_inv snd_conv)+

interpretation ma_system: invariant_system ma_start ma_step ma_inv
  by unfold_locales (auto simp: ma_start_def intro: ma_inv_new ma_step_inv)

lemma allocate_config:
  "ma_allocate ident n s = (r, t) \<Longrightarrow> ma_capacity t = ma_capacity s \<and> ma_strategy t = ma_strategy s"
  by (auto simp: ma_allocate_def ma_record_def
      split: if_splits allocation_strategy.splits option.splits)

lemma release_config:
  "ma_release ident s = (r, t) \<Longrightarrow> ma_capacity t = ma_capacity s \<and> ma_strategy t = ma_strategy s"
  by (auto simp: ma_release_def Let_def coalesce_locked_def split: option.splits if_splits)

lemma ma_step_config:
  "ma_step s e t \<Longrightarrow> ma_capacity t = ma_capacity s \<and> ma_strategy t = ma_strategy s"
  by (erule ma_step_cases) (auto dest: allocate_config release_config)

lemma ma_run_config:
  "run ma_step s es t \<Longrightarrow> ma_capacity t = ma_capacity s \<and> ma_strategy t = ma_strategy s"
  by (induction rule: run.induct) (auto dest: ma_step_config)

lemma find_append_fresh: "find P xs = None \<Longrightarrow> find P (xs @ ys) = find P ys"
  by (induction xs) (auto split: if_splits)

lemma run_pool_offset:
  "run ma_step s es t \<Longrightarrow> ma_strategy s = Pool \<Longrightarrow>
   ma_direct_next_offset t = ma_direct_next_offset s"
proof (induction rule: run.induct)
  case (run_cons s e t es u)
  have "ma_direct_next_offset t = ma_direct_next_offset s"
    using run_cons.hyps(1) run_cons.prems
    by (cases rule: ma_step_cases)
      (auto simp: ma_allocate_def ma_record_def ma_release_def Let_def coalesce_locked_def
        split: if_splits allocation_strategy.splits option.splits)
  with run_cons ma_step_config [OF run_cons.hyps(1)] show ?case by simp
qed simp

definition ma_reachable :: "memory_allocator \<Rightarrow> bool" where
  "ma_reachable s \<longleftrightarrow> (\<exists>s0 es. ma_start s0 \<and> run ma_step s0 es s)"

lemma ma_reachable_inv: "ma_reachable s \<Longrightarrow> ma_inv s"
  by (auto simp: ma_reachable_def intro: ma_system.run_inv)

lemma ma_reachable_start: "ma_start s \<Longrightarrow> ma_reachable s"
  unfolding ma_reachable_def by (rule exI [of _ s], rule exI [of _ "[]"]) simp

lemma ma_reachable_step: "ma_reachable s \<Longrightarrow> ma_step s e t \<Longrightarrow> ma_reachable t"
  unfolding ma_reachable_def
  by (elim exE conjE, rule_tac x = s0 in exI, rule_tac x = "es @ [e]" in exI)
    (auto intro: run_append)

text \<open>A pool of 100 bytes, then with two allocations, then with a hole of 30 bytes.\<close>

definition demo_pool :: memory_allocator where
  "demo_pool = \<lparr>ma_capacity = 100, ma_strategy = Pool, ma_used = 0, ma_direct_next_offset = 0,
     ma_free_blocks = [\<lparr>fb_offset = 0, fb_bytes = 100\<rparr>], ma_allocations = []\<rparr>"

definition demo_two :: memory_allocator where
  "demo_two = snd (ma_allocate ''b'' 50 (snd (ma_allocate ''a'' 30 demo_pool)))"

definition demo_hole :: memory_allocator where
  "demo_hole = snd (ma_release ''a'' demo_two)"

lemma demo_two_state:
  "demo_two = demo_pool\<lparr>ma_used := 80, ma_free_blocks := [\<lparr>fb_offset = 80, fb_bytes = 20\<rparr>],
     ma_allocations := [\<lparr>ar_id = ''a'', ar_offset = 0, ar_bytes = 30\<rparr>,
       \<lparr>ar_id = ''b'', ar_offset = 30, ar_bytes = 50\<rparr>]\<rparr>"
  by (simp add: demo_two_def demo_pool_def ma_allocate_def ma_valid_id_def ma_record_def Let_def)

lemma demo_hole_state:
  "demo_hole = demo_pool\<lparr>ma_used := 50,
     ma_free_blocks := [\<lparr>fb_offset = 0, fb_bytes = 30\<rparr>, \<lparr>fb_offset = 80, fb_bytes = 20\<rparr>],
     ma_allocations := [\<lparr>ar_id = ''b'', ar_offset = 30, ar_bytes = 50\<rparr>]\<rparr>"
  by (simp add: demo_hole_def demo_two_state demo_pool_def ma_release_def coalesce_locked_def)

lemma demo_pool_reachable: "ma_reachable demo_pool" "ma_reachable demo_two" "ma_reachable demo_hole"
proof -
  show pool: "ma_reachable demo_pool"
    by (rule ma_reachable_start) (simp add: ma_start_def ma_new_def demo_pool_def)
  show two: "ma_reachable demo_two"
    unfolding demo_two_def
    by (rule ma_reachable_step [OF ma_reachable_step [OF pool step_allocate] step_allocate])
      (rule surjective_pairing)+
  show "ma_reachable demo_hole"
    unfolding demo_hole_def
    by (rule ma_reachable_step [OF two step_free]) (rule surjective_pairing)
qed

section \<open>Regions never overlap\<close>

lemma alloc_count_disjoint:
  assumes "\<forall>x. alloc_count as x \<le> 1" and "i < j" and "j < length as"
  shows "\<not> (ar_covers x (as ! i) \<and> ar_covers x (as ! j))"
  using assms
proof (induction as arbitrary: i j)
  case (Cons a as)
  have tail: "\<forall>x. alloc_count as x \<le> 1"
    using Cons.prems(1) by (metis add_leD2 alloc_count_simps(2))
  obtain j' where j: "j = Suc j'" using Cons.prems(2) by (cases j) auto
  show ?case
  proof (cases i)
    case 0
    have "alloc_count (a # as) x \<le> 1" using Cons.prems(1) by blast
    moreover have "as ! j' \<in> set as" using Cons.prems(3) j by simp
    ultimately show ?thesis
      using alloc_count_pos [of as x] by (auto simp: 0 j split: if_splits)
  next
    case (Suc i')
    with Cons.IH [OF tail, of i' j'] Cons.prems j show ?thesis by simp
  qed
qed simp

lemma tiles_once: "ma_tiles s \<Longrightarrow> \<forall>x. alloc_count (ma_allocations s) x \<le> 1"
  unfolding ma_tiles_def by (metis le_add2 order_refl zero_le_one order_trans)

text \<open>
  C13: pool allocations never overlap. In every reachable state of a pool each recorded
  allocation lies inside the capacity, two different records share no address, and an
  address belongs to an allocation exactly when no free block covers it.
\<close>

theorem pool_regions_disjoint:
  assumes "ma_reachable s" and "ma_strategy s = Pool"
  shows "(\<forall>a \<in> set (ma_allocations s). ar_hi a \<le> unat (ma_capacity s)) \<and>
    (\<forall>i j x. i < j \<longrightarrow> j < length (ma_allocations s) \<longrightarrow>
       \<not> (ar_covers x (ma_allocations s ! i) \<and> ar_covers x (ma_allocations s ! j))) \<and>
    (\<forall>x < unat (ma_capacity s). (\<exists>a \<in> set (ma_allocations s). ar_covers x a) \<longleftrightarrow>
       \<not> (\<exists>b \<in> set (ma_free_blocks s). fb_covers x b))"
proof -
  have tiles: "ma_tiles s"
    using ma_reachable_inv [OF assms(1)] assms(2) by (simp add: ma_inv_def)
  have "(\<exists>a \<in> set (ma_allocations s). ar_covers x a) \<longleftrightarrow>
       \<not> (\<exists>b \<in> set (ma_free_blocks s). fb_covers x b)" if "x < unat (ma_capacity s)" for x
  proof -
    have "free_count (ma_free_blocks s) x + alloc_count (ma_allocations s) x = 1"
      using tiles that by (simp add: ma_tiles_def)
    then have "0 < alloc_count (ma_allocations s) x \<longleftrightarrow> \<not> 0 < free_count (ma_free_blocks s) x"
      by linarith
    then show ?thesis by (simp only: free_count_pos alloc_count_pos)
  qed
  moreover have "\<forall>a \<in> set (ma_allocations s). ar_hi a \<le> unat (ma_capacity s)"
    using tiles by (simp add: ma_tiles_def)
  ultimately show ?thesis
    using alloc_count_disjoint [OF tiles_once [OF tiles]] by blast
qed

theorem pool_regions_disjoint_witness:
  "length (ma_allocations demo_two) = 2 \<and>
   \<not> (ar_covers 29 (ma_allocations demo_two ! 0) \<and> ar_covers 29 (ma_allocations demo_two ! 1))"
proof -
  have "ma_strategy demo_two = Pool" by (simp add: demo_two_state demo_pool_def)
  moreover have "length (ma_allocations demo_two) = 2" by (simp add: demo_two_state)
  ultimately show ?thesis
    using pool_regions_disjoint [OF demo_pool_reachable(2)] by simp
qed

section \<open>First fit is complete\<close>

text \<open>A contiguous run of free addresses inside a separated free list lies in one block.\<close>

lemma separated_contiguous:
  assumes "separated bs" and "\<forall>x. lo \<le> x \<and> x < lo + n \<longrightarrow> 0 < free_count bs x" and "0 < n"
  shows "\<exists>b \<in> set bs. n \<le> unat (fb_bytes b)"
  using assms(1,2)
proof (induction bs)
  case Nil
  then have "0 < free_count [] lo" using assms(3) by (metis le_add1 le_refl less_add_same_cancel1)
  then show ?case by simp
next
  case (Cons b bs)
  show ?case
  proof (cases "\<exists>x. lo \<le> x \<and> x < lo + n \<and> fb_covers x b")
    case False
    then have "\<forall>x. lo \<le> x \<and> x < lo + n \<longrightarrow> 0 < free_count bs x"
      using Cons.prems(2) by auto
    with Cons show ?thesis by (simp add: separated_simps)
  next
    case True
    then obtain y where y: "lo \<le> y" "y < lo + n" "fb_lo b \<le> y" "y < fb_hi b"
      by (auto simp: fb_covers_def)
    have beyond: "free_count bs x = 0" if "x \<le> fb_hi b" for x
      by (rule separated_count_beyond_head [OF Cons.prems(1) that])
    have "fb_lo b \<le> lo"
    proof (rule ccontr)
      assume "\<not> fb_lo b \<le> lo"
      moreover have "0 < free_count (b # bs) lo" using Cons.prems(2) assms(3) by simp
      ultimately have "0 < free_count (b # bs) lo" "\<not> fb_covers lo b" "lo \<le> fb_hi b"
        using y by (simp_all add: fb_covers_def)
      with beyond [of lo] show False by simp
    qed
    moreover have "lo + n \<le> fb_hi b"
    proof (rule ccontr)
      assume "\<not> lo + n \<le> fb_hi b"
      then have "0 < free_count (b # bs) (fb_hi b)" using Cons.prems(2) y by simp
      moreover have "\<not> fb_covers (fb_hi b) b" by (simp add: fb_covers_def)
      ultimately have "0 < free_count bs (fb_hi b)" by simp
      with beyond [of "fb_hi b"] show False by simp
    qed
    ultimately have "n \<le> unat (fb_bytes b)" by (simp add: fb_lo_def fb_hi_def)
    then show ?thesis by simp
  qed
qed

lemma block_is_free:
  "b \<in> set bs \<Longrightarrow> n \<le> unat (fb_bytes b) \<Longrightarrow> fb_lo b \<le> x \<Longrightarrow> x < fb_lo b + n \<Longrightarrow>
   0 < free_count bs x"
  by (auto simp: free_count_pos fb_covers_def fb_hi_def fb_lo_def)

lemma carve_iff_hole:
  assumes "ma_tiles s" and n: "n \<noteq> 0"
  shows "carve_first_fit n (ma_free_blocks s) \<noteq> None \<longleftrightarrow>
    (\<exists>lo. lo + unat n \<le> unat (ma_capacity s) \<and>
      (\<forall>x. lo \<le> x \<and> x < lo + unat n \<longrightarrow> (\<forall>a \<in> set (ma_allocations s). \<not> ar_covers x a)))"
    (is "?carve \<longleftrightarrow> ?hole")
proof
  assume ?carve
  then obtain b where b: "b \<in> set (ma_free_blocks s)" "n \<le> fb_bytes b"
    using carve_none [of n "ma_free_blocks s"] by (auto simp: not_less)
  then have le: "unat n \<le> unat (fb_bytes b)" by (simp add: word_le_nat_alt)
  have "fb_lo b + unat n \<le> unat (ma_capacity s)"
    using assms b le by (auto simp: ma_tiles_def blocks_within_def fb_hi_def fb_lo_def)
  moreover have "\<not> ar_covers x a"
    if "fb_lo b \<le> x" "x < fb_lo b + unat n" "a \<in> set (ma_allocations s)" for x a
  proof -
    have "free_count (ma_free_blocks s) x + alloc_count (ma_allocations s) x \<le> 1"
      using assms(1) by (simp add: ma_tiles_def)
    with block_is_free [OF b(1) le that(1,2)] that(3) show ?thesis
      using alloc_count_pos [of "ma_allocations s" x] by auto
  qed
  ultimately show ?hole by blast
next
  assume ?hole
  then obtain lo where lo: "lo + unat n \<le> unat (ma_capacity s)"
    "\<forall>x. lo \<le> x \<and> x < lo + unat n \<longrightarrow> (\<forall>a \<in> set (ma_allocations s). \<not> ar_covers x a)" by blast
  have "0 < free_count (ma_free_blocks s) x" if "lo \<le> x" "x < lo + unat n" for x
  proof -
    have "free_count (ma_free_blocks s) x + alloc_count (ma_allocations s) x = 1"
      using assms(1) that lo(1) by (simp add: ma_tiles_def)
    moreover have "\<not> 0 < alloc_count (ma_allocations s) x"
      using lo(2) that alloc_count_pos by blast
    ultimately show ?thesis by linarith
  qed
  moreover have "separated (ma_free_blocks s)" using assms(1) by (simp add: ma_tiles_def)
  ultimately obtain b where "b \<in> set (ma_free_blocks s)" "unat n \<le> unat (fb_bytes b)"
    using separated_contiguous [of "ma_free_blocks s" lo "unat n"] n by (auto simp: unat_pos_iff)
  then show ?carve
    using carve_none [of n "ma_free_blocks s"] by (auto simp: word_le_nat_alt not_less)
qed

text \<open>
  C22: the pool refuses a well-formed request with \<open>OutOfMemory\<close> exactly when no hole of
  that many contiguous unallocated addresses exists. Fragmentation is the only reason a
  request smaller than the free memory is refused, and missed coalescing never is.
\<close>

theorem pool_out_of_memory_iff_no_hole:
  assumes "ma_reachable s" and "ma_strategy s = Pool" and "ma_valid_id ident" and "n \<noteq> 0"
    and "\<not> list_ex (\<lambda>a. ar_id a = ident) (ma_allocations s)"
  shows "al_error (fst (ma_allocate ident n s)) = allocator_error.OutOfMemory \<longleftrightarrow>
    \<not> (\<exists>lo. lo + unat n \<le> unat (ma_capacity s) \<and>
      (\<forall>x. lo \<le> x \<and> x < lo + unat n \<longrightarrow> (\<forall>a \<in> set (ma_allocations s). \<not> ar_covers x a)))"
proof -
  have tiles: "ma_tiles s"
    using ma_reachable_inv [OF assms(1)] assms(2) by (simp add: ma_inv_def)
  have "al_error (fst (ma_allocate ident n s)) = allocator_error.OutOfMemory \<longleftrightarrow>
      carve_first_fit n (ma_free_blocks s) = None"
    using assms(2-5) by (auto simp: ma_allocate_def ma_record_def split: option.splits)
  then show ?thesis using carve_iff_hole [OF tiles assms(4)] by blast
qed

theorem pool_out_of_memory_iff_no_hole_witness:
  "al_error (fst (ma_allocate ''c'' 40 demo_hole)) = allocator_error.OutOfMemory \<and>
   as_free (ma_snapshot demo_hole) = 50 \<and>
   \<not> (\<exists>lo. lo + 40 \<le> (100 :: nat) \<and>
      (\<forall>x. lo \<le> x \<and> x < lo + 40 \<longrightarrow> (\<forall>a \<in> set (ma_allocations demo_hole). \<not> ar_covers x a)))"
proof -
  have "al_error (fst (ma_allocate ''c'' 40 demo_hole)) = allocator_error.OutOfMemory"
    by (simp add: demo_hole_state demo_pool_def ma_allocate_def ma_valid_id_def)
  moreover have "ma_strategy demo_hole = Pool" "ma_capacity demo_hole = 100"
    by (simp_all add: demo_hole_state demo_pool_def)
  ultimately show ?thesis
    using pool_out_of_memory_iff_no_hole [OF demo_pool_reachable(3), of "''c''" 40]
    by (simp add: ma_valid_id_def demo_hole_state ma_snapshot_def)
qed

section \<open>Release\<close>

text \<open>
  C35: releasing an allocation undoes it. In a reachable pool, releasing the allocation just
  made restores the whole object, the coalesced free list included, and reports the region
  that was handed out.
\<close>

theorem allocate_release_roundtrip:
  assumes "ma_reachable s" and "ma_strategy s = Pool" and "ma_allocate ident n s = (r, t)"
    and "al_ok r"
  shows "ma_release ident t = (r, s)"
proof -
  have inv: "ma_inv s" using assms(1) by (rule ma_reachable_inv)
  have snd: "snd (ma_release ident t) = s"
    by (rule pool_allocate_release [OF inv assms(2-4)])
  have "find (\<lambda>a. ar_id a = ident) (ma_allocations t) =
      Some \<lparr>ar_id = ident, ar_offset = al_offset r, ar_bytes = al_bytes r\<rparr>"
  proof -
    note c = allocate_cases [OF assms(3,4)]
    have fresh: "find (\<lambda>a. ar_id a = ident) (ma_allocations s) = None"
      using c(3) by (auto simp: find_None_iff list_ex_iff)
    have "ma_allocations t = ma_allocations s @
        [\<lparr>ar_id = ident, ar_offset = al_offset r, ar_bytes = al_bytes r\<rparr>]"
      using c(4) assms(2) by (auto simp: ma_record_def)
    with fresh show ?thesis by (simp add: find_append_fresh)
  qed
  then have "fst (ma_release ident t) = r"
    using assms(4) by (simp add: release_known al_ok_def)
  with snd show ?thesis by (metis prod.collapse)
qed

theorem allocate_release_roundtrip_witness:
  "ma_release ''c'' (snd (ma_allocate ''c'' 25 demo_hole)) =
     (fst (ma_allocate ''c'' 25 demo_hole), demo_hole)"
  by (rule allocate_release_roundtrip [OF demo_pool_reachable(3) _ surjective_pairing])
    (simp_all add: demo_hole_state demo_pool_def ma_allocate_def ma_valid_id_def ma_record_def
      al_ok_def)

text \<open>
  Nothing leaks. A reachable pool without allocations is back to one free block of the
  whole capacity, in whatever order its allocations were made and released.
\<close>

theorem pool_drained_is_whole:
  assumes "ma_start s0" and "ma_strategy s0 = Pool" and "run ma_step s0 es s"
    and "ma_allocations s = []"
  shows "s = s0"
proof -
  have inv: "ma_inv s" by (rule ma_system.run_inv [OF assms(1,3)])
  have inv0: "ma_inv s0" using assms(1) by (rule ma_system.start_inv)
  have cfg: "ma_capacity s = ma_capacity s0" "ma_strategy s = ma_strategy s0"
    using ma_run_config [OF assms(3)] by simp_all
  have a0: "ma_allocations s0 = []" "ma_used s0 = 0" "ma_direct_next_offset s0 = 0"
    using ma_start_fields [OF assms(1)] by simp_all
  have tiles: "ma_tiles s" "ma_tiles s0"
    using inv inv0 assms(2) cfg by (simp_all add: ma_inv_def)
  have "free_count (ma_free_blocks s) x = free_count (ma_free_blocks s0) x" for x
    using tiles by (simp add: ma_tiles_def assms(4) a0 cfg)
  with tiles have "ma_free_blocks s = ma_free_blocks s0"
    by (intro free_list_canonical [of _ "unat (ma_capacity s0)"])
      (simp_all add: ma_tiles_def cfg)
  moreover have "unat (ma_used s) = 0"
    using ma.used_total [OF inv] by (simp add: ma_total_def assms(4))
  moreover have "ma_direct_next_offset s = ma_direct_next_offset s0"
    using assms(3,2) by (rule run_pool_offset)
  ultimately show ?thesis
    using a0 cfg assms(4) by (cases s, cases s0) (simp add: unat_eq_0)
qed

theorem pool_drained_is_whole_witness:
  "snd (ma_release ''b'' demo_hole) = demo_pool"
proof -
  have start: "ma_start demo_pool" by (simp add: ma_start_def ma_new_def demo_pool_def)
  obtain es where run: "run ma_step demo_pool es (snd (ma_release ''b'' demo_hole))"
  proof
    let ?a = "ma_allocate ''a'' 30 demo_pool"
    let ?b = "ma_allocate ''b'' 50 (snd ?a)"
    show "run ma_step demo_pool [MAllocate ''a'' 30 (fst ?a), MAllocate ''b'' 50 (fst ?b),
        MRelease ''a'' (fst (ma_release ''a'' demo_two)),
        MRelease ''b'' (fst (ma_release ''b'' demo_hole))] (snd (ma_release ''b'' demo_hole))"
      by (auto simp: demo_hole_def demo_two_def intro!: exI)
  qed
  show ?thesis
    by (rule pool_drained_is_whole [OF start _ run])
      (simp_all add: demo_hole_state demo_pool_def ma_release_def coalesce_locked_def)
qed

section \<open>The direct strategy\<close>

text \<open>
  The direct strategy does not hand out regions. It never reuses an offset while its
  capacity check counts only the bytes in use, so after a release it accepts a request and
  returns an offset at which the region ends beyond the capacity.
\<close>

theorem direct_offset_exceeds_capacity:
  "\<exists>s es t. ma_start s \<and> ma_capacity s = 100 \<and> run ma_step s es t \<and>
     (\<exists>a \<in> set (ma_allocations t). ar_hi a > unat (ma_capacity t))"
proof -
  let ?s = "demo_pool\<lparr>ma_strategy := Direct\<rparr>"
  let ?a = "ma_allocate ''a'' 80 ?s"
  let ?b = "ma_release ''a'' (snd ?a)"
  let ?c = "ma_allocate ''b'' 80 (snd ?b)"
  have run: "run ma_step ?s [MAllocate ''a'' 80 (fst ?a), MRelease ''a'' (fst ?b),
      MAllocate ''b'' 80 (fst ?c)] (snd ?c)"
    by (auto intro!: exI)
  have c: "ma_allocations (snd ?c) = [\<lparr>ar_id = ''b'', ar_offset = 80, ar_bytes = 80\<rparr>]"
      "ma_capacity (snd ?c) = 100"
    by (simp_all add: demo_pool_def ma_allocate_def ma_valid_id_def ma_record_def ma_release_def)
  have start: "ma_start ?s" "ma_capacity ?s = 100"
    by (simp_all add: ma_start_def ma_new_def demo_pool_def)
  have "\<exists>a \<in> set (ma_allocations (snd ?c)). ar_hi a > unat (ma_capacity (snd ?c))"
    unfolding c by (simp add: ar_hi_def)
  with start run show ?thesis by blast
qed

end
