(* ===== verification/DevicePlacement.thy ===== *)
theory DevicePlacement
  imports Prelude
begin

text \<open>
  Device placement (device_placement.hpp, device_placement.cpp): models are placed on the
  least used device with room for them. Each public operation runs under the object's
  mutex and is one function on the record of its fields.
\<close>

section \<open>Data\<close>

datatype placement_error =
    NoError
  | InvalidDevice
  | InvalidModel
  | InvalidSize
  | DuplicateModel
  | UnknownModel
  | InsufficientMemory

record placement_result =
  pl_error :: placement_error
  pl_device :: "32 word"

abbreviation pl_fail :: "placement_error \<Rightarrow> placement_result" where
  "pl_fail e \<equiv> \<lparr>pl_error = e, pl_device = 0\<rparr>"

definition pl_ok :: "placement_result \<Rightarrow> bool" where
  "pl_ok r \<longleftrightarrow> pl_error r = placement_error.NoError"

record placement_record =
  pc_model :: string
  pc_device :: "32 word"
  pc_bytes :: bytes

record device_snapshot =
  ds_id :: "32 word"
  ds_capacity :: bytes
  ds_used :: bytes
  ds_free :: bytes

record placement_snapshot =
  ps_devices :: "device_snapshot list"
  ps_placements :: "placement_record list"

record device =
  dv_capacity :: bytes
  dv_used :: bytes

record device_placement =
  dp_devices :: "device list"
  dp_placements :: "placement_record list"

text \<open>
  The constructor throws \<open>std::invalid_argument\<close> (here \<open>None\<close>) on an empty list or a zero
  capacity.
\<close>

definition dp_new :: "bytes list \<Rightarrow> device_placement option" where
  "dp_new capacities =
     (if capacities = [] \<or> list_ex (\<lambda>c. c = 0) capacities then None
      else Some \<lparr>dp_devices = map (\<lambda>c. \<lparr>dv_capacity = c, dv_used = 0\<rparr>) capacities,
        dp_placements = []\<rparr>)"

section \<open>Operations\<close>

text \<open>The \<open>for\<close> loop of \<open>place\<close>: the index selected, the number of devices for none.\<close>

function select_device :: "bytes \<Rightarrow> device list \<Rightarrow> nat \<Rightarrow> nat \<Rightarrow> nat" where
  "select_device n ds index selected =
     (if index < length ds then
        (if n \<le> dv_capacity (ds ! index) - dv_used (ds ! index) \<and>
            (selected = length ds \<or> dv_used (ds ! index) < dv_used (ds ! selected))
         then select_device n ds (index + 1) index
         else select_device n ds (index + 1) selected)
      else selected)"
  by pat_completeness auto
termination by (relation "measure (\<lambda>(_, ds, index, _). length ds - index)") auto

declare select_device.simps [simp del]

definition dp_place ::
  "string \<Rightarrow> bytes \<Rightarrow> device_placement \<Rightarrow> placement_result \<times> device_placement" where
  "dp_place model n s =
     (if model = [] \<or> length model > 64 then (pl_fail placement_error.InvalidModel, s)
      else if n = 0 then (pl_fail placement_error.InvalidSize, s)
      else if list_ex (\<lambda>p. pc_model p = model) (dp_placements s)
        then (pl_fail placement_error.DuplicateModel, s)
      else
        (let ds = dp_devices s; selected = select_device n ds 0 (length ds)
         in if selected = length ds then (pl_fail placement_error.InsufficientMemory, s)
            else (\<lparr>pl_error = placement_error.NoError, pl_device = of_nat selected\<rparr>,
              s\<lparr>dp_devices := ds[selected := (ds ! selected)
                   \<lparr>dv_used := dv_used (ds ! selected) + n\<rparr>],
                dp_placements := dp_placements s @
                  [\<lparr>pc_model = model, pc_device = of_nat selected, pc_bytes = n\<rparr>]\<rparr>)))"

text \<open>
  \<open>find_if\<close> and \<open>erase\<close> of \<open>release\<close>: the first placement of the model and the others.
\<close>

fun take_placement ::
  "string \<Rightarrow> placement_record list \<Rightarrow> (placement_record \<times> placement_record list) option" where
  "take_placement model [] = None"
| "take_placement model (p # ps) =
     (if pc_model p = model then Some (p, ps)
      else map_option (\<lambda>(q, qs). (q, p # qs)) (take_placement model ps))"

definition dp_release ::
  "string \<Rightarrow> device_placement \<Rightarrow> placement_result \<times> device_placement" where
  "dp_release model s =
     (case take_placement model (dp_placements s) of
        None \<Rightarrow> (pl_fail placement_error.UnknownModel, s)
      | Some (p, ps) \<Rightarrow>
          (let ds = dp_devices s; i = unat (pc_device p)
           in (\<lparr>pl_error = placement_error.NoError, pl_device = pc_device p\<rparr>,
               s\<lparr>dp_devices := ds[i := (ds ! i)\<lparr>dv_used := dv_used (ds ! i) - pc_bytes p\<rparr>],
                 dp_placements := ps\<rparr>)))"

definition dp_snapshot :: "device_placement \<Rightarrow> placement_snapshot" where
  "dp_snapshot s =
     \<lparr>ps_devices = map (\<lambda>i. let d = dp_devices s ! i in
          \<lparr>ds_id = of_nat i, ds_capacity = dv_capacity d, ds_used = dv_used d,
           ds_free = dv_capacity d - dv_used d\<rparr>) [0..<length (dp_devices s)],
      ps_placements = sort_key pc_model (dp_placements s)\<rparr>"

section \<open>The devices' books\<close>

definition dp_load :: "device_placement \<Rightarrow> nat \<Rightarrow> nat" where
  "dp_load s i = (\<Sum>p \<leftarrow> filter (\<lambda>p. unat (pc_device p) = i) (dp_placements s). unat (pc_bytes p))"

text \<open>
  Device numbers are kept in 32 bits; the constructor's list is assumed no longer than
  that (\<open>dp_addressable\<close>), as the sources do.
\<close>

definition dp_addressable :: "device_placement \<Rightarrow> bool" where
  "dp_addressable s \<longleftrightarrow> length (dp_devices s) < 2 ^ 32"

definition dp_inv :: "device_placement \<Rightarrow> bool" where
  "dp_inv s \<longleftrightarrow>
     distinct (map pc_model (dp_placements s)) \<and>
     (\<forall>p \<in> set (dp_placements s). unat (pc_device p) < length (dp_devices s) \<and>
        pc_bytes p \<noteq> 0 \<and> pc_model p \<noteq> [] \<and> length (pc_model p) \<le> 64) \<and>
     (\<forall>i < length (dp_devices s). unat (dv_used (dp_devices s ! i)) = dp_load s i \<and>
        dv_used (dp_devices s ! i) \<le> dv_capacity (dp_devices s ! i))"

text \<open>Each device is a ledger of its own.\<close>

interpretation dp: ledger
  "\<lambda>(s, i). dp_inv s \<and> i < length (dp_devices s)"
  "\<lambda>(s, i). dv_capacity (dp_devices s ! i)"
  "\<lambda>(s, i). dv_used (dp_devices s ! i)"
  "\<lambda>(s, i). dp_load s i"
  by unfold_locales (auto simp: dp_inv_def)

section \<open>Selection\<close>

definition dv_fits :: "bytes \<Rightarrow> device \<Rightarrow> bool" where
  "dv_fits n d \<longleftrightarrow> n \<le> dv_capacity d - dv_used d"

text \<open>
  The selected device fits, has the least use of the fitting ones, and is the first of
  those.
\<close>

definition best_device :: "bytes \<Rightarrow> device list \<Rightarrow> nat \<Rightarrow> nat \<Rightarrow> bool" where
  "best_device n ds m i \<longleftrightarrow>
     (if \<exists>j < m. dv_fits n (ds ! j)
      then i < m \<and> dv_fits n (ds ! i) \<and>
        (\<forall>j < m. dv_fits n (ds ! j) \<longrightarrow> dv_used (ds ! i) \<le> dv_used (ds ! j)) \<and>
        (\<forall>j < i. dv_fits n (ds ! j) \<longrightarrow> dv_used (ds ! i) < dv_used (ds ! j))
      else i = length ds)"

lemma best_device_step:
  assumes "best_device n ds m i" and "m < length ds"
  shows "best_device n ds (Suc m)
    (if dv_fits n (ds ! m) \<and> (i = length ds \<or> dv_used (ds ! m) < dv_used (ds ! i)) then m else i)"
proof (cases "\<exists>j < m. dv_fits n (ds ! j)")
  case True
  with assms have i: "i < m" "dv_fits n (ds ! i)"
    "\<And>j. j < m \<Longrightarrow> dv_fits n (ds ! j) \<Longrightarrow> dv_used (ds ! i) \<le> dv_used (ds ! j)"
    "\<And>j. j < i \<Longrightarrow> dv_fits n (ds ! j) \<Longrightarrow> dv_used (ds ! i) < dv_used (ds ! j)"
    by (simp_all add: best_device_def)
  have ex: "\<exists>j < Suc m. dv_fits n (ds ! j)" using True less_SucI by blast
  show ?thesis
  proof (cases "dv_fits n (ds ! m) \<and> dv_used (ds ! m) < dv_used (ds ! i)")
    case True
    then have "\<And>j. j < m \<Longrightarrow> dv_fits n (ds ! j) \<Longrightarrow> dv_used (ds ! m) < dv_used (ds ! j)"
      using i(3) by (meson less_le_trans)
    with True ex show ?thesis
      by (auto simp: best_device_def less_Suc_eq intro: less_imp_le)
  next
    case False
    then have "dv_fits n (ds ! m) \<Longrightarrow> dv_used (ds ! i) \<le> dv_used (ds ! m)" by (simp add: not_less)
    with False i ex assms(2) show ?thesis
      by (auto simp: best_device_def less_Suc_eq)
  qed
next
  case False
  with assms(1) have "i = length ds" by (simp add: best_device_def)
  with False assms(2) show ?thesis by (auto simp: best_device_def less_Suc_eq)
qed

lemma select_device_best:
  "best_device n ds index selected \<Longrightarrow> index \<le> length ds \<Longrightarrow>
   best_device n ds (length ds) (select_device n ds index selected)"
proof (induction n ds index selected rule: select_device.induct)
  case (1 n ds index selected)
  show ?case
  proof (cases "index < length ds")
    case True
    note step = best_device_step [OF "1.prems"(1) True]
    show ?thesis
    proof (cases "dv_fits n (ds ! index) \<and>
        (selected = length ds \<or> dv_used (ds ! index) < dv_used (ds ! selected))")
      case c: True
      with step have "best_device n ds (Suc index) index" by simp
      with "1.IH"(1) [OF True] c True show ?thesis
        by (subst select_device.simps) (simp add: dv_fits_def)
    next
      case c: False
      with step have "best_device n ds (Suc index) selected" by (simp split: if_splits)
      with "1.IH"(2) [OF True] c True show ?thesis
        by (subst select_device.simps) (auto simp: dv_fits_def)
    qed
  next
    case False
    with "1.prems" show ?thesis by (subst select_device.simps) simp
  qed
qed

lemma select_device_spec: "best_device n ds (length ds) (select_device n ds 0 (length ds))"
  by (rule select_device_best) (simp_all add: best_device_def)

section \<open>The operations keep the books\<close>

lemma dp_inv_new: "dp_new caps = Some s \<Longrightarrow> dp_inv s"
  by (auto simp: dp_new_def dp_inv_def dp_load_def split: if_splits)

lemma unat_device_index:
  assumes "i < length (dp_devices s)" and "dp_addressable s"
  shows "unat (of_nat i :: 32 word) = i"
  using assms by (simp add: dp_addressable_def unat_of_nat take_bit_nat_eq_self)

text \<open>The state after a placement on device \<open>i\<close>.\<close>

definition dp_put :: "string \<Rightarrow> bytes \<Rightarrow> nat \<Rightarrow> device_placement \<Rightarrow> device_placement" where
  "dp_put model n i s =
     s\<lparr>dp_devices := (dp_devices s)[i := (dp_devices s ! i)
         \<lparr>dv_used := dv_used (dp_devices s ! i) + n\<rparr>],
       dp_placements := dp_placements s @
         [\<lparr>pc_model = model, pc_device = of_nat i, pc_bytes = n\<rparr>]\<rparr>"

lemma place_cases:
  assumes "dp_place model n s = (r, t)"
  obtains (placed) i where "r = \<lparr>pl_error = placement_error.NoError, pl_device = of_nat i\<rparr>"
      "t = dp_put model n i s" "i < length (dp_devices s)"
      "best_device n (dp_devices s) (length (dp_devices s)) i" "dv_fits n (dp_devices s ! i)"
      "model \<noteq> []" "length model \<le> 64" "n \<noteq> 0" "model \<notin> pc_model ` set (dp_placements s)"
  | (refused) "\<not> pl_ok r" "t = s"
proof (cases "pl_ok r")
  case True
  let ?i = "select_device n (dp_devices s) 0 (length (dp_devices s))"
  have r: "r = \<lparr>pl_error = placement_error.NoError, pl_device = of_nat ?i\<rparr>"
    "t = dp_put model n ?i s" "?i \<noteq> length (dp_devices s)"
    "model \<noteq> []" "length model \<le> 64" "n \<noteq> 0" "model \<notin> pc_model ` set (dp_placements s)"
    using assms True
    by (auto simp: dp_place_def Let_def pl_ok_def dp_put_def list_ex_iff split: if_splits)
  note best = select_device_spec [of n "dp_devices s"]
  have "?i < length (dp_devices s) \<and> dv_fits n (dp_devices s ! ?i)"
    using best r(3) unfolding best_device_def by (simp split: if_splits)
  with r best show thesis by (intro placed [of ?i]) blast+
next
  case False
  with assms have "t = s"
    by (auto simp: dp_place_def Let_def pl_ok_def split: if_splits)
  with False show thesis by (rule refused)
qed

lemma dp_put_load:
  assumes "i < length (dp_devices s)" and "dp_addressable s"
  shows "dp_load (dp_put model n i s) j = dp_load s j + (if i = j then unat n else 0)"
  using unat_device_index [OF assms] by (simp add: dp_load_def dp_put_def)

lemma dp_put_device:
  "j < length (dp_devices s) \<Longrightarrow> dp_devices (dp_put model n i s) ! j =
    (if i = j then (dp_devices s ! j)\<lparr>dv_used := dv_used (dp_devices s ! j) + n\<rparr> else dp_devices s ! j)"
  by (simp add: dp_put_def nth_list_update)

lemma dp_put_inv:
  assumes inv: "dp_inv s" and i: "i < length (dp_devices s)" "dp_addressable s"
    and fits: "dv_fits n (dp_devices s ! i)"
    and fresh: "model \<notin> pc_model ` set (dp_placements s)"
    and wf: "model \<noteq> []" "length model \<le> 64" "n \<noteq> 0"
  shows "dp_inv (dp_put model n i s)"
proof -
  have led: "(case (s, i) of (s, i) \<Rightarrow> dp_inv s \<and> i < length (dp_devices s))"
    using inv i by simp
  note charge = dp.charge_exact [OF led, of n] dp.charge_bounded [OF led, of n]
  have "unat (dv_used (dp_devices (dp_put model n i s) ! j)) = dp_load (dp_put model n i s) j \<and>
      dv_used (dp_devices (dp_put model n i s) ! j) \<le> dv_capacity (dp_devices (dp_put model n i s) ! j)"
    if j: "j < length (dp_devices s)" for j
    using inv j charge fits
    by (auto simp: dp_put_load [OF i] dp_put_device [OF j] dv_fits_def dp_inv_def)
  moreover have "length (dp_devices (dp_put model n i s)) = length (dp_devices s)"
    by (simp add: dp_put_def)
  moreover have "dp_placements (dp_put model n i s) = dp_placements s @
      [\<lparr>pc_model = model, pc_device = of_nat i, pc_bytes = n\<rparr>]"
    by (simp add: dp_put_def)
  ultimately show ?thesis
    using inv fresh wf i unat_device_index [OF i] by (auto simp: dp_inv_def)
qed

lemma take_placement_none: "take_placement m ps = None \<longleftrightarrow> m \<notin> pc_model ` set ps"
  by (induction ps) auto

lemma take_placement_some:
  "take_placement m ps = Some (p, qs) \<Longrightarrow>
   \<exists>xs ys. ps = xs @ p # ys \<and> qs = xs @ ys \<and> pc_model p = m"
proof (induction ps arbitrary: qs)
  case (Cons x ps)
  show ?case
  proof (cases "pc_model x = m")
    case True
    with Cons.prems show ?thesis by (intro exI [of _ "[]"] exI [of _ ps]) simp
  next
    case False
    with Cons.prems obtain qs' where "take_placement m ps = Some (p, qs')" "qs = x # qs'" by auto
    with Cons.IH show ?thesis by (metis append_Cons)
  qed
qed simp

text \<open>The state after the removal of placement \<open>p\<close>.\<close>

definition dp_drop :: "placement_record \<Rightarrow> placement_record list \<Rightarrow> device_placement \<Rightarrow>
    device_placement" where
  "dp_drop p ps s =
     s\<lparr>dp_devices := (dp_devices s)[unat (pc_device p) := (dp_devices s ! unat (pc_device p))
         \<lparr>dv_used := dv_used (dp_devices s ! unat (pc_device p)) - pc_bytes p\<rparr>],
       dp_placements := ps\<rparr>"

lemma dp_drop_device:
  "j < length (dp_devices s) \<Longrightarrow> dp_devices (dp_drop p ps s) ! j =
    (if unat (pc_device p) = j
     then (dp_devices s ! j)\<lparr>dv_used := dv_used (dp_devices s ! j) - pc_bytes p\<rparr>
     else dp_devices s ! j)"
  by (simp add: dp_drop_def nth_list_update)

lemma dp_drop_inv:
  assumes inv: "dp_inv s" and split: "dp_placements s = xs @ p # ys"
  shows "dp_inv (dp_drop p (xs @ ys) s)"
proof -
  let ?t = "dp_drop p (xs @ ys) s" and ?i = "unat (pc_device p)"
  have i: "?i < length (dp_devices s)" using inv by (simp add: dp_inv_def split)
  have load: "dp_load s j = dp_load ?t j + (if ?i = j then unat (pc_bytes p) else 0)" for j
    by (simp add: dp_load_def dp_drop_def split)
  have led: "(case (s, ?i) of (s, i) \<Rightarrow> dp_inv s \<and> i < length (dp_devices s))"
    using inv i by simp
  have "unat (pc_bytes p) \<le> dp_load s ?i" using load [of ?i] by simp
  with dp.discharge_exact [OF led, of "pc_bytes p"] dp.discharge_bounded [OF led, of "pc_bytes p"]
  have disc: "unat (dv_used (dp_devices s ! ?i) - pc_bytes p) = dp_load s ?i - unat (pc_bytes p)"
    "dv_used (dp_devices s ! ?i) - pc_bytes p \<le> dv_capacity (dp_devices s ! ?i)" by simp_all
  have "unat (dv_used (dp_devices ?t ! j)) = dp_load ?t j \<and>
      dv_used (dp_devices ?t ! j) \<le> dv_capacity (dp_devices ?t ! j)"
    if j: "j < length (dp_devices s)" for j
    using inv j disc load [of j] by (auto simp: dp_drop_device [OF j] dp_inv_def)
  moreover have "length (dp_devices ?t) = length (dp_devices s)" by (simp add: dp_drop_def)
  moreover have "dp_placements ?t = xs @ ys" by (simp add: dp_drop_def)
  ultimately show ?thesis
    using inv by (auto simp: dp_inv_def split)
qed

lemma dp_release_eq:
  "dp_release model s = (case take_placement model (dp_placements s) of
     None \<Rightarrow> (pl_fail placement_error.UnknownModel, s)
   | Some (p, ps) \<Rightarrow>
       (\<lparr>pl_error = placement_error.NoError, pl_device = pc_device p\<rparr>, dp_drop p ps s))"
  by (auto simp: dp_release_def dp_drop_def Let_def split: option.split)

section \<open>Executions\<close>

datatype dp_label = DPlace string bytes placement_result | DRelease string placement_result

inductive dp_step :: "device_placement \<Rightarrow> dp_label \<Rightarrow> device_placement \<Rightarrow> bool" where
  step_place: "dp_place model n s = (r, t) \<Longrightarrow> dp_step s (DPlace model n r) t"
| step_unplace: "dp_release model s = (r, t) \<Longrightarrow> dp_step s (DRelease model r) t"

inductive_cases dp_step_cases: "dp_step s e t"
inductive_simps dp_step_simps [simp]:
  "dp_step s (DPlace model n r) t" "dp_step s (DRelease model r) t"

definition dp_good :: "device_placement \<Rightarrow> bool" where
  "dp_good s \<longleftrightarrow> dp_inv s \<and> dp_addressable s"

definition dp_start :: "device_placement \<Rightarrow> bool" where
  "dp_start s \<longleftrightarrow> (\<exists>caps. dp_new caps = Some s) \<and> dp_addressable s"

lemma dp_place_good:
  assumes "dp_good s" and place: "dp_place model n s = (r, t)"
  shows "dp_good t"
  using place
proof (cases rule: place_cases)
  case (placed i)
  with assms(1) have "dp_inv t"
    by (auto simp: dp_good_def intro: dp_put_inv)
  with assms(1) placed show ?thesis
    by (simp add: dp_good_def dp_addressable_def dp_put_def)
next
  case refused
  with assms(1) show ?thesis by simp
qed

lemma dp_release_good:
  assumes "dp_good s" and rel: "dp_release model s = (r, t)"
  shows "dp_good t"
proof (cases "take_placement model (dp_placements s)")
  case None
  with assms show ?thesis by (simp add: dp_release_eq)
next
  case (Some pq)
  obtain p qs where pq: "pq = (p, qs)" by (cases pq)
  from take_placement_some [OF Some [unfolded pq]]
  obtain xs ys where "dp_placements s = xs @ p # ys" "qs = xs @ ys" by blast
  moreover have "t = dp_drop p qs s" using rel Some by (simp add: dp_release_eq pq)
  ultimately have "dp_inv t" using assms(1) by (simp add: dp_good_def dp_drop_inv)
  with assms(1) \<open>t = dp_drop p qs s\<close> show ?thesis
    by (simp add: dp_good_def dp_addressable_def dp_drop_def)
qed

interpretation dp_system: invariant_system dp_start dp_step dp_good
proof unfold_locales
  show "dp_start s \<Longrightarrow> dp_good s" for s
    by (auto simp: dp_start_def dp_good_def dp_inv_new)
  show "dp_step s e t \<Longrightarrow> dp_good s \<Longrightarrow> dp_good t" for s e t
    by (erule dp_step_cases) (blast intro: dp_place_good dp_release_good)+
qed

end
