(* ===== verification/PlacementProperties.thy ===== *)
theory PlacementProperties
  imports DevicePlacement
begin

text \<open>The properties of device placement, over every state an execution can reach.\<close>

text \<open>The two devices of 100 and 200 bytes and the placements of the repository's test.\<close>

definition demo_devices :: device_placement where
  "demo_devices = \<lparr>dp_devices = [\<lparr>dv_capacity = 100, dv_used = 0\<rparr>,
     \<lparr>dv_capacity = 200, dv_used = 0\<rparr>], dp_placements = []\<rparr>"

definition demo_placed :: device_placement where
  "demo_placed = snd (dp_place ''small'' 80 (snd (dp_place ''large'' 150 demo_devices)))"

lemma demo_devices_start: "dp_start demo_devices"
  by (auto simp: dp_start_def dp_new_def demo_devices_def dp_addressable_def
      intro!: exI [of _ "[100, 200]"])

lemma demo_placed_state:
  "demo_placed = \<lparr>dp_devices = [\<lparr>dv_capacity = 100, dv_used = 80\<rparr>,
     \<lparr>dv_capacity = 200, dv_used = 150\<rparr>],
     dp_placements = [\<lparr>pc_model = ''large'', pc_device = 1, pc_bytes = 150\<rparr>,
       \<lparr>pc_model = ''small'', pc_device = 0, pc_bytes = 80\<rparr>]\<rparr>"
  by (simp add: demo_placed_def demo_devices_def dp_place_def Let_def select_device.simps)

lemma demo_placed_run:
  "run dp_step demo_devices
     [DPlace ''large'' 150 (fst (dp_place ''large'' 150 demo_devices)),
      DPlace ''small'' 80 (fst (dp_place ''small'' 80 (snd (dp_place ''large'' 150 demo_devices))))]
     demo_placed"
  by (auto simp: demo_placed_def intro!: exI)

lemma map_update_same: "f x = f (xs ! i) \<Longrightarrow> map f (xs[i := x]) = map f xs"
  by (cases "i < length xs") (simp_all add: map_update list_update_same_conv list_update_beyond)

lemma run_devices:
  "run dp_step s es t \<Longrightarrow> map dv_capacity (dp_devices t) = map dv_capacity (dp_devices s)"
proof (induction rule: run.induct)
  case (run_cons s e t es u)
  have drop: "map dv_capacity (dp_devices (dp_drop p ps s)) = map dv_capacity (dp_devices s)" for p ps
    by (simp add: dp_drop_def map_update_same)
  have put: "map dv_capacity (dp_devices (dp_put m n i s)) = map dv_capacity (dp_devices s)" for m n i
    by (simp add: dp_put_def map_update_same)
  from run_cons.hyps(1) have "map dv_capacity (dp_devices t) = map dv_capacity (dp_devices s)"
  proof (cases rule: dp_step.cases)
    case (step_place model n r)
    from step_place(2) show ?thesis by (cases rule: place_cases) (simp_all add: put)
  next
    case (step_unplace model r)
    then show ?thesis by (auto simp: dp_release_eq drop split: option.splits prod.splits)
  qed
  with run_cons.IH show ?case by simp
qed simp

lemma take_placement_append:
  "m \<notin> pc_model ` set ps \<Longrightarrow> pc_model p = m \<Longrightarrow> take_placement m (ps @ [p]) = Some (p, ps)"
  by (induction ps) auto

text \<open>
  The per-device books balance. In every reachable state the snapshot lists the devices
  of the constructor in order, each with \<open>used\<close> equal to the sum of the placements on it
  and \<open>used + free = capacity\<close> without wrap-around, and no model is placed twice.
\<close>

theorem placement_books_balance:
  assumes "dp_start s0" and "run dp_step s0 es s"
  shows "map ds_capacity (ps_devices (dp_snapshot s)) = map dv_capacity (dp_devices s0) \<and>
    distinct (map pc_model (ps_placements (dp_snapshot s))) \<and>
    (\<forall>i < length (ps_devices (dp_snapshot s)).
       let d = ps_devices (dp_snapshot s) ! i in
       unat (ds_used d) = (\<Sum>p \<leftarrow> filter (\<lambda>p. unat (pc_device p) = i)
          (ps_placements (dp_snapshot s)). unat (pc_bytes p)) \<and>
       unat (ds_used d) + unat (ds_free d) = unat (ds_capacity d))"
proof -
  have inv: "dp_inv s"
    using dp_system.run_inv [OF assms] by (simp add: dp_good_def)
  have caps: "map ds_capacity (ps_devices (dp_snapshot s)) = map dv_capacity (dp_devices s0)"
    by (simp add: dp_snapshot_def Let_def comp_def flip: run_devices [OF assms(2)])
      (auto intro!: nth_equalityI)
  have "mset (map pc_model (ps_placements (dp_snapshot s))) = mset (map pc_model (dp_placements s))"
    by (simp add: dp_snapshot_def)
  then have dist: "distinct (map pc_model (ps_placements (dp_snapshot s)))"
    using inv by (metis dp_inv_def mset_eq_imp_distinct_iff)
  have load: "(\<Sum>p \<leftarrow> filter (\<lambda>p. unat (pc_device p) = i) (ps_placements (dp_snapshot s)).
      unat (pc_bytes p)) = dp_load s i" for i
  proof -
    have "mset (map (\<lambda>p. unat (pc_bytes p)) (filter (\<lambda>p. unat (pc_device p) = i)
        (ps_placements (dp_snapshot s)))) = mset (map (\<lambda>p. unat (pc_bytes p))
        (filter (\<lambda>p. unat (pc_device p) = i) (dp_placements s)))"
      by (simp add: dp_snapshot_def)
    then show ?thesis unfolding dp_load_def by (metis sum_mset_sum_list)
  qed
  have "unat (dv_used (dp_devices s ! i)) = dp_load s i \<and>
      dp_load s i +
      unat (dv_capacity (dp_devices s ! i) - dv_used (dp_devices s ! i)) =
      unat (dv_capacity (dp_devices s ! i))" if "i < length (dp_devices s)" for i
    using inv that dp.used_le_cap [of "(s, i)"]
    by (auto simp: dp_inv_def unat_free word_le_nat_alt)
  then have "let d = ps_devices (dp_snapshot s) ! i in
      unat (ds_used d) = dp_load s i \<and> unat (ds_used d) + unat (ds_free d) = unat (ds_capacity d)"
    if "i < length (ps_devices (dp_snapshot s))" for i
    using that by (auto simp: dp_snapshot_def Let_def)
  with caps dist show ?thesis by (simp add: load)
qed

theorem placement_books_balance_witness:
  "map ds_used (ps_devices (dp_snapshot demo_placed)) = [80, 150] \<and>
   map ds_capacity (ps_devices (dp_snapshot demo_placed)) = [100, 200]"
  using placement_books_balance [OF demo_devices_start demo_placed_run]
  by (simp add: demo_placed_state dp_snapshot_def Let_def demo_devices_def upt_rec)

text \<open>
  C39: placement picks the least used device with room. A well-formed new model is refused
  with \<open>InsufficientMemory\<close> exactly when no device has room for it; otherwise it goes to a
  device with room that no device with room has less in use than, the lowest number among
  equals, and only that device's use changes, by exactly the model's bytes.
\<close>

theorem place_picks_least_used:
  assumes "dp_good s" and "model \<noteq> []" and "length model \<le> 64" and "n \<noteq> 0"
    and "\<not> list_ex (\<lambda>p. pc_model p = model) (dp_placements s)"
    and "dp_place model n s = (r, t)"
  shows "if \<exists>i < length (dp_devices s). dp_load s i + unat n \<le> unat (dv_capacity (dp_devices s ! i))
    then pl_ok r \<and> (let i = unat (pl_device r) in i < length (dp_devices s) \<and>
        dp_load s i + unat n \<le> unat (dv_capacity (dp_devices s ! i)) \<and>
        (\<forall>j < length (dp_devices s).
           dp_load s j + unat n \<le> unat (dv_capacity (dp_devices s ! j)) \<longrightarrow>
           (dp_load s i < dp_load s j \<or> (dp_load s i = dp_load s j \<and> i \<le> j))) \<and>
        (\<forall>j. dp_load t j = dp_load s j + (if i = j then unat n else 0)))
    else pl_error r = placement_error.InsufficientMemory \<and> t = s"
proof -
  let ?ds = "dp_devices s" and ?i = "select_device n (dp_devices s) 0 (length (dp_devices s))"
  have inv: "dp_inv s" and addr: "dp_addressable s" using assms(1) by (simp_all add: dp_good_def)
  have fits: "dv_fits n (?ds ! j) \<longleftrightarrow> dp_load s j + unat n \<le> unat (dv_capacity (?ds ! j))"
    if "j < length ?ds" for j
    using dp.fits_iff [of "(s, j)" n] inv that by (auto simp: dv_fits_def)
  have used: "dv_used (?ds ! j) \<le> dv_used (?ds ! k) \<longleftrightarrow> dp_load s j \<le> dp_load s k"
    "dv_used (?ds ! j) < dv_used (?ds ! k) \<longleftrightarrow> dp_load s j < dp_load s k"
    if "j < length ?ds" "k < length ?ds" for j k
    using inv that by (simp_all add: dp_inv_def word_le_nat_alt word_less_nat_alt)
  note best = select_device_spec [of n ?ds]
  show ?thesis
  proof (cases "\<exists>j < length ?ds. dv_fits n (?ds ! j)")
    case True
    with best have i: "?i < length ?ds" "dv_fits n (?ds ! ?i)"
      "\<forall>j < length ?ds. dv_fits n (?ds ! j) \<longrightarrow> dv_used (?ds ! ?i) \<le> dv_used (?ds ! j)"
      "\<forall>j < ?i. dv_fits n (?ds ! j) \<longrightarrow> dv_used (?ds ! ?i) < dv_used (?ds ! j)"
      by (simp_all add: best_device_def)
    have rt: "r = \<lparr>pl_error = placement_error.NoError, pl_device = of_nat ?i\<rparr>"
      "t = dp_put model n ?i s"
      using assms i(1) by (auto simp: dp_place_def Let_def dp_put_def split: if_splits)
    have "dp_load s ?i < dp_load s j \<or> (dp_load s ?i = dp_load s j \<and> ?i \<le> j)"
      if "j < length ?ds" "dv_fits n (?ds ! j)" for j
      using i that used [of ?i j] by (cases "j < ?i") (auto simp: not_less)
    with True i(1,2) show ?thesis
      unfolding rt using fits unat_device_index [OF i(1) addr] dp_put_load [OF i(1) addr]
      by (auto simp: pl_ok_def Let_def)
  next
    case False
    with best have "?i = length ?ds" by (simp add: best_device_def)
    then have "pl_error r = placement_error.InsufficientMemory \<and> t = s"
      using assms by (auto simp: dp_place_def Let_def split: if_splits)
    with False fits show ?thesis by auto
  qed
qed

theorem place_picks_least_used_witness:
  "pl_device (fst (dp_place ''large'' 150 demo_devices)) = 1 \<and>
   pl_error (fst (dp_place ''another'' 70 demo_placed)) = placement_error.InsufficientMemory"
proof -
  have good: "dp_good demo_devices" "dp_good demo_placed"
    using dp_system.start_inv [OF demo_devices_start]
      dp_system.run_inv [OF demo_devices_start demo_placed_run] by simp_all
  have "unat (pl_device (fst (dp_place ''large'' 150 demo_devices))) = 1"
    using place_picks_least_used [OF good(1), of "''large''" 150, OF _ _ _ _ surjective_pairing]
    by (auto simp: demo_devices_def dp_load_def less_Suc_eq Let_def split: if_splits)
  moreover have "pl_error (fst (dp_place ''another'' 70 demo_placed)) =
      placement_error.InsufficientMemory"
    using place_picks_least_used [OF good(2), of "''another''" 70, OF _ _ _ _ surjective_pairing]
    by (auto simp: demo_placed_state dp_load_def less_Suc_eq Let_def split: if_splits)
  ultimately show ?thesis by (simp add: word_unat_eq_iff)
qed

text \<open>
  Releasing a model undoes its placement: in every reachable state, a placement
  followed by the release of the model restores the whole object and names the device.
\<close>

theorem place_release_roundtrip:
  assumes "dp_good s" and "dp_place model n s = (r, t)" and "pl_ok r"
  shows "dp_release model t = (r, s)"
  using assms(2)
proof (cases rule: place_cases)
  case (placed i)
  have take: "take_placement model (dp_placements t) =
      Some (\<lparr>pc_model = model, pc_device = of_nat i, pc_bytes = n\<rparr>, dp_placements s)"
    using placed(9) by (simp add: placed(2) dp_put_def take_placement_append)
  have "unat (of_nat i :: 32 word) = i"
    using assms(1) placed(3) by (simp add: dp_good_def unat_device_index)
  then have "dp_drop \<lparr>pc_model = model, pc_device = of_nat i, pc_bytes = n\<rparr> (dp_placements s) t = s"
    using placed(3) by (simp add: dp_drop_def placed dp_put_def list_update_same_conv)
  with take placed(1) show ?thesis by (simp add: dp_release_eq)
next
  case refused
  with assms(3) show ?thesis by simp
qed

theorem place_release_roundtrip_witness:
  "dp_release ''tiny'' (snd (dp_place ''tiny'' 20 demo_placed)) =
     (fst (dp_place ''tiny'' 20 demo_placed), demo_placed)"
proof (rule place_release_roundtrip [OF _ surjective_pairing])
  show "dp_good demo_placed"
    by (rule dp_system.run_inv [OF demo_devices_start demo_placed_run])
  show "pl_ok (fst (dp_place ''tiny'' 20 demo_placed))"
    by (simp add: demo_placed_state dp_place_def Let_def select_device.simps pl_ok_def)
qed

end
