(* ===== verification/NodeRegistry.thy ===== *)
theory NodeRegistry
  imports Prelude
begin

text \<open>
  The node registry (node_registry.hpp, node_registry.cpp): cluster nodes by identifier,
  with their capacity, reported use and health. Each public operation runs under the
  object's mutex and is one function on the map of nodes.
\<close>

section \<open>Data\<close>

datatype node_error =
    NoError
  | InvalidId
  | InvalidEndpoint
  | InvalidCapacity
  | DuplicateNode
  | UnknownNode

record node_operation_result =
  nop_error :: node_error
  nop_amount :: bytes

abbreviation nop_fail :: "node_error \<Rightarrow> node_operation_result" where
  "nop_fail e \<equiv> \<lparr>nop_error = e, nop_amount = 0\<rparr>"

abbreviation nop_done :: "bytes \<Rightarrow> node_operation_result" where
  "nop_done n \<equiv> \<lparr>nop_error = node_error.NoError, nop_amount = n\<rparr>"

definition nop_ok :: "node_operation_result \<Rightarrow> bool" where
  "nop_ok r \<longleftrightarrow> nop_error r = node_error.NoError"

record node_record =
  nd_id :: string
  nd_endpoint :: string
  nd_capacity :: bytes
  nd_used :: bytes
  nd_healthy :: bool

record node_snapshot =
  ns_nodes :: "node_record list"

record node_registry =
  nr_nodes :: "node_record umap"

definition nr_new :: node_registry where
  "nr_new = \<lparr>nr_nodes = []\<rparr>"

section \<open>Validation\<close>

text \<open>\<open>std::isalnum\<close> in the "C" locale the daemon runs in.\<close>

definition is_alnum :: "char \<Rightarrow> bool" where
  "is_alnum c \<longleftrightarrow> (CHR ''0'' \<le> c \<and> c \<le> CHR ''9'') \<or> (CHR ''A'' \<le> c \<and> c \<le> CHR ''Z'') \<or>
     (CHR ''a'' \<le> c \<and> c \<le> CHR ''z'')"

definition nr_valid_id :: "string \<Rightarrow> bool" where
  "nr_valid_id ident \<longleftrightarrow>
     (if ident = [] \<or> length ident > 64 then False
      else list_all (\<lambda>c. is_alnum c \<or> c = CHR ''_'' \<or> c = CHR ''-'' \<or> c = CHR ''.'') ident)"

definition nr_valid_endpoint :: "string \<Rightarrow> bool" where
  "nr_valid_endpoint endpoint \<longleftrightarrow>
     (if endpoint = [] \<or> length endpoint > 256 then False
      else list_all (\<lambda>c. of_char c > (32 :: nat) \<and> c \<noteq> CHR 0x0A) endpoint)"

section \<open>Operations\<close>

definition nr_register_node ::
  "string \<Rightarrow> string \<Rightarrow> bytes \<Rightarrow> node_registry \<Rightarrow> node_operation_result \<times> node_registry" where
  "nr_register_node ident endpoint capacity s =
     (if \<not> nr_valid_id ident then (nop_fail node_error.InvalidId, s)
      else if \<not> nr_valid_endpoint endpoint then (nop_fail node_error.InvalidEndpoint, s)
      else if capacity = 0 then (nop_fail node_error.InvalidCapacity, s)
      else if um_contains ident (nr_nodes s) then (nop_fail node_error.DuplicateNode, s)
      else (nop_done capacity,
            s\<lparr>nr_nodes := um_emplace ident \<lparr>nd_id = ident, nd_endpoint = endpoint,
                nd_capacity = capacity, nd_used = 0, nd_healthy = True\<rparr> (nr_nodes s)\<rparr>))"

definition nr_unregister_node ::
  "string \<Rightarrow> node_registry \<Rightarrow> node_operation_result \<times> node_registry" where
  "nr_unregister_node ident s =
     (if \<not> um_contains ident (nr_nodes s) then (nop_fail node_error.UnknownNode, s)
      else (nop_done 0, s\<lparr>nr_nodes := um_erase ident (nr_nodes s)\<rparr>))"

definition nr_update_usage ::
  "string \<Rightarrow> bytes \<Rightarrow> node_registry \<Rightarrow> node_operation_result \<times> node_registry" where
  "nr_update_usage ident used s =
     (case map_of (nr_nodes s) ident of
        None \<Rightarrow> (nop_fail node_error.UnknownNode, s)
      | Some node \<Rightarrow>
          if used > nd_capacity node then (nop_fail node_error.InvalidCapacity, s)
          else (nop_done used, s\<lparr>nr_nodes := um_put ident (node\<lparr>nd_used := used\<rparr>) (nr_nodes s)\<rparr>))"

definition nr_set_health ::
  "string \<Rightarrow> bool \<Rightarrow> node_registry \<Rightarrow> node_operation_result \<times> node_registry" where
  "nr_set_health ident healthy s =
     (case map_of (nr_nodes s) ident of
        None \<Rightarrow> (nop_fail node_error.UnknownNode, s)
      | Some node \<Rightarrow>
          (nop_done 0, s\<lparr>nr_nodes := um_put ident (node\<lparr>nd_healthy := healthy\<rparr>) (nr_nodes s)\<rparr>))"

definition nr_snapshot :: "node_registry \<Rightarrow> node_snapshot" where
  "nr_snapshot s = \<lparr>ns_nodes = sort_key nd_id (map snd (nr_nodes s))\<rparr>"

section \<open>The registry's invariant\<close>

definition node_ok :: "node_record \<Rightarrow> bool" where
  "node_ok node \<longleftrightarrow> nr_valid_id (nd_id node) \<and> nr_valid_endpoint (nd_endpoint node) \<and>
     nd_capacity node \<noteq> 0 \<and> nd_used node \<le> nd_capacity node"

definition nr_inv :: "node_registry \<Rightarrow> bool" where
  "nr_inv s \<longleftrightarrow> um_wf (nr_nodes s) \<and> um_all (\<lambda>k node. nd_id node = k \<and> node_ok node) (nr_nodes s)"

lemma nr_inv_entry: "nr_inv s \<Longrightarrow> map_of (nr_nodes s) k = Some node \<Longrightarrow> nd_id node = k \<and> node_ok node"
  unfolding nr_inv_def by (blast dest: um_allD)

lemma nr_inv_put:
  assumes "nr_inv s" and "nd_id node = k" and "node_ok node"
  shows "nr_inv (s\<lparr>nr_nodes := um_put k node (nr_nodes s)\<rparr>)"
  using assms by (simp add: nr_inv_def distinct_update um_all_put)

datatype nr_label =
    NRegister string string bytes
  | NUnregister string
  | NUsage string bytes
  | NHealth string bool

text \<open>One operation of the registry, by its label.\<close>

fun nr_apply :: "nr_label \<Rightarrow> node_registry \<Rightarrow> node_operation_result \<times> node_registry" where
  "nr_apply (NRegister ident endpoint n) s = nr_register_node ident endpoint n s"
| "nr_apply (NUnregister ident) s = nr_unregister_node ident s"
| "nr_apply (NUsage ident n) s = nr_update_usage ident n s"
| "nr_apply (NHealth ident b) s = nr_set_health ident b s"

definition nr_step :: "node_registry \<Rightarrow> nr_label \<Rightarrow> node_registry \<Rightarrow> bool" where
  "nr_step s e t \<longleftrightarrow> snd (nr_apply e s) = t"

lemma nr_register_inv: "nr_inv s \<Longrightarrow> nr_inv (snd (nr_register_node ident endpoint n s))"
  by (simp add: nr_register_node_def nr_inv_def node_ok_def um_all_emplace um_wf_emplace)

lemma nr_unregister_inv: "nr_inv s \<Longrightarrow> nr_inv (snd (nr_unregister_node ident s))"
  by (simp add: nr_unregister_node_def nr_inv_def um_all_erase um_wf_erase)

lemma nr_usage_inv: "nr_inv s \<Longrightarrow> nr_inv (snd (nr_update_usage ident n s))"
  by (auto simp: nr_update_usage_def node_ok_def not_less dest: nr_inv_entry
      intro!: nr_inv_put split: option.splits)

lemma nr_health_inv: "nr_inv s \<Longrightarrow> nr_inv (snd (nr_set_health ident b s))"
  by (auto simp: nr_set_health_def node_ok_def dest: nr_inv_entry
      intro!: nr_inv_put split: option.splits)

lemma nr_apply_inv: "nr_inv s \<Longrightarrow> nr_inv (snd (nr_apply e s))"
  by (cases e) (simp_all add: nr_register_inv nr_unregister_inv nr_usage_inv nr_health_inv)

interpretation nr_system: invariant_system "\<lambda>s. s = nr_new" nr_step nr_inv
proof unfold_locales
  show "s = nr_new \<Longrightarrow> nr_inv s" for s by (simp add: nr_new_def nr_inv_def)
  show "nr_step s e t \<Longrightarrow> nr_inv s \<Longrightarrow> nr_inv t" for s e t
    by (auto simp: nr_step_def nr_apply_inv)
qed

section \<open>Properties\<close>

text \<open>
  Every listing of the registry is sound. After any sequence of operations the
  snapshot lists each node once, sorted by identifier, each with a valid identifier and
  endpoint, a positive capacity and a reported use within it.
\<close>

theorem node_listing_sound:
  assumes "run nr_step nr_new es s"
  shows "let ns = ns_nodes (nr_snapshot s) in
    sorted (map nd_id ns) \<and> distinct (map nd_id ns) \<and> set (map nd_id ns) = um_keys (nr_nodes s) \<and>
    list_all node_ok ns"
proof -
  have inv: "nr_inv s" by (rule nr_system.run_inv [OF refl assms])
  then have keys: "um_all (\<lambda>k node. nd_id node = k) (nr_nodes s)" and wf: "um_wf (nr_nodes s)"
    and ok: "um_all (\<lambda>k node. node_ok node) (nr_nodes s)"
    by (auto simp: nr_inv_def um_all_def)
  have "list_all node_ok (ns_nodes (nr_snapshot s))"
    using um_all_entry [OF ok wf] by (auto simp: nr_snapshot_def list_all_iff)
  with um_listing [OF keys wf] show ?thesis by (simp add: nr_snapshot_def Let_def)
qed

theorem node_listing_sound_witness:
  "let s = snd (nr_register_node ''gpu-1'' ''host:70'' 100 nr_new) in
   run nr_step nr_new [NRegister ''gpu-1'' ''host:70'' 100] s \<and>
   map nd_id (ns_nodes (nr_snapshot s)) = [''gpu-1''] \<and> list_all node_ok (ns_nodes (nr_snapshot s))"
proof -
  let ?s = "snd (nr_register_node ''gpu-1'' ''host:70'' 100 nr_new)"
  have run: "run nr_step nr_new [NRegister ''gpu-1'' ''host:70'' 100] ?s"
    by (simp add: nr_step_def)
  have "map nd_id (ns_nodes (nr_snapshot ?s)) = [''gpu-1'']"
    by (simp add: nr_register_node_def nr_valid_id_def nr_valid_endpoint_def is_alnum_def
        um_contains_def um_emplace_def nr_new_def nr_snapshot_def)
  with run node_listing_sound [OF run] show ?thesis by (simp add: Let_def)
qed

text \<open>
  An operation on one node leaves the others alone. Whatever the operation, every other
  identifier keeps its record, a failed operation changes nothing, and a usage report is
  refused exactly when the node is unknown or the use exceeds its capacity.
\<close>

theorem node_operations_local:
  assumes "nr_apply e s = (r, t)"
  shows "(\<not> nop_ok r \<longrightarrow> t = s) \<and>
    (\<forall>k. k \<noteq> (case e of NRegister i _ _ \<Rightarrow> i | NUnregister i \<Rightarrow> i | NUsage i _ \<Rightarrow> i | NHealth i _ \<Rightarrow> i)
      \<longrightarrow> map_of (nr_nodes t) k = map_of (nr_nodes s) k) \<and>
    (\<forall>i n. e = NUsage i n \<longrightarrow>
      (nop_ok r \<longleftrightarrow> (\<exists>node. map_of (nr_nodes s) i = Some node \<and> n \<le> nd_capacity node \<and>
        map_of (nr_nodes t) i = Some (node\<lparr>nd_used := n\<rparr>))))"
  using assms
  by (cases e)
    (auto simp: nr_register_node_def nr_unregister_node_def nr_update_usage_def nr_set_health_def
      nop_ok_def map_of_um_emplace map_of_um_erase update_conv' not_less
      split: if_splits option.splits)

theorem node_operations_local_witness:
  "let s = snd (nr_register_node ''gpu-1'' ''host:70'' 100 nr_new) in
   \<not> nop_ok (fst (nr_update_usage ''gpu-1'' 101 s)) \<and>
   snd (nr_update_usage ''gpu-1'' 101 s) = s"
proof -
  let ?s = "snd (nr_register_node ''gpu-1'' ''host:70'' 100 nr_new)"
  have "\<not> nop_ok (fst (nr_update_usage ''gpu-1'' 101 ?s))"
    by (simp add: nr_register_node_def nr_valid_id_def nr_valid_endpoint_def is_alnum_def
        um_contains_def um_emplace_def nr_new_def nr_update_usage_def nop_ok_def)
  with node_operations_local [of "NUsage ''gpu-1'' 101" ?s, OF surjective_pairing]
  show ?thesis by (simp add: Let_def)
qed

end
