(* ===== verification/Metrics.thy ===== *)
theory Metrics
  imports Prelude
begin

text \<open>
  The daemon's counters (metrics.hpp, metrics.cpp), 64-bit and wrapping. Each operation
  runs under the object's mutex.
\<close>

section \<open>Data and operations\<close>

record metrics_snapshot =
  mt_requests :: "64 word"
  mt_successes :: "64 word"
  mt_failures :: "64 word"
  mt_acquires :: "64 word"
  mt_releases :: "64 word"
  mt_model_loads :: "64 word"
  mt_model_unloads :: "64 word"
  mt_acquired_bytes :: bytes
  mt_released_bytes :: bytes

record metrics =
  mt_snapshot :: metrics_snapshot

definition mt_new :: metrics where
  "mt_new = \<lparr>mt_snapshot = \<lparr>mt_requests = 0, mt_successes = 0, mt_failures = 0, mt_acquires = 0,
     mt_releases = 0, mt_model_loads = 0, mt_model_unloads = 0, mt_acquired_bytes = 0,
     mt_released_bytes = 0\<rparr>\<rparr>"

definition mt_record_request :: "bool \<Rightarrow> metrics \<Rightarrow> metrics" where
  "mt_record_request success s =
     (let c = mt_snapshot s; c1 = c\<lparr>mt_requests := mt_requests c + 1\<rparr>
      in s\<lparr>mt_snapshot := (if success then c1\<lparr>mt_successes := mt_successes c1 + 1\<rparr>
           else c1\<lparr>mt_failures := mt_failures c1 + 1\<rparr>)\<rparr>)"

definition mt_record_acquire :: "bool \<Rightarrow> bytes \<Rightarrow> metrics \<Rightarrow> metrics" where
  "mt_record_acquire success n s =
     (let c = mt_snapshot s; c1 = c\<lparr>mt_acquires := mt_acquires c + 1\<rparr>
      in s\<lparr>mt_snapshot := (if success then c1\<lparr>mt_acquired_bytes := mt_acquired_bytes c1 + n\<rparr>
           else c1)\<rparr>)"

definition mt_record_release :: "bool \<Rightarrow> bytes \<Rightarrow> metrics \<Rightarrow> metrics" where
  "mt_record_release success n s =
     (let c = mt_snapshot s; c1 = c\<lparr>mt_releases := mt_releases c + 1\<rparr>
      in s\<lparr>mt_snapshot := (if success then c1\<lparr>mt_released_bytes := mt_released_bytes c1 + n\<rparr>
           else c1)\<rparr>)"

definition mt_record_model_load :: "bool \<Rightarrow> metrics \<Rightarrow> metrics" where
  "mt_record_model_load success s =
     (let c = mt_snapshot s
      in s\<lparr>mt_snapshot := (if success then c\<lparr>mt_model_loads := mt_model_loads c + 1\<rparr> else c)\<rparr>)"

definition mt_record_model_unload :: "bool \<Rightarrow> metrics \<Rightarrow> metrics" where
  "mt_record_model_unload success s =
     (let c = mt_snapshot s
      in s\<lparr>mt_snapshot := (if success then c\<lparr>mt_model_unloads := mt_model_unloads c + 1\<rparr> else c)\<rparr>)"

definition mt_read :: "metrics \<Rightarrow> metrics_snapshot" where
  "mt_read s = mt_snapshot s"

section \<open>What the counters count\<close>

datatype mt_event =
    MtRequest bool
  | MtAcquire bool bytes
  | MtRelease bool bytes
  | MtLoad bool
  | MtUnload bool

fun mt_apply :: "mt_event \<Rightarrow> metrics \<Rightarrow> metrics" where
  "mt_apply (MtRequest b) = mt_record_request b"
| "mt_apply (MtAcquire b n) = mt_record_acquire b n"
| "mt_apply (MtRelease b n) = mt_record_release b n"
| "mt_apply (MtLoad b) = mt_record_model_load b"
| "mt_apply (MtUnload b) = mt_record_model_unload b"

lemmas mt_record_defs = mt_record_request_def mt_record_acquire_def mt_record_release_def
  mt_record_model_load_def mt_record_model_unload_def

text \<open>The events as unbounded counts, and the words they are kept in.\<close>

definition mt_count :: "(mt_event \<Rightarrow> nat) \<Rightarrow> mt_event list \<Rightarrow> 64 word" where
  "mt_count f es = of_nat (\<Sum>e \<leftarrow> es. f e)"

lemma mt_count_Nil [simp]: "mt_count f [] = 0"
  by (simp add: mt_count_def)

lemma mt_count_snoc [simp]: "mt_count f (es @ [e]) = mt_count f es + of_nat (f e)"
  by (simp add: mt_count_def)

text \<open>
  The metrics count what happened. After any sequence of events each counter is the
  number of the events it counts, and each byte total the sum of the successful ones, read
  modulo \<open>2 ^ 64\<close>; requests are successes plus failures at every moment.
\<close>

theorem metrics_count_events:
  "let c = mt_read (fold mt_apply es mt_new) in
   mt_successes c = mt_count (\<lambda>e. case e of MtRequest b \<Rightarrow> if b then 1 else 0 | _ \<Rightarrow> 0) es \<and>
   mt_failures c = mt_count (\<lambda>e. case e of MtRequest b \<Rightarrow> if b then 0 else 1 | _ \<Rightarrow> 0) es \<and>
   mt_requests c = mt_successes c + mt_failures c \<and>
   mt_acquires c = mt_count (\<lambda>e. case e of MtAcquire b n \<Rightarrow> 1 | _ \<Rightarrow> 0) es \<and>
   mt_releases c = mt_count (\<lambda>e. case e of MtRelease b n \<Rightarrow> 1 | _ \<Rightarrow> 0) es \<and>
   mt_model_loads c = mt_count (\<lambda>e. case e of MtLoad b \<Rightarrow> if b then 1 else 0 | _ \<Rightarrow> 0) es \<and>
   mt_model_unloads c = mt_count (\<lambda>e. case e of MtUnload b \<Rightarrow> if b then 1 else 0 | _ \<Rightarrow> 0) es \<and>
   mt_acquired_bytes c = mt_count (\<lambda>e. case e of MtAcquire b n \<Rightarrow> if b then unat n else 0 | _ \<Rightarrow> 0) es \<and>
   mt_released_bytes c = mt_count (\<lambda>e. case e of MtRelease b n \<Rightarrow> if b then unat n else 0 | _ \<Rightarrow> 0) es"
proof (induction es rule: rev_induct)
  case Nil
  show ?case by (simp add: mt_read_def mt_new_def Let_def)
next
  case (snoc e es)
  then show ?case
    by (cases e) (auto simp: mt_read_def mt_record_defs Let_def)
qed

end
