(* ===== verification/Backend.thy ===== *)
theory Backend
  imports Prelude
begin

text \<open>
  The accelerator backend: the abstract class \<open>AcceleratorBackend\<close>
  (accelerator_backend.hpp) as a record of its virtual functions over a state of any type,
  the contract its users rely on as a locale, and the in-memory \<open>MockBackend\<close>
  (mock_backend.hpp, mock_backend.cpp) as the implementation that meets it.
\<close>

section \<open>The abstract class\<close>

datatype backend_error =
    NoError
  | InvalidModelId
  | InvalidSize
  | AlreadyLoaded
  | NotLoaded
  | DeviceUnavailable
  | AllocationFailed
  | RuntimeFailure
  | Unsupported

record backend_operation_result =
  bo_error :: backend_error
  bo_amount :: bytes

abbreviation bo_fail :: "backend_error \<Rightarrow> backend_operation_result" where
  "bo_fail e \<equiv> \<lparr>bo_error = e, bo_amount = 0\<rparr>"

abbreviation bo_done :: "bytes \<Rightarrow> backend_operation_result" where
  "bo_done n \<equiv> \<lparr>bo_error = backend_error.NoError, bo_amount = n\<rparr>"

definition bo_ok :: "backend_operation_result \<Rightarrow> bool" where
  "bo_ok r \<longleftrightarrow> bo_error r = backend_error.NoError"

record backend_allocation =
  ba_id :: string
  ba_bytes :: bytes

record backend_snapshot =
  bs_allocations :: "backend_allocation list"

record backend_share_result =
  sh_error :: backend_error
  sh_amount :: bytes
  sh_token :: string

definition sh_ok :: "backend_share_result \<Rightarrow> bool" where
  "sh_ok r \<longleftrightarrow> sh_error r = backend_error.NoError"

type_synonym file_data = "8 word list"

record 'b accelerator_backend =
  bk_load :: "string \<Rightarrow> bytes \<Rightarrow> 'b \<Rightarrow> backend_operation_result \<times> 'b"
  bk_load_data :: "string \<Rightarrow> file_data \<Rightarrow> 'b \<Rightarrow> backend_operation_result \<times> 'b"
  bk_unload :: "string \<Rightarrow> 'b \<Rightarrow> backend_operation_result \<times> 'b"
  bk_share :: "string \<Rightarrow> 'b \<Rightarrow> backend_share_result \<times> 'b"
  bk_is_loaded :: "string \<Rightarrow> 'b \<Rightarrow> bool"
  bk_snapshot :: "'b \<Rightarrow> backend_snapshot"

section \<open>The contract\<close>

text \<open>
  What a user of a backend may rely on, in terms of the bytes it holds per model: loading
  adds exactly one new model of the given size or changes nothing, unloading removes
  exactly one or changes nothing, sharing and the queries change nothing.
\<close>

locale backend =
  fixes B :: "'b accelerator_backend"
    and binv :: "'b \<Rightarrow> bool"
    and held :: "'b \<Rightarrow> string \<Rightarrow> bytes option"
  assumes load_inv: "binv b \<Longrightarrow> binv (snd (bk_load B k n b))"
    and load_data_inv: "binv b \<Longrightarrow> binv (snd (bk_load_data B k xs b))"
    and unload_inv: "binv b \<Longrightarrow> binv (snd (bk_unload B k b))"
    and share_inv: "binv b \<Longrightarrow> binv (snd (bk_share B k b))"
    and load_held: "binv b \<Longrightarrow> held (snd (bk_load B k n b)) =
      (if bo_ok (fst (bk_load B k n b)) then (held b)(k \<mapsto> n) else held b)"
    and load_new: "binv b \<Longrightarrow> bo_ok (fst (bk_load B k n b)) \<Longrightarrow> held b k = None"
    and load_data_held: "binv b \<Longrightarrow> held (snd (bk_load_data B k xs b)) =
      (if bo_ok (fst (bk_load_data B k xs b)) then (held b)(k \<mapsto> of_nat (length xs)) else held b)"
    and load_data_new: "binv b \<Longrightarrow> bo_ok (fst (bk_load_data B k xs b)) \<Longrightarrow> held b k = None"
    and unload_held: "binv b \<Longrightarrow> held (snd (bk_unload B k b)) =
      (if bo_ok (fst (bk_unload B k b)) then (held b)(k := None) else held b)"
    and share_held: "binv b \<Longrightarrow> held (snd (bk_share B k b)) = held b"
    and is_loaded_held: "binv b \<Longrightarrow> bk_is_loaded B k b \<longleftrightarrow> held b k \<noteq> None"

text \<open>A backend whose unload never fails on a model it holds.\<close>

locale reliable_backend = backend +
  assumes unload_ok: "binv b \<Longrightarrow> held b k \<noteq> None \<Longrightarrow> bo_ok (fst (bk_unload B k b))"
begin

lemma unload_removes:
  assumes "binv b"
  shows "held (snd (bk_unload B k b)) = (held b)(k := None)"
proof (cases "held b k")
  case None
  then have "(held b)(k := None) = held b" by (rule fun_upd_idem)
  with unload_held [OF assms, of k] show ?thesis by simp
next
  case (Some n)
  with unload_held [OF assms, of k] unload_ok [OF assms, of k] show ?thesis by simp
qed

lemma load_unload:
  assumes "binv b" and "bo_ok (fst (bk_load B k n b))"
  shows "held (snd (bk_unload B k (snd (bk_load B k n b)))) = held b"
  using assms by (auto simp: unload_removes load_inv load_held load_new fun_upd_idem_iff)

lemma load_data_unload:
  assumes "binv b" and "bo_ok (fst (bk_load_data B k xs b))"
  shows "held (snd (bk_unload B k (snd (bk_load_data B k xs b)))) = held b"
  using assms by (auto simp: unload_removes load_data_inv load_data_held load_data_new fun_upd_idem_iff)

lemma fold_unload:
  "binv b \<Longrightarrow> binv (fold (\<lambda>k. snd \<circ> bk_unload B k) ks b) \<and>
   held (fold (\<lambda>k. snd \<circ> bk_unload B k) ks b) = (held b) |` (- set ks)"
proof (induction ks arbitrary: b)
  case (Cons k ks)
  have "binv (snd (bk_unload B k b))" using Cons.prems by (rule unload_inv)
  from Cons.IH [OF this] show ?case
    by (simp add: unload_removes [OF Cons.prems] restrict_fun_upd Compl_insert)
      (auto simp: restrict_map_def)
qed (simp add: restrict_map_def)

end

section \<open>The mock backend\<close>

record mock_backend =
  mk_allocations :: "bytes umap"

definition mk_new :: mock_backend where
  "mk_new = \<lparr>mk_allocations = []\<rparr>"

definition mk_valid_id :: "string \<Rightarrow> bool" where
  "mk_valid_id ident \<longleftrightarrow>
     (if ident = [] \<or> length ident > 64 then False
      else list_all (\<lambda>c.
        (let letter = (CHR ''a'' \<le> c \<and> c \<le> CHR ''z'') \<or> (CHR ''A'' \<le> c \<and> c \<le> CHR ''Z'');
             digit = (CHR ''0'' \<le> c \<and> c \<le> CHR ''9'')
         in letter \<or> digit \<or> c = CHR ''_'' \<or> c = CHR ''-'' \<or> c = CHR ''.'')) ident)"

definition mk_load ::
  "string \<Rightarrow> bytes \<Rightarrow> mock_backend \<Rightarrow> backend_operation_result \<times> mock_backend" where
  "mk_load ident n b =
     (if \<not> mk_valid_id ident then (bo_fail backend_error.InvalidModelId, b)
      else if n = 0 then (bo_fail backend_error.InvalidSize, b)
      else if um_contains ident (mk_allocations b) then (bo_fail backend_error.AlreadyLoaded, b)
      else (bo_done n, b\<lparr>mk_allocations := um_emplace ident n (mk_allocations b)\<rparr>))"

definition mk_load_data ::
  "string \<Rightarrow> file_data \<Rightarrow> mock_backend \<Rightarrow> backend_operation_result \<times> mock_backend" where
  "mk_load_data ident xs b = mk_load ident (of_nat (length xs)) b"

definition mk_unload ::
  "string \<Rightarrow> mock_backend \<Rightarrow> backend_operation_result \<times> mock_backend" where
  "mk_unload ident b =
     (if \<not> mk_valid_id ident then (bo_fail backend_error.InvalidModelId, b)
      else case map_of (mk_allocations b) ident of
        None \<Rightarrow> (bo_fail backend_error.NotLoaded, b)
      | Some n \<Rightarrow> (bo_done n, b\<lparr>mk_allocations := um_erase ident (mk_allocations b)\<rparr>))"

definition mk_share ::
  "string \<Rightarrow> mock_backend \<Rightarrow> backend_share_result \<times> mock_backend" where
  "mk_share ident b = (\<lparr>sh_error = backend_error.Unsupported, sh_amount = 0, sh_token = []\<rparr>, b)"

definition mk_is_loaded :: "string \<Rightarrow> mock_backend \<Rightarrow> bool" where
  "mk_is_loaded ident b \<longleftrightarrow> um_contains ident (mk_allocations b)"

definition mk_snapshot :: "mock_backend \<Rightarrow> backend_snapshot" where
  "mk_snapshot b =
     \<lparr>bs_allocations = map (\<lambda>(k, n). \<lparr>ba_id = k, ba_bytes = n\<rparr>) (um_sorted (mk_allocations b))\<rparr>"

text \<open>The virtual function table of the class.\<close>

definition mock_ops :: "mock_backend accelerator_backend" where
  "mock_ops = \<lparr>bk_load = mk_load, bk_load_data = mk_load_data, bk_unload = mk_unload,
     bk_share = mk_share, bk_is_loaded = mk_is_loaded, bk_snapshot = mk_snapshot\<rparr>"

lemma mock_ops_simps [simp]:
  "bk_load mock_ops = mk_load" "bk_load_data mock_ops = mk_load_data"
  "bk_unload mock_ops = mk_unload" "bk_share mock_ops = mk_share"
  "bk_is_loaded mock_ops = mk_is_loaded" "bk_snapshot mock_ops = mk_snapshot"
  by (simp_all add: mock_ops_def)

definition mk_inv :: "mock_backend \<Rightarrow> bool" where
  "mk_inv b \<longleftrightarrow> um_wf (mk_allocations b) \<and> um_all (\<lambda>k n. mk_valid_id k \<and> n \<noteq> 0) (mk_allocations b)"

definition mk_held :: "mock_backend \<Rightarrow> string \<Rightarrow> bytes option" where
  "mk_held b = map_of (mk_allocations b)"

lemma mk_load_ok:
  "bo_ok (fst (mk_load k n b)) \<longleftrightarrow> mk_valid_id k \<and> n \<noteq> 0 \<and> mk_held b k = None"
  by (simp add: mk_load_def bo_ok_def mk_held_def um_contains_def)

lemma mk_load_held:
  "mk_held (snd (mk_load k n b)) = (if bo_ok (fst (mk_load k n b)) then (mk_held b)(k \<mapsto> n) else mk_held b)"
  by (simp add: mk_load_def bo_ok_def mk_held_def map_of_um_emplace)

lemma mk_load_inv: "mk_inv b \<Longrightarrow> mk_inv (snd (mk_load k n b))"
  by (simp add: mk_load_def mk_inv_def um_all_emplace um_wf_emplace)

lemma mk_unload_ok: "mk_inv b \<Longrightarrow> bo_ok (fst (mk_unload k b)) \<longleftrightarrow> mk_held b k \<noteq> None"
  by (auto simp: mk_unload_def bo_ok_def mk_held_def mk_inv_def dest: um_allD split: option.splits)

lemma mk_unload_held:
  "mk_held (snd (mk_unload k b)) = (if bo_ok (fst (mk_unload k b)) then (mk_held b)(k := None) else mk_held b)"
  by (auto simp: mk_unload_def bo_ok_def mk_held_def map_of_um_erase split: option.splits)

lemma mk_unload_inv: "mk_inv b \<Longrightarrow> mk_inv (snd (mk_unload k b))"
  by (auto simp: mk_unload_def mk_inv_def um_all_erase um_wf_erase split: option.splits)

interpretation mock: reliable_backend mock_ops mk_inv mk_held
  by unfold_locales
    (simp_all add: mk_load_inv mk_unload_inv mk_load_held mk_unload_held mk_load_data_def mk_share_def
      mk_load_ok mk_unload_ok mk_is_loaded_def um_contains_def, simp_all add: mk_held_def)

end
