(* ===== verification/ModelLoader.thy ===== *)
theory ModelLoader
  imports Backend
begin

text \<open>
  The model loader (model_loader.hpp, model_loader.cpp): reads a model file whose size was
  recorded at registration. The file system is an environment the code does not control:
  every call the code makes to it is a function of a record, and nothing relates the
  answers of different calls, so a file may change between them.
\<close>

section \<open>The file system as the code sees it\<close>

text \<open>
  \<open>fs_is_regular\<close> and \<open>fs_size\<close> are \<open>std::filesystem::is_regular_file\<close> and \<open>file_size\<close>,
  the boolean saying whether \<open>std::error_code\<close> was set; \<open>fs_open\<close> whether the
  \<open>std::ifstream\<close> opened; \<open>fs_read\<close> the bytes \<open>read\<close> of the given count delivered and
  whether the stream is still good.
\<close>

record file_system =
  fs_is_regular :: "string \<Rightarrow> bool \<times> bool"
  fs_size :: "string \<Rightarrow> 64 word \<times> bool"
  fs_open :: "string \<Rightarrow> bool"
  fs_read :: "string \<Rightarrow> nat \<Rightarrow> file_data \<times> bool"

section \<open>Data and operation\<close>

datatype model_load_error =
    NoError
  | Unavailable
  | SourceChanged
  | ReadFailure

record model_load_result =
  ml_error :: model_load_error
  ml_data :: file_data

abbreviation ml_fail :: "model_load_error \<Rightarrow> model_load_result" where
  "ml_fail e \<equiv> \<lparr>ml_error = e, ml_data = []\<rparr>"

definition ml_ok :: "model_load_result \<Rightarrow> bool" where
  "ml_ok r \<longleftrightarrow> ml_error r = model_load_error.NoError"

text \<open>\<open>gcount()\<close> is the number of bytes delivered; \<open>std::size_t\<close> has 64 bits.\<close>

definition loader_load :: "file_system \<Rightarrow> string \<Rightarrow> bytes \<Rightarrow> model_load_result" where
  "loader_load fs path expected_bytes =
     (if path = [] \<or> expected_bytes = 0 then ml_fail model_load_error.Unavailable
      else let (regular, status_error) = fs_is_regular fs path in
      if \<not> regular \<or> status_error then ml_fail model_load_error.Unavailable
      else let (file_size, status_error) = fs_size fs path in
      if status_error \<or> file_size \<noteq> expected_bytes \<or> unat file_size > u64_max then
        ml_fail (if status_error then model_load_error.Unavailable
                 else model_load_error.SourceChanged)
      else if \<not> fs_open fs path then ml_fail model_load_error.ReadFailure
      else let (data, good) = fs_read fs path (unat file_size) in
      if \<not> good \<or> length data \<noteq> unat file_size then ml_fail model_load_error.ReadFailure
      else \<lparr>ml_error = model_load_error.NoError, ml_data = data\<rparr>)"

text \<open>Whatever the file system answers, a successful load delivers the bytes expected.\<close>

lemma loader_load_ok:
  assumes "ml_ok (loader_load fs path n)"
  shows "length (ml_data (loader_load fs path n)) = unat n" and "path \<noteq> []" and "n \<noteq> 0"
    and "fst (fs_is_regular fs path)" and "fs_size fs path = (n, False)"
  using assms
  by (auto simp: loader_load_def ml_ok_def Let_def split: if_splits prod.splits)

lemma loader_load_fail: "\<not> ml_ok (loader_load fs path n) \<Longrightarrow> ml_data (loader_load fs path n) = []"
  by (auto simp: loader_load_def ml_ok_def Let_def split: if_splits prod.splits)

section \<open>Properties\<close>

text \<open>
  The loader never hands out a file of another size. Under any behaviour of the file
  system, including a file that changes between the checks and the read, a successful
  load returns exactly the recorded number of bytes, read from a regular file that
  reported this size; a failed load returns no data, and a size that differs is reported
  as \<open>SourceChanged\<close>.
\<close>

theorem loader_delivers_recorded_size:
  "let r = loader_load fs path n in
   if ml_ok r
   then length (ml_data r) = unat n \<and> ml_data r = fst (fs_read fs path (unat n)) \<and>
     fs_size fs path = (n, False) \<and> fs_is_regular fs path = (True, False)
   else ml_data r = [] \<and>
     (ml_error r = model_load_error.SourceChanged \<longleftrightarrow>
       path \<noteq> [] \<and> n \<noteq> 0 \<and> fs_is_regular fs path = (True, False) \<and>
       snd (fs_size fs path) = False \<and> fst (fs_size fs path) \<noteq> n)"
proof -
  have "\<not> u64_max < unat m" for m :: bytes
    using unat_le_u64_max [of m] by simp
  then show ?thesis
    by (auto simp: loader_load_def ml_ok_def Let_def split: prod.splits)
qed

text \<open>The file system of the witness: one regular file of three bytes.\<close>

definition demo_fs :: file_system where
  "demo_fs = \<lparr>fs_is_regular = (\<lambda>p. (p = ''/m'', False)), fs_size = (\<lambda>p. (3, False)),
     fs_open = (\<lambda>p. True), fs_read = (\<lambda>p n. (take n [7, 8, 9], n \<le> 3))\<rparr>"

theorem loader_delivers_recorded_size_witness:
  "ml_ok (loader_load demo_fs ''/m'' 3) \<and> length (ml_data (loader_load demo_fs ''/m'' 3)) = 3 \<and>
   ml_error (loader_load demo_fs ''/m'' 4) = model_load_error.SourceChanged"
proof -
  have "ml_ok (loader_load demo_fs ''/m'' 3)" "\<not> ml_ok (loader_load demo_fs ''/m'' 4)"
    by (simp_all add: loader_load_def demo_fs_def ml_ok_def u64_max_def)
  then show ?thesis
    using loader_delivers_recorded_size [of demo_fs "''/m''" 3]
      loader_delivers_recorded_size [of demo_fs "''/m''" 4]
    by (simp add: Let_def) (simp add: demo_fs_def)
qed

end
