(* ===== verification/ModelRegistry.thy ===== *)
theory ModelRegistry
  imports ModelLoader
begin

text \<open>
  The model registry (model_registry.hpp, model_registry.cpp): the models known to the
  daemon, their size and metadata, and their reference counts. Each public operation runs
  under the object's mutex and is one function on the record of its fields.
\<close>

section \<open>Data\<close>

datatype model_error =
    NoError
  | InvalidId
  | InvalidMetadata
  | InvalidSize
  | DuplicateModel
  | UnknownModel
  | ModelInUse
  | RefcountUnderflow
  | UnknownResidency
  | InsufficientMemory
  | BackendFailure
  | InvalidPath
  | FileUnavailable
  | SourceChanged
  | ReadFailure
  | BackendUnsupported

record model_operation_result =
  mo_error :: model_error
  mo_amount :: bytes

abbreviation mo_fail :: "model_error \<Rightarrow> model_operation_result" where
  "mo_fail e \<equiv> \<lparr>mo_error = e, mo_amount = 0\<rparr>"

abbreviation mo_done :: "bytes \<Rightarrow> model_operation_result" where
  "mo_done n \<equiv> \<lparr>mo_error = model_error.NoError, mo_amount = n\<rparr>"

definition mo_ok :: "model_operation_result \<Rightarrow> bool" where
  "mo_ok r \<longleftrightarrow> mo_error r = model_error.NoError"

record model_record =
  md_id :: string
  md_metadata :: string
  md_footprint :: bytes
  md_ref_count :: "64 word"
  md_last_access :: "64 word"
  md_source_path :: string

record model_snapshot =
  ms_models :: "model_record list"

record model_registry =
  mr_models :: "model_record umap"
  mr_next_access :: "64 word"

definition mr_new :: model_registry where
  "mr_new = \<lparr>mr_models = [], mr_next_access = 0\<rparr>"

section \<open>Validation\<close>

definition mr_valid_id :: "string \<Rightarrow> bool" where
  "mr_valid_id ident \<longleftrightarrow>
     (if ident = [] \<or> length ident > 64 then False
      else list_all (\<lambda>c.
        (let letter = (CHR ''a'' \<le> c \<and> c \<le> CHR ''z'') \<or> (CHR ''A'' \<le> c \<and> c \<le> CHR ''Z'');
             digit = (CHR ''0'' \<le> c \<and> c \<le> CHR ''9'')
         in letter \<or> digit \<or> c = CHR ''_'' \<or> c = CHR ''-'' \<or> c = CHR ''.'')) ident)"

definition mr_valid_metadata :: "string \<Rightarrow> bool" where
  "mr_valid_metadata metadata \<longleftrightarrow>
     (if metadata = [] \<or> length metadata > 128 then False
      else list_all (\<lambda>c.
        (let v = (of_char c :: nat)
         in v < 128 \<and> v \<ge> 32 \<and> v \<noteq> 127 \<and> c \<noteq> CHR '' '' \<and> c \<noteq> CHR 0x09 \<and> c \<noteq> CHR 0x0A \<and>
            c \<noteq> CHR 0x0D \<and> c \<noteq> CHR 0x0C \<and> c \<noteq> CHR 0x0B)) metadata)"

definition mr_valid_path :: "string \<Rightarrow> bool" where
  "mr_valid_path path \<longleftrightarrow>
     (if path = [] \<or> length path > 4096 then False
      else list_all (\<lambda>c.
        (let v = (of_char c :: nat)
         in v \<ge> 32 \<and> v \<noteq> 127 \<and> c \<noteq> CHR 0x0A \<and> c \<noteq> CHR 0x0D \<and> c \<noteq> CHR 0x09)) path)"

section \<open>Operations\<close>

definition mr_register_model ::
  "string \<Rightarrow> bytes \<Rightarrow> string \<Rightarrow> model_registry \<Rightarrow> model_operation_result \<times> model_registry" where
  "mr_register_model ident footprint metadata s =
     (if \<not> mr_valid_id ident then (mo_fail model_error.InvalidId, s)
      else if footprint = 0 then (mo_fail model_error.InvalidSize, s)
      else if \<not> mr_valid_metadata metadata then (mo_fail model_error.InvalidMetadata, s)
      else if um_contains ident (mr_models s) then (mo_fail model_error.DuplicateModel, s)
      else (mo_done footprint,
            s\<lparr>mr_models := um_emplace ident \<lparr>md_id = ident, md_metadata = metadata,
                md_footprint = footprint, md_ref_count = 0, md_last_access = 0,
                md_source_path = []\<rparr> (mr_models s)\<rparr>))"

definition mr_register_file ::
  "file_system \<Rightarrow> string \<Rightarrow> string \<Rightarrow> string \<Rightarrow> model_registry \<Rightarrow>
   model_operation_result \<times> model_registry" where
  "mr_register_file fs ident path metadata s =
     (if \<not> mr_valid_id ident then (mo_fail model_error.InvalidId, s)
      else if \<not> mr_valid_path path then (mo_fail model_error.InvalidPath, s)
      else if \<not> mr_valid_metadata metadata then (mo_fail model_error.InvalidMetadata, s)
      else let (regular, status_error) = fs_is_regular fs path in
      if \<not> regular \<or> status_error then (mo_fail model_error.FileUnavailable, s)
      else let (file_size, status_error) = fs_size fs path in
      if status_error \<or> file_size = 0 \<or> unat file_size > u64_max
        then (mo_fail model_error.FileUnavailable, s)
      else if um_contains ident (mr_models s) then (mo_fail model_error.DuplicateModel, s)
      else (mo_done file_size,
            s\<lparr>mr_models := um_emplace ident \<lparr>md_id = ident, md_metadata = metadata,
                md_footprint = file_size, md_ref_count = 0, md_last_access = 0,
                md_source_path = path\<rparr> (mr_models s)\<rparr>))"

definition mr_unregister_model ::
  "string \<Rightarrow> model_registry \<Rightarrow> model_operation_result \<times> model_registry" where
  "mr_unregister_model ident s =
     (if \<not> mr_valid_id ident then (mo_fail model_error.InvalidId, s)
      else case map_of (mr_models s) ident of
        None \<Rightarrow> (mo_fail model_error.UnknownModel, s)
      | Some record \<Rightarrow>
          if md_ref_count record \<noteq> 0 then (mo_fail model_error.ModelInUse, s)
          else (mo_done 0, s\<lparr>mr_models := um_erase ident (mr_models s)\<rparr>))"

definition mr_retain ::
  "string \<Rightarrow> model_registry \<Rightarrow> model_operation_result \<times> model_registry" where
  "mr_retain ident s =
     (if \<not> mr_valid_id ident then (mo_fail model_error.InvalidId, s)
      else case map_of (mr_models s) ident of
        None \<Rightarrow> (mo_fail model_error.UnknownModel, s)
      | Some record \<Rightarrow>
          (let record' = record\<lparr>md_ref_count := md_ref_count record + 1,
                 md_last_access := mr_next_access s + 1\<rparr>
           in (mo_done (md_ref_count record'),
               s\<lparr>mr_models := um_put ident record' (mr_models s),
                 mr_next_access := mr_next_access s + 1\<rparr>)))"

definition mr_release_model ::
  "string \<Rightarrow> model_registry \<Rightarrow> model_operation_result \<times> model_registry" where
  "mr_release_model ident s =
     (if \<not> mr_valid_id ident then (mo_fail model_error.InvalidId, s)
      else case map_of (mr_models s) ident of
        None \<Rightarrow> (mo_fail model_error.UnknownModel, s)
      | Some record \<Rightarrow>
          if md_ref_count record = 0 then (mo_fail model_error.RefcountUnderflow, s)
          else
            (let record' = record\<lparr>md_ref_count := md_ref_count record - 1,
                   md_last_access := mr_next_access s + 1\<rparr>
             in (mo_done (md_ref_count record'),
                 s\<lparr>mr_models := um_put ident record' (mr_models s),
                   mr_next_access := mr_next_access s + 1\<rparr>)))"

definition mr_snapshot :: "model_registry \<Rightarrow> model_snapshot" where
  "mr_snapshot s = \<lparr>ms_models = sort_key md_id (map snd (mr_models s))\<rparr>"

section \<open>The registry's invariant\<close>

definition model_ok :: "model_record \<Rightarrow> bool" where
  "model_ok m \<longleftrightarrow> mr_valid_id (md_id m) \<and> md_footprint m \<noteq> 0 \<and> mr_valid_metadata (md_metadata m) \<and>
     (md_source_path m = [] \<or> mr_valid_path (md_source_path m))"

definition mr_inv :: "model_registry \<Rightarrow> bool" where
  "mr_inv s \<longleftrightarrow> um_wf (mr_models s) \<and> um_all (\<lambda>k m. md_id m = k \<and> model_ok m) (mr_models s)"

lemma mr_inv_entry: "mr_inv s \<Longrightarrow> map_of (mr_models s) k = Some m \<Longrightarrow> md_id m = k \<and> model_ok m"
  unfolding mr_inv_def by (blast dest: um_allD)

lemma mr_inv_new [simp]: "mr_inv mr_new"
  by (simp add: mr_inv_def mr_new_def)

lemma mr_inv_put:
  assumes "mr_inv s" and "md_id m = k" and "model_ok m"
  shows "mr_inv (s\<lparr>mr_models := um_put k m (mr_models s), mr_next_access := a\<rparr>)"
  using assms by (simp add: mr_inv_def distinct_update um_all_put)

lemma mr_register_model_inv: "mr_inv s \<Longrightarrow> mr_inv (snd (mr_register_model k n md s))"
  by (simp add: mr_register_model_def mr_inv_def model_ok_def um_all_emplace um_wf_emplace)

lemma mr_register_file_inv: "mr_inv s \<Longrightarrow> mr_inv (snd (mr_register_file fs k p md s))"
  by (simp add: mr_register_file_def mr_inv_def model_ok_def um_all_emplace um_wf_emplace Let_def
      split: prod.split)

lemma mr_unregister_inv: "mr_inv s \<Longrightarrow> mr_inv (snd (mr_unregister_model k s))"
  by (simp add: mr_unregister_model_def mr_inv_def um_all_erase um_wf_erase split: option.split)

lemma mr_retain_inv: "mr_inv s \<Longrightarrow> mr_inv (snd (mr_retain k s))"
  by (auto simp: mr_retain_def Let_def model_ok_def dest: mr_inv_entry intro!: mr_inv_put
      split: option.split)

lemma mr_release_inv: "mr_inv s \<Longrightarrow> mr_inv (snd (mr_release_model k s))"
  by (auto simp: mr_release_model_def Let_def model_ok_def dest: mr_inv_entry intro!: mr_inv_put
      split: option.split)

lemma mr_snapshot_set:
  assumes "mr_inv s"
  shows "m \<in> set (ms_models (mr_snapshot s)) \<longleftrightarrow> map_of (mr_models s) (md_id m) = Some m"
proof -
  have wf: "um_wf (mr_models s)" and all: "um_all (\<lambda>k m. md_id m = k) (mr_models s)"
    using assms by (auto simp: mr_inv_def um_all_def)
  have "m \<in> set (ms_models (mr_snapshot s)) \<longleftrightarrow> (\<exists>k. (k, m) \<in> set (mr_models s))"
    by (force simp: mr_snapshot_def)
  also have "\<dots> \<longleftrightarrow> (md_id m, m) \<in> set (mr_models s)"
    using um_all_entry [OF all wf] by metis
  finally show ?thesis using wf by simp
qed

section \<open>Reference counts\<close>

datatype mr_label =
    RRegister string bytes string
  | RFile file_system string string string
  | RUnregister string
  | RRetain string
  | RRelease string

text \<open>One operation of the registry, by its label, and a sequence of them with the outcomes.\<close>

fun mr_apply :: "mr_label \<Rightarrow> model_registry \<Rightarrow> model_operation_result \<times> model_registry" where
  "mr_apply (RRegister k n md) s = mr_register_model k n md s"
| "mr_apply (RFile fs k p md) s = mr_register_file fs k p md s"
| "mr_apply (RUnregister k) s = mr_unregister_model k s"
| "mr_apply (RRetain k) s = mr_retain k s"
| "mr_apply (RRelease k) s = mr_release_model k s"

fun mr_exec :: "mr_label list \<Rightarrow> model_registry \<Rightarrow> (mr_label \<times> bool) list \<times> model_registry" where
  "mr_exec [] s = ([], s)"
| "mr_exec (e # es) s =
     (let (r, t) = mr_apply e s; (h, u) = mr_exec es t in ((e, mo_ok r) # h, u))"

text \<open>
  The specification: which models are registered, with unbounded reference counts, as the
  history of the successful operations determines them.
\<close>

type_synonym ref_counts = "string \<Rightarrow> nat option"

fun refs_step :: "mr_label \<times> bool \<Rightarrow> ref_counts \<Rightarrow> ref_counts" where
  "refs_step (e, False) f = f"
| "refs_step (RRegister k n md, True) f = f(k \<mapsto> 0)"
| "refs_step (RFile fs k p md, True) f = f(k \<mapsto> 0)"
| "refs_step (RUnregister k, True) f = f(k := None)"
| "refs_step (RRetain k, True) f = f(k := map_option Suc (f k))"
| "refs_step (RRelease k, True) f = f(k := map_option (\<lambda>n. n - 1) (f k))"

definition mr_refs :: "model_registry \<Rightarrow> ref_counts" where
  "mr_refs s k = map_option (\<lambda>m. unat (md_ref_count m)) (map_of (mr_models s) k)"

definition refs_below :: "nat \<Rightarrow> model_registry \<Rightarrow> bool" where
  "refs_below b s \<longleftrightarrow> (\<forall>k n. mr_refs s k = Some n \<longrightarrow> n < b)"

lemma mr_apply_inv: "mr_inv s \<Longrightarrow> mr_inv (snd (mr_apply e s))"
  by (cases e) (simp_all add: mr_register_model_inv mr_register_file_inv mr_unregister_inv
      mr_retain_inv mr_release_inv)

lemma mr_refs_emplace:
  "\<not> um_contains k (mr_models s) \<Longrightarrow>
   mr_refs (s\<lparr>mr_models := um_emplace k m (mr_models s)\<rparr>) = (mr_refs s)(k \<mapsto> unat (md_ref_count m))"
  by (rule ext) (simp add: mr_refs_def map_of_um_emplace)

lemma mr_refs_put:
  "mr_refs (s\<lparr>mr_models := um_put k m (mr_models s), mr_next_access := a\<rparr>) =
   (mr_refs s)(k \<mapsto> unat (md_ref_count m))"
  by (rule ext) (simp add: mr_refs_def update_conv')

lemma retain_refs:
  assumes "mr_inv s" and "refs_below b s" and "b < 2 ^ 64" and "mr_retain k s = (r, t)"
  shows "mo_ok r \<longleftrightarrow> mr_refs s k \<noteq> None"
    and "mo_ok r \<Longrightarrow> mr_refs t = (mr_refs s)(k := map_option Suc (mr_refs s k)) \<and>
      mr_refs t k = Some (unat (mo_amount r))"
    and "\<not> mo_ok r \<Longrightarrow> t = s"
proof -
  show "mo_ok r \<longleftrightarrow> mr_refs s k \<noteq> None" "\<not> mo_ok r \<Longrightarrow> t = s"
    using assms(4) mr_inv_entry [OF assms(1), of k]
    by (auto simp: mr_retain_def mo_ok_def mr_refs_def model_ok_def Let_def
        split: if_splits option.splits)
  show "mr_refs t = (mr_refs s)(k := map_option Suc (mr_refs s k)) \<and>
      mr_refs t k = Some (unat (mo_amount r))" if ok: "mo_ok r"
  proof -
    obtain m where m: "map_of (mr_models s) k = Some m"
      using ok assms(4) by (auto simp: mr_retain_def mo_ok_def split: if_splits option.splits)
    have "unat (md_ref_count m) < b"
      using assms(2) m by (auto simp: refs_below_def mr_refs_def)
    then have "unat (md_ref_count m + 1) = Suc (unat (md_ref_count m))"
      using assms(3) unat_add_lem [of "md_ref_count m" 1] by simp
    with m ok assms(4) show ?thesis
      by (auto simp: mr_retain_def mo_ok_def mr_refs_put mr_refs_def Let_def update_conv'
          split: if_splits)
  qed
qed

lemma release_refs:
  assumes "mr_inv s" and "mr_release_model k s = (r, t)"
  shows "mo_ok r \<longleftrightarrow> (\<exists>n. mr_refs s k = Some (Suc n))"
    and "mo_ok r \<Longrightarrow> mr_refs t = (mr_refs s)(k := map_option (\<lambda>n. n - 1) (mr_refs s k)) \<and>
      mr_refs t k = Some (unat (mo_amount r))"
    and "\<not> mo_ok r \<Longrightarrow> t = s"
proof -
  show ok: "mo_ok r \<longleftrightarrow> (\<exists>n. mr_refs s k = Some (Suc n))" and "\<not> mo_ok r \<Longrightarrow> t = s"
    using assms(2) mr_inv_entry [OF assms(1), of k] unat_pos_iff
    by (auto simp: mr_release_model_def mo_ok_def mr_refs_def model_ok_def Let_def gr0_conv_Suc
        split: if_splits option.splits)
  show "mr_refs t = (mr_refs s)(k := map_option (\<lambda>n. n - 1) (mr_refs s k)) \<and>
      mr_refs t k = Some (unat (mo_amount r))" if succ: "mo_ok r"
  proof -
    obtain m where m: "map_of (mr_models s) k = Some m" "md_ref_count m \<noteq> 0"
      using succ assms(2)
      by (auto simp: mr_release_model_def mo_ok_def split: if_splits option.splits)
    then have "unat (md_ref_count m - 1) = unat (md_ref_count m) - 1"
      by (simp add: unat_minus_one)
    with m succ assms(2) show ?thesis
      by (auto simp: mr_release_model_def mo_ok_def mr_refs_put mr_refs_def Let_def update_conv'
          split: if_splits)
  qed
qed

lemma unregister_refs:
  assumes "mr_inv s" and "mr_unregister_model k s = (r, t)"
  shows "mo_ok r \<longleftrightarrow> mr_refs s k = Some 0"
    and "mo_ok r \<Longrightarrow> mr_refs t = (mr_refs s)(k := None)"
    and "\<not> mo_ok r \<Longrightarrow> t = s"
  using assms(2) mr_inv_entry [OF assms(1), of k]
  by (auto simp: mr_unregister_model_def mo_ok_def mr_refs_def model_ok_def map_of_um_erase
      unat_eq_0 fun_eq_iff split: if_splits option.splits)

lemma register_refs:
  assumes "mr_register_model k n md s = (r, t)"
  shows "mr_refs t = (if mo_ok r then (mr_refs s)(k \<mapsto> 0) else mr_refs s)"
    and "mo_ok r \<Longrightarrow> mr_refs s k = None"
  using assms
  by (auto simp: mr_register_model_def mo_ok_def mr_refs_emplace split: if_splits)
    (simp add: mr_refs_def um_contains_def)

lemma register_file_refs:
  assumes "mr_register_file fs k p md s = (r, t)"
  shows "mr_refs t = (if mo_ok r then (mr_refs s)(k \<mapsto> 0) else mr_refs s)"
    and "mo_ok r \<Longrightarrow> mr_refs s k = None"
  using assms
  by (auto simp: mr_register_file_def mo_ok_def mr_refs_emplace Let_def split: if_splits prod.splits)
    (simp add: mr_refs_def um_contains_def)

text \<open>One operation of the registry is one step of the specification.\<close>

lemma mr_apply_refs:
  assumes inv: "mr_inv s" and below: "refs_below b s" "b < 2 ^ 64"
  shows "mr_refs (snd (mr_apply e s)) = refs_step (e, mo_ok (fst (mr_apply e s))) (mr_refs s)"
proof -
  obtain r t where rt: "mr_apply e s = (r, t)" by (cases "mr_apply e s")
  show ?thesis
  proof (cases e)
    case (RRegister k n md)
    with rt register_refs(1) [of k n md s r t] show ?thesis by (cases "mo_ok r") auto
  next
    case (RFile fs k p md)
    with rt register_file_refs(1) [of fs k p md s r t] show ?thesis by (cases "mo_ok r") auto
  next
    case (RUnregister k)
    with rt unregister_refs [OF inv, of k r t] show ?thesis by (cases "mo_ok r") auto
  next
    case (RRetain k)
    with rt retain_refs [OF inv below, of k r t] show ?thesis by (cases "mo_ok r") auto
  next
    case (RRelease k)
    with rt release_refs [OF inv, of k r t] show ?thesis by (cases "mo_ok r") auto
  qed
qed

lemma refs_step_below:
  assumes "\<forall>k n. f k = Some n \<longrightarrow> n < b"
  shows "\<forall>k n. refs_step (e, ok) f k = Some n \<longrightarrow> n < Suc b"
  using assms by (cases e; cases ok) (auto simp: less_Suc_eq less_imp_diff_less intro: Suc_lessI)

lemma mr_exec_refs:
  "mr_inv s \<Longrightarrow> refs_below b s \<Longrightarrow> b + length es < 2 ^ 64 \<Longrightarrow>
   mr_refs (snd (mr_exec es s)) = fold refs_step (fst (mr_exec es s)) (mr_refs s) \<and>
   mr_inv (snd (mr_exec es s)) \<and> refs_below (b + length es) (snd (mr_exec es s))"
proof (induction es arbitrary: s b)
  case (Cons e es)
  obtain r t where rt: "mr_apply e s = (r, t)" by (cases "mr_apply e s")
  have b: "b < 2 ^ 64" "Suc b + length es < 2 ^ 64" using Cons.prems(3) by simp_all
  note step = mr_apply_refs [OF Cons.prems(1,2) b(1), of e]
  have "mr_inv t" using mr_apply_inv [OF Cons.prems(1), of e] by (simp add: rt)
  moreover have "refs_below (Suc b) t"
    using refs_step_below [of "mr_refs s" b e "mo_ok r"] Cons.prems(2) step
    by (simp add: refs_below_def rt)
  ultimately show ?case
    using Cons.IH [of t "Suc b"] b(2) step by (cases "mr_exec es t") (simp add: rt)
qed simp

text \<open>
  C36: reference counts are exact. After any sequence of fewer than \<open>2 ^ 64\<close> operations on a
  fresh registry, the stored count of every model is the number of successful retains
  minus successful releases since its registration; a release succeeds exactly when that
  number is positive (it never underflows), and an unregistration exactly when it is zero.
\<close>

theorem model_refcounts_exact:
  assumes "length es < 2 ^ 64 - 1" and "mr_exec es mr_new = (h, s)"
  shows "mr_refs s = fold refs_step h Map.empty \<and>
    (mo_ok (fst (mr_retain k s)) \<longleftrightarrow> mr_refs s k \<noteq> None) \<and>
    (mo_ok (fst (mr_release_model k s)) \<longleftrightarrow> (\<exists>n. mr_refs s k = Some (Suc n))) \<and>
    (mo_ok (fst (mr_unregister_model k s)) \<longleftrightarrow> mr_refs s k = Some 0)"
proof -
  have empty: "mr_refs mr_new = Map.empty" by (rule ext) (simp add: mr_refs_def mr_new_def)
  then have "refs_below 1 mr_new" by (simp add: refs_below_def)
  with assms have run: "mr_refs s = fold refs_step h Map.empty" "mr_inv s" "refs_below (1 + length es) s"
    using mr_exec_refs [of mr_new 1 es] by (simp_all add: empty)
  have b: "1 + length es < 2 ^ 64" using assms(1) by simp
  show ?thesis
    using run(1) retain_refs(1) [OF run(2,3) b surjective_pairing]
      release_refs(1) [OF run(2) surjective_pairing] unregister_refs(1) [OF run(2) surjective_pairing]
    by blast
qed

theorem model_refcounts_exact_witness:
  "mr_refs (snd (mr_exec [RRegister ''m'' 5 ''fp16'', RRetain ''m'', RRetain ''m'', RRelease ''m''] mr_new))
     ''m'' = Some 1 \<and>
   \<not> mo_ok (fst (mr_unregister_model ''m''
     (snd (mr_exec [RRegister ''m'' 5 ''fp16'', RRetain ''m'', RRetain ''m'', RRelease ''m''] mr_new))))"
proof -
  let ?es = "[RRegister ''m'' 5 ''fp16'', RRetain ''m'', RRetain ''m'', RRelease ''m'']"
  have h: "fst (mr_exec ?es mr_new) = [(RRegister ''m'' 5 ''fp16'', True), (RRetain ''m'', True),
      (RRetain ''m'', True), (RRelease ''m'', True)]"
    by (simp add: mr_register_model_def mr_new_def mr_valid_id_def mr_valid_metadata_def
        um_contains_def um_emplace_def mr_retain_def mr_release_model_def mo_ok_def Let_def)
  have "length ?es < 2 ^ 64 - 1" by simp
  from model_refcounts_exact [OF this surjective_pairing, of "''m''"] show ?thesis
    unfolding h by (simp del: mr_exec.simps)
qed

end
