(* ===== verification/ModelResidency.thy ===== *)
theory ModelResidency
  imports ResourceManager ModelRegistry Complex_Main
begin

text \<open>
  The residency manager (model_residency.hpp, model_residency.cpp): which registered models
  are loaded, over the model registry, the resource manager and a backend.

  The manager's own mutex serialises its operations, but other threads use the resource
  manager and the registry while \<open>load\<close> runs. \<open>load\<close> is therefore split where it stops
  reading them and where it writes them: \<open>load_plan\<close> (the checks and the choice of the
  evictions, from one registry snapshot and one status), \<open>load_fetch\<close> (the file and the
  backend) and \<open>load_commit\<close> (the swap of reservations, the evictions, the record).
\<close>

section \<open>Data\<close>

record residency_record =
  rr_id :: string
  rr_footprint :: bytes
  rr_ref_count :: "64 word"
  rr_resident :: bool
  rr_last_loaded :: "64 word"
  rr_load_count :: "64 word"
  rr_load_cost :: "64 word"

definition empty_residency :: residency_record where
  "empty_residency = \<lparr>rr_id = [], rr_footprint = 0, rr_ref_count = 0, rr_resident = False,
     rr_last_loaded = 0, rr_load_count = 0, rr_load_cost = 0\<rparr>"

record residency_snapshot =
  rs_records :: "residency_record list"

record model_share_result =
  ms_error :: model_error
  ms_amount :: bytes
  ms_token :: string

abbreviation ms_fail :: "model_error \<Rightarrow> model_share_result" where
  "ms_fail e \<equiv> \<lparr>ms_error = e, ms_amount = 0, ms_token = []\<rparr>"

text \<open>The manager's own fields.\<close>

record residency =
  rz_records :: "residency_record umap"
  rz_next_loaded :: "64 word"

definition rz_new :: residency where
  "rz_new = \<lparr>rz_records = [], rz_next_loaded = 0\<rparr>"

text \<open>The manager with the objects it holds references to.\<close>

record 'b residency_world =
  rw_registry :: model_registry
  rw_resources :: resource_manager
  rw_backend :: 'b
  rw_residency :: residency

definition find_model :: "model_snapshot \<Rightarrow> string \<Rightarrow> model_record option" where
  "find_model snapshot ident = find (\<lambda>m. md_id m = ident) (ms_models snapshot)"

section \<open>Choosing the evictions\<close>

text \<open>
  The score is computed in \<open>long double\<close>; \<open>rd\<close> is the rounding of the platform's format,
  applied to each conversion and each operation.
\<close>

definition residency_score :: "(rat \<Rightarrow> rat) \<Rightarrow> residency_record \<Rightarrow> rat" where
  "residency_score rd r =
     (let conv = (\<lambda>w :: 64 word. rd (of_nat (unat w)));
          cost = max (rr_load_cost r) 1;
          history = rr_load_count r + 1
      in rd (rd (rd (conv (rr_last_loaded r) * conv cost) * conv history) /
             conv (max (rr_footprint r) 1)))"

text \<open>The \<open>while\<close> loop over the sorted candidates: the prefix taken and the bytes then available.\<close>

fun take_evictions ::
  "bytes \<Rightarrow> bytes \<Rightarrow> residency_record list \<Rightarrow> residency_record list \<times> bytes" where
  "take_evictions need available [] = ([], available)"
| "take_evictions need available (r # rs) =
     (if available < need
      then (let (es, a) = take_evictions need (available + rr_footprint r) rs in (r # es, a))
      else ([], available))"

definition eviction_candidates :: "residency_record umap \<Rightarrow> residency_record list" where
  "eviction_candidates m = filter (\<lambda>r. rr_resident r \<and> rr_ref_count r = 0) (map snd m)"

definition choose_evictions ::
  "(rat \<Rightarrow> rat) \<Rightarrow> residency_record umap \<Rightarrow> bytes \<Rightarrow> bytes \<Rightarrow> residency_record list option" where
  "choose_evictions rd records need available =
     (if available < need then
        (let (es, a) = take_evictions need available
               (sort_key (residency_score rd) (eviction_candidates records))
         in if a < need then None else Some es)
      else Some [])"

section \<open>Loading\<close>

text \<open>\<open>records_.find\<close> and the check that the record is resident.\<close>

definition resident_record :: "residency_record umap \<Rightarrow> string \<Rightarrow> residency_record option" where
  "resident_record m ident =
     (case map_of m ident of
        None \<Rightarrow> None
      | Some r \<Rightarrow> if rr_resident r then Some r else None)"

text \<open>The first phase: a result, or the model to load and the records to evict.\<close>

definition load_plan ::
  "(rat \<Rightarrow> rat) \<Rightarrow> string \<Rightarrow> model_snapshot \<Rightarrow> status_snapshot \<Rightarrow> residency \<Rightarrow>
   model_operation_result + model_record \<times> residency_record list" where
  "load_plan rd ident models status s =
     (case find_model models ident of
        None \<Rightarrow> Inl (mo_fail model_error.UnknownModel)
      | Some model \<Rightarrow>
          (case resident_record (rz_records s) (md_id model) of
             Some existing \<Rightarrow> Inl (mo_done (rr_footprint existing))
           | None \<Rightarrow>
               if md_footprint model > st_capacity status
                 then Inl (mo_fail model_error.InsufficientMemory)
               else (case choose_evictions rd (rz_records s) (md_footprint model) (st_free status) of
                       None \<Rightarrow> Inl (mo_fail model_error.InsufficientMemory)
                     | Some evictions \<Rightarrow> Inr (model, evictions))))"

text \<open>The second phase: \<open>None\<close> when the backend holds the model, or the error returned.\<close>

definition load_fetch ::
  "'b accelerator_backend \<Rightarrow> file_system \<Rightarrow> model_record \<Rightarrow> 'b \<Rightarrow> model_error option \<times> 'b" where
  "load_fetch B fs model b =
     (if md_source_path model = [] then
        (let (loaded, b') = bk_load B (md_id model) (md_footprint model) b
         in if bo_ok loaded then (None, b') else (Some model_error.BackendFailure, b'))
      else
        (let file = loader_load fs (md_source_path model) (md_footprint model)
         in case ml_error file of
              model_load_error.Unavailable \<Rightarrow> (Some model_error.FileUnavailable, b)
            | model_load_error.SourceChanged \<Rightarrow> (Some model_error.SourceChanged, b)
            | model_load_error.ReadFailure \<Rightarrow> (Some model_error.ReadFailure, b)
            | model_load_error.NoError \<Rightarrow>
                (let (loaded, b') = bk_load_data B (md_id model) (ml_data file) b
                 in if bo_ok loaded then (None, b') else (Some model_error.BackendFailure, b'))))"

text \<open>The measured cost: at least one millisecond.\<close>

definition load_cost_ms :: "millis \<Rightarrow> 64 word" where
  "load_cost_ms elapsed = max (of_int elapsed) 1"

text \<open>The loop over the evictions after the swap of the reservations.\<close>

definition evict_records ::
  "'b accelerator_backend \<Rightarrow> residency_record list \<Rightarrow> 'b \<times> residency_record umap \<Rightarrow>
   'b \<times> residency_record umap" where
  "evict_records B evictions =
     fold (\<lambda>r (b, m). (snd (bk_unload B (rr_id r) b), um_put (rr_id r) (r\<lparr>rr_resident := False\<rparr>) m))
       evictions"

definition finish_record ::
  "model_record \<Rightarrow> millis \<Rightarrow> residency_record umap \<Rightarrow> residency \<Rightarrow> residency" where
  "finish_record model elapsed records s =
     (let record = (case map_of records (md_id model) of
            Some r \<Rightarrow> r | None \<Rightarrow> empty_residency)
      in s\<lparr>rz_records := um_put (md_id model)
             (record\<lparr>rr_id := md_id model, rr_footprint := md_footprint model,
                rr_ref_count := md_ref_count model, rr_resident := True,
                rr_last_loaded := rz_next_loaded s + 1,
                rr_load_count := rr_load_count record + 1,
                rr_load_cost := load_cost_ms elapsed\<rparr>) records,
           rz_next_loaded := rz_next_loaded s + 1\<rparr>)"

definition load_commit ::
  "'b accelerator_backend \<Rightarrow> time \<Rightarrow> millis \<Rightarrow> model_record \<Rightarrow> residency_record list \<Rightarrow>
   'b residency_world \<Rightarrow> model_operation_result \<times> 'b residency_world" where
  "load_commit B now elapsed model evictions w =
     (let (acquired, rm) = rm_replace_model_reservations now (map rr_id evictions)
            (md_id model) (md_footprint model) (rw_resources w)
      in if \<not> op_ok acquired then
           (mo_fail model_error.InsufficientMemory,
            w\<lparr>rw_resources := rm, rw_backend := snd (bk_unload B (md_id model) (rw_backend w))\<rparr>)
         else
           (let (b, records) = evict_records B evictions (rw_backend w, rz_records (rw_residency w))
            in (mo_done (md_footprint model),
                w\<lparr>rw_resources := rm, rw_backend := b,
                  rw_residency := finish_record model elapsed records (rw_residency w)\<rparr>)))"

text \<open>\<open>load\<close> when no other thread touches the resource manager or the registry meanwhile.\<close>

definition rz_load ::
  "(rat \<Rightarrow> rat) \<Rightarrow> 'b accelerator_backend \<Rightarrow> file_system \<Rightarrow> time \<Rightarrow> millis \<Rightarrow> string \<Rightarrow>
   'b residency_world \<Rightarrow> model_operation_result \<times> 'b residency_world" where
  "rz_load rd B fs now elapsed ident w =
     (case load_plan rd ident (mr_snapshot (rw_registry w)) (rm_status (rw_resources w))
             (rw_residency w) of
        Inl result \<Rightarrow> (result, w)
      | Inr (model, evictions) \<Rightarrow>
          (let (failed, b) = load_fetch B fs model (rw_backend w); w' = w\<lparr>rw_backend := b\<rparr>
           in case failed of
                Some e \<Rightarrow> (mo_fail e, w')
              | None \<Rightarrow> load_commit B now elapsed model evictions w'))"

section \<open>The other operations\<close>

definition rz_unload ::
  "'b accelerator_backend \<Rightarrow> time \<Rightarrow> string \<Rightarrow> 'b residency_world \<Rightarrow>
   model_operation_result \<times> 'b residency_world" where
  "rz_unload B now ident w =
     (if find_model (mr_snapshot (rw_registry w)) ident = None
      then (mo_fail model_error.UnknownModel, w)
      else case resident_record (rz_records (rw_residency w)) ident of
        None \<Rightarrow> (mo_fail model_error.UnknownResidency, w)
      | Some record \<Rightarrow>
          if rr_ref_count record \<noteq> 0 then (mo_fail model_error.ModelInUse, w)
          else
            (let (unloaded, b) = bk_unload B ident (rw_backend w); w1 = w\<lparr>rw_backend := b\<rparr>
             in if \<not> bo_ok unloaded then (mo_fail model_error.BackendFailure, w1)
                else
                  (let (released, rm) = rm_release_model now ident (rw_resources w1);
                       w2 = w1\<lparr>rw_resources := rm\<rparr>
                   in if \<not> op_ok released then
                        (mo_fail model_error.UnknownResidency,
                         w2\<lparr>rw_backend := snd (bk_load B ident (rr_footprint record) (rw_backend w2))\<rparr>)
                      else
                        (mo_done (rr_footprint record),
                         w2\<lparr>rw_residency := (rw_residency w2)\<lparr>rz_records :=
                           um_put ident (record\<lparr>rr_resident := False\<rparr>)
                             (rz_records (rw_residency w2))\<rparr>\<rparr>))))"

definition rz_share ::
  "'b accelerator_backend \<Rightarrow> string \<Rightarrow> 'b residency_world \<Rightarrow>
   model_share_result \<times> 'b residency_world" where
  "rz_share B ident w =
     (if find_model (mr_snapshot (rw_registry w)) ident = None
      then (ms_fail model_error.UnknownModel, w)
      else case resident_record (rz_records (rw_residency w)) ident of
        None \<Rightarrow> (ms_fail model_error.UnknownResidency, w)
      | Some record \<Rightarrow>
            (let (shared, b) = bk_share B ident (rw_backend w); w' = w\<lparr>rw_backend := b\<rparr>
             in if \<not> sh_ok shared then
                  (if sh_error shared = backend_error.Unsupported
                   then (ms_fail model_error.BackendUnsupported, w')
                   else (ms_fail model_error.BackendFailure, w'))
                else (\<lparr>ms_error = model_error.NoError, ms_amount = sh_amount shared,
                        ms_token = sh_token shared\<rparr>, w')))"

text \<open>\<open>try_emplace\<close>, and the new count stored in an existing record.\<close>

definition note_ref_count ::
  "model_record \<Rightarrow> 64 word \<Rightarrow> residency_record umap \<Rightarrow> residency_record umap" where
  "note_ref_count model refs m =
     (case map_of m (md_id model) of
        None \<Rightarrow> um_emplace (md_id model) (empty_residency\<lparr>rr_id := md_id model,
          rr_footprint := md_footprint model, rr_ref_count := refs\<rparr>) m
      | Some record \<Rightarrow> um_put (md_id model) (record\<lparr>rr_ref_count := refs\<rparr>) m)"

definition rz_retain ::
  "string \<Rightarrow> 'b residency_world \<Rightarrow> model_operation_result \<times> 'b residency_world" where
  "rz_retain ident w =
     (case find_model (mr_snapshot (rw_registry w)) ident of
        None \<Rightarrow> (mo_fail model_error.UnknownModel, w)
      | Some model \<Rightarrow>
          (let (result, reg) = mr_retain ident (rw_registry w); w' = w\<lparr>rw_registry := reg\<rparr>
           in (result,
               if mo_ok result
               then w'\<lparr>rw_residency := (rw_residency w')\<lparr>rz_records :=
                 note_ref_count model (mo_amount result) (rz_records (rw_residency w'))\<rparr>\<rparr>
               else w')))"

definition rz_release_model ::
  "string \<Rightarrow> 'b residency_world \<Rightarrow> model_operation_result \<times> 'b residency_world" where
  "rz_release_model ident w =
     (case find_model (mr_snapshot (rw_registry w)) ident of
        None \<Rightarrow> (mo_fail model_error.UnknownModel, w)
      | Some model \<Rightarrow>
          (let (result, reg) = mr_release_model ident (rw_registry w); w' = w\<lparr>rw_registry := reg\<rparr>
           in (result,
               if mo_ok result
               then w'\<lparr>rw_residency := (rw_residency w')\<lparr>rz_records :=
                 note_ref_count model (mo_amount result) (rz_records (rw_residency w'))\<rparr>\<rparr>
               else w')))"

definition rz_unregister_model ::
  "string \<Rightarrow> 'b residency_world \<Rightarrow> model_operation_result \<times> 'b residency_world" where
  "rz_unregister_model ident w =
     (if resident_record (rz_records (rw_residency w)) ident \<noteq> None
      then (mo_fail model_error.ModelInUse, w)
      else
        (let (result, reg) = mr_unregister_model ident (rw_registry w);
             w' = w\<lparr>rw_registry := reg\<rparr>
         in (result,
             if mo_ok result
             then w'\<lparr>rw_residency := (rw_residency w')\<lparr>rz_records :=
               um_erase ident (rz_records (rw_residency w'))\<rparr>\<rparr>
             else w')))"

definition rz_snapshot :: "residency \<Rightarrow> residency_snapshot" where
  "rz_snapshot s = \<lparr>rs_records = sort_key rr_id (map snd (rz_records s))\<rparr>"

end
