(* ===== verification/ResidencyInvariant.thy ===== *)
theory ResidencyInvariant
  imports ModelResidency ResourceOps
begin

text \<open>
  The invariant that ties the four components together: the models marked resident are
  exactly those with a reservation and exactly those the backend holds, with the same
  bytes, and every residency record agrees with the registry. The lemmas of this theory
  rest on the contract of the backend alone.
\<close>

section \<open>The bytes held by residents\<close>

definition resident_bytes :: "residency_record umap \<Rightarrow> string \<Rightarrow> bytes option" where
  "resident_bytes m k = map_option rr_footprint (resident_record m k)"

definition record_matches :: "model_registry \<Rightarrow> string \<Rightarrow> residency_record \<Rightarrow> bool" where
  "record_matches reg k r \<longleftrightarrow> rr_id r = k \<and>
     (\<exists>m. map_of (mr_models reg) k = Some m \<and> rr_footprint r = md_footprint m \<and>
       rr_ref_count r = md_ref_count m)"

lemma resident_record_Some:
  "resident_record m k = Some r \<longleftrightarrow> map_of m k = Some r \<and> rr_resident r"
  by (auto simp: resident_record_def split: option.splits if_splits)

lemma resident_bytes_put:
  "resident_bytes (um_put k r m) =
   (resident_bytes m)(k := (if rr_resident r then Some (rr_footprint r) else None))"
  by (rule ext) (simp add: resident_bytes_def resident_record_def update_conv')

lemma resident_bytes_emplace:
  "\<not> rr_resident r \<Longrightarrow> map_of m k = None \<Longrightarrow> resident_bytes (um_emplace k r m) = resident_bytes m"
  by (rule ext)
    (auto simp: resident_bytes_def resident_record_def map_of_um_emplace um_contains_def)

lemma resident_bytes_erase:
  "resident_record m k = None \<Longrightarrow> resident_bytes (um_erase k m) = resident_bytes m"
  by (rule ext) (auto simp: resident_bytes_def resident_record_def map_of_um_erase)

lemma find_model_eq:
  assumes "mr_inv reg"
  shows "find_model (mr_snapshot reg) k = map_of (mr_models reg) k"
proof (cases "find_model (mr_snapshot reg) k")
  case None
  have "map_of (mr_models reg) k \<noteq> Some m" for m
    using None mr_snapshot_set [OF assms, of m] mr_inv_entry [OF assms, of k m]
    by (auto simp: find_model_def find_None_iff)
  with None show ?thesis by (metis not_None_eq)
next
  case (Some m)
  then have "m \<in> set (ms_models (mr_snapshot reg))" "md_id m = k"
    by (auto simp: find_model_def find_Some_iff)
  with Some mr_snapshot_set [OF assms, of m] show ?thesis by simp
qed

section \<open>The evictions chosen\<close>

lemma take_evictions_prefix:
  "fst (take_evictions need available rs) = take (length (fst (take_evictions need available rs))) rs"
  by (induction need available rs rule: take_evictions.induct) (simp_all add: case_prod_beta Let_def)

lemma choose_evictions_prefix:
  assumes "choose_evictions rd m need available = Some es"
  obtains i where "es = take i (sort_key (residency_score rd) (eviction_candidates m))"
proof (cases "available < need")
  case True
  with assms have "es = fst (take_evictions need available
      (sort_key (residency_score rd) (eviction_candidates m)))"
    by (simp add: choose_evictions_def case_prod_beta Let_def split: if_splits)
  with take_evictions_prefix show thesis by (intro that) simp
next
  case False
  with assms have "es = take 0 (sort_key (residency_score rd) (eviction_candidates m))"
    by (simp add: choose_evictions_def)
  then show thesis by (rule that)
qed

lemma candidates_records:
  assumes "um_wf m" and "um_all (\<lambda>k r. rr_id r = k) m"
  shows "distinct (map rr_id (eviction_candidates m))"
    and "e \<in> set (eviction_candidates m) \<longleftrightarrow>
      resident_record m (rr_id e) = Some e \<and> rr_ref_count e = 0"
proof -
  have "map rr_id (map snd m) = map fst m"
    using um_all_entry [OF assms(2,1)] by auto
  with assms(1) have "distinct (map rr_id (map snd m))" by (simp only:)
  then show "distinct (map rr_id (eviction_candidates m))"
    unfolding eviction_candidates_def by (rule distinct_map_filter)
  have "e \<in> snd ` set m \<longleftrightarrow> (\<exists>k. (k, e) \<in> set m)" by force
  also have "\<dots> \<longleftrightarrow> (rr_id e, e) \<in> set m"
    using um_all_entry [OF assms(2,1)] by metis
  also have "\<dots> \<longleftrightarrow> map_of m (rr_id e) = Some e" using assms(1) by simp
  finally have "e \<in> snd ` set m \<longleftrightarrow> map_of m (rr_id e) = Some e" .
  then show "e \<in> set (eviction_candidates m) \<longleftrightarrow>
      resident_record m (rr_id e) = Some e \<and> rr_ref_count e = 0"
    by (auto simp: eviction_candidates_def resident_record_Some)
qed

lemma chosen_records:
  assumes "um_wf m" and "um_all (\<lambda>k r. rr_id r = k) m"
    and "choose_evictions rd m need available = Some es"
  shows "distinct (map rr_id es)"
    and "\<And>e. e \<in> set es \<Longrightarrow> resident_record m (rr_id e) = Some e \<and> rr_ref_count e = 0"
proof -
  let ?c = "sort_key (residency_score rd) (eviction_candidates m)"
  from choose_evictions_prefix [OF assms(3)] obtain i where es: "es = take i ?c" .
  have "mset (map rr_id ?c) = mset (map rr_id (eviction_candidates m))" by simp
  with candidates_records(1) [OF assms(1,2)] have "distinct (map rr_id ?c)"
    by (metis mset_eq_imp_distinct_iff)
  then show "distinct (map rr_id es)" by (simp add: es take_map [symmetric] distinct_take)
  show "resident_record m (rr_id e) = Some e \<and> rr_ref_count e = 0" if "e \<in> set es" for e
    using that set_take_subset [of i ?c] candidates_records(2) [OF assms(1,2)]
    by (auto simp: es)
qed

section \<open>Steps\<close>

text \<open>
  The state of the machine: the world, and the load in progress, between the backend's
  load and the swap of the reservations, whose thread holds the residency mutex.
\<close>

type_synonym 'b rz_state = "'b residency_world \<times> (model_record \<times> residency_record list) option"

fun client_label :: "rm_label \<Rightarrow> bool" where
  "client_label (AcquireModel _ _ _) = False"
| "client_label (ReleaseModel _ _ _) = False"
| "client_label (ReplaceModels _ _ _ _ _) = False"
| "client_label _ = True"

datatype rz_label =
    RzClient rm_label
  | RzRegister string model_operation_result
  | RzLoadDone string model_operation_result
  | RzLoadBegin string
  | RzLoadEnd string model_operation_result
  | RzUnload string model_operation_result
  | RzShare string model_share_result
  | RzRetain string model_operation_result
  | RzRelease string model_operation_result
  | RzUnregister string model_operation_result

inductive rz_step ::
  "(rat \<Rightarrow> rat) \<Rightarrow> 'b accelerator_backend \<Rightarrow> 'b rz_state \<Rightarrow> rz_label \<Rightarrow> 'b rz_state \<Rightarrow> bool"
  for rd :: "rat \<Rightarrow> rat" and B :: "'b accelerator_backend" where
  step_client: "client_label e \<Longrightarrow> rm_step (rw_resources w) e rm \<Longrightarrow>
    rz_step rd B (w, l) (RzClient e) (w\<lparr>rw_resources := rm\<rparr>, l)"
| step_register: "mr_register_model k n md (rw_registry w) = (r, reg) \<Longrightarrow>
    rz_step rd B (w, l) (RzRegister k r) (w\<lparr>rw_registry := reg\<rparr>, l)"
| step_register_file: "mr_register_file fs k path md (rw_registry w) = (r, reg) \<Longrightarrow>
    rz_step rd B (w, l) (RzRegister k r) (w\<lparr>rw_registry := reg\<rparr>, l)"
| step_load_done:
    "load_plan rd k (mr_snapshot (rw_registry w)) (rm_status (rw_resources w)) (rw_residency w)
       = Inl r \<Longrightarrow>
     rz_step rd B (w, None) (RzLoadDone k r) (w, None)"
| step_load_fail:
    "load_plan rd k (mr_snapshot (rw_registry w)) (rm_status (rw_resources w)) (rw_residency w)
       = Inr (m, es) \<Longrightarrow>
     load_fetch B fs m (rw_backend w) = (Some err, b) \<Longrightarrow>
     rz_step rd B (w, None) (RzLoadDone k (mo_fail err)) (w\<lparr>rw_backend := b\<rparr>, None)"
| step_load_begin:
    "load_plan rd k (mr_snapshot (rw_registry w)) (rm_status (rw_resources w)) (rw_residency w)
       = Inr (m, es) \<Longrightarrow>
     load_fetch B fs m (rw_backend w) = (None, b) \<Longrightarrow>
     rz_step rd B (w, None) (RzLoadBegin k) (w\<lparr>rw_backend := b\<rparr>, Some (m, es))"
| step_load_end: "load_commit B now elapsed m es w = (r, w') \<Longrightarrow>
    rz_step rd B (w, Some (m, es)) (RzLoadEnd (md_id m) r) (w', None)"
| step_unload: "rz_unload B now k w = (r, w') \<Longrightarrow>
    rz_step rd B (w, None) (RzUnload k r) (w', None)"
| step_share: "rz_share B k w = (sr, w') \<Longrightarrow>
    rz_step rd B (w, None) (RzShare k sr) (w', None)"
| step_retain: "rz_retain k w = (r, w') \<Longrightarrow>
    rz_step rd B (w, None) (RzRetain k r) (w', None)"
| step_release: "rz_release_model k w = (r, w') \<Longrightarrow>
    rz_step rd B (w, None) (RzRelease k r) (w', None)"
| step_unregister: "rz_unregister_model k w = (r, w') \<Longrightarrow>
    rz_step rd B (w, None) (RzUnregister k r) (w', None)"

lemma client_step_models:
  "rm_step s e t \<Longrightarrow> client_label e \<Longrightarrow> rm_model_reservations t = rm_model_reservations s"
  by (induction rule: rm_step.induct)
    (auto simp: rm_try_acquire_def acquire_enter_def acquire_enqueue_def acquire_poll_def
      acquire_expire_def rm_release_def rm_cancel_waiters_def Let_def
      split: if_splits option.splits prod.splits)

section \<open>The invariant\<close>

definition rz_books :: "'b residency_world \<Rightarrow> bool" where
  "rz_books w \<longleftrightarrow> rm_good (rw_resources w) \<and> mr_inv (rw_registry w) \<and>
     um_wf (rz_records (rw_residency w)) \<and>
     um_all (record_matches (rw_registry w)) (rz_records (rw_residency w)) \<and>
     map_of (rm_model_reservations (rw_resources w)) = resident_bytes (rz_records (rw_residency w))"

definition load_ready :: "'b residency_world \<Rightarrow> model_record \<Rightarrow> residency_record list \<Rightarrow> bool" where
  "load_ready w m es \<longleftrightarrow> map_of (mr_models (rw_registry w)) (md_id m) = Some m \<and>
     resident_record (rz_records (rw_residency w)) (md_id m) = None \<and>
     distinct (map rr_id es) \<and>
     (\<forall>e \<in> set es. resident_record (rz_records (rw_residency w)) (rr_id e) = Some e \<and>
        rr_ref_count e = 0)"

definition backend_holds ::
  "('b \<Rightarrow> string \<Rightarrow> bytes option) \<Rightarrow> 'b rz_state \<Rightarrow> bool" where
  "backend_holds held s \<longleftrightarrow> (case s of
     (w, None) \<Rightarrow> held (rw_backend w) = resident_bytes (rz_records (rw_residency w))
   | (w, Some (m, es)) \<Rightarrow> load_ready w m es \<and> held (rw_backend w) =
       (resident_bytes (rz_records (rw_residency w)))(md_id m \<mapsto> md_footprint m))"

definition rz_inv ::
  "('b \<Rightarrow> bool) \<Rightarrow> ('b \<Rightarrow> string \<Rightarrow> bytes option) \<Rightarrow> 'b rz_state \<Rightarrow> bool" where
  "rz_inv binv held s \<longleftrightarrow> rz_books (fst s) \<and> binv (rw_backend (fst s)) \<and> backend_holds held s"

lemma matches_keys: "um_all (record_matches reg) m \<Longrightarrow> um_all (\<lambda>k r. rr_id r = k) m"
  by (simp add: um_all_def record_matches_def)

lemma plan_ready:
  assumes books: "rz_books w"
    and plan: "load_plan rd k (mr_snapshot (rw_registry w)) status (rw_residency w) = Inr (m, es)"
  shows "load_ready w m es" and "md_id m = k"
    and "choose_evictions rd (rz_records (rw_residency w)) (md_footprint m) (st_free status) = Some es"
proof -
  have reg: "mr_inv (rw_registry w)" using books by (simp add: rz_books_def)
  from plan have m: "map_of (mr_models (rw_registry w)) k = Some m"
    and r: "resident_record (rz_records (rw_residency w)) (md_id m) = None"
    and c: "choose_evictions rd (rz_records (rw_residency w)) (md_footprint m) (st_free status) = Some es"
    by (auto simp: load_plan_def find_model_eq [OF reg] split: option.splits if_splits)
  have id: "md_id m = k" using mr_inv_entry [OF reg m] by simp
  have "um_wf (rz_records (rw_residency w))" "um_all (\<lambda>k r. rr_id r = k) (rz_records (rw_residency w))"
    using books by (auto simp: rz_books_def intro: matches_keys)
  from chosen_records [OF this c] m r id show "load_ready w m es"
    by (auto simp: load_ready_def)
  show "md_id m = k" by (rule id)
  show "choose_evictions rd (rz_records (rw_residency w)) (md_footprint m) (st_free status) = Some es"
    by (rule c)
qed

section \<open>Changes the operations make\<close>

lemma matches_mono:
  assumes "um_all (record_matches reg) m"
    and "\<And>k md. map_of (mr_models reg) k = Some md \<Longrightarrow> map_of (mr_models reg') k = Some md"
  shows "um_all (record_matches reg') m"
  using assms unfolding um_all_def record_matches_def by blast

lemma register_keeps:
  "mr_register_model k n md reg = (r, reg') \<Longrightarrow> map_of (mr_models reg) k' = Some m \<Longrightarrow>
   map_of (mr_models reg') k' = Some m"
  by (auto simp: mr_register_model_def um_emplace_keeps split: if_splits)

lemma register_file_keeps:
  "mr_register_file fs k p md reg = (r, reg') \<Longrightarrow> map_of (mr_models reg) k' = Some m \<Longrightarrow>
   map_of (mr_models reg') k' = Some m"
  by (auto simp: mr_register_file_def um_emplace_keeps Let_def split: if_splits prod.splits)

text \<open>The registry gained models: every part of the invariant survives.\<close>

lemma registry_grows:
  assumes "rz_inv binv held (w, l)" and "mr_inv reg"
    and "\<And>k m. map_of (mr_models (rw_registry w)) k = Some m \<Longrightarrow> map_of (mr_models reg) k = Some m"
  shows "rz_inv binv held (w\<lparr>rw_registry := reg\<rparr>, l)"
  using assms matches_mono [of "rw_registry w" _ reg]
  by (auto simp: rz_inv_def rz_books_def backend_holds_def load_ready_def split: option.splits)

text \<open>A record's reference count was noted after the registry changed it.\<close>

lemma note_ref_count_bytes: "resident_bytes (note_ref_count m c rs) = resident_bytes rs"
  by (rule ext)
    (auto simp: note_ref_count_def resident_bytes_def resident_record_def update_conv'
      map_of_um_emplace um_contains_def empty_residency_def split: option.splits)

lemma note_ref_count_wf: "um_wf rs \<Longrightarrow> um_wf (note_ref_count m c rs)"
  by (auto simp: note_ref_count_def distinct_update um_wf_emplace split: option.splits)

lemma note_ref_count_matches:
  assumes all: "um_all (record_matches reg) rs"
    and m: "map_of (mr_models reg) k = Some m" "md_id m = k"
    and reg': "map_of (mr_models reg') = (map_of (mr_models reg))(k \<mapsto> m')"
    and m': "md_footprint m' = md_footprint m" "md_ref_count m' = c"
  shows "um_all (record_matches reg') (note_ref_count m c rs)"
  unfolding um_all_def
proof (intro allI impI)
  fix k' v assume v: "map_of (note_ref_count m c rs) k' = Some v"
  show "record_matches reg' k' v"
  proof (cases "k' = k")
    case False
    with v m(2) have "map_of rs k' = Some v"
      by (simp add: note_ref_count_def update_conv' map_of_um_emplace split: option.splits if_splits)
    from um_allD [OF all this] False reg' show ?thesis by (simp add: record_matches_def)
  next
    case True
    then have "rr_id v = k \<and> rr_footprint v = md_footprint m \<and> rr_ref_count v = c"
      using v m um_allD [OF all, of k]
      by (fastforce simp: note_ref_count_def update_conv' map_of_um_emplace um_contains_def
          record_matches_def empty_residency_def split: option.splits)
    with True reg' m' show ?thesis by (simp add: record_matches_def)
  qed
qed

lemma retain_effect:
  assumes "mr_retain k reg = (r, reg')"
  shows "if mo_ok r then \<exists>m m'. map_of (mr_models reg) k = Some m \<and>
      map_of (mr_models reg') = (map_of (mr_models reg))(k \<mapsto> m') \<and>
      md_footprint m' = md_footprint m \<and> md_ref_count m' = mo_amount r
    else reg' = reg"
  using assms
  by (auto simp: mr_retain_def mo_ok_def Let_def update_conv' split: if_splits option.splits)

lemma release_effect:
  assumes "mr_release_model k reg = (r, reg')"
  shows "if mo_ok r then \<exists>m m'. map_of (mr_models reg) k = Some m \<and>
      map_of (mr_models reg') = (map_of (mr_models reg))(k \<mapsto> m') \<and>
      md_footprint m' = md_footprint m \<and> md_ref_count m' = mo_amount r
    else reg' = reg"
  using assms
  by (auto simp: mr_release_model_def mo_ok_def Let_def update_conv' split: if_splits option.splits)

lemma unregister_unchanged: "mr_unregister_model k reg = (r, reg') \<Longrightarrow> \<not> mo_ok r \<Longrightarrow> reg' = reg"
  by (auto simp: mr_unregister_model_def mo_ok_def split: if_splits option.splits)

lemma rm_new_models: "rm_new capacity policy = Some s \<Longrightarrow> rm_model_reservations s = []"
  by (auto simp: rm_new_def split: if_splits)

lemma noted_inv:
  assumes inv: "rz_inv binv held (w, None)" and reg: "mr_inv reg'"
    and m: "map_of (mr_models (rw_registry w)) k = Some m"
    and reg': "map_of (mr_models reg') = (map_of (mr_models (rw_registry w)))(k \<mapsto> m')"
    and m': "md_footprint m' = md_footprint m" "md_ref_count m' = c"
  shows "rz_inv binv held (w\<lparr>rw_registry := reg', rw_residency := (rw_residency w)
    \<lparr>rz_records := note_ref_count m c (rz_records (rw_residency w))\<rparr>\<rparr>, None)"
proof -
  have books: "rz_books w" using inv by (simp add: rz_inv_def)
  then have "md_id m = k" using m by (auto simp: rz_books_def dest: mr_inv_entry)
  with books have "um_all (record_matches reg') (note_ref_count m c (rz_records (rw_residency w)))"
    by (intro note_ref_count_matches [OF _ m _ reg' m']) (simp_all add: rz_books_def)
  with inv reg show ?thesis
    by (simp add: rz_inv_def rz_books_def backend_holds_def note_ref_count_wf note_ref_count_bytes)
qed

text \<open>The eviction loop.\<close>

lemma evict_records_fst:
  "fst (evict_records B es (b, m)) = fold (\<lambda>k. snd \<circ> bk_unload B k) (map rr_id es) b"
  by (induction es arbitrary: b m) (simp_all add: evict_records_def)

lemma evict_records_wf: "um_wf m \<Longrightarrow> um_wf (snd (evict_records B es (b, m)))"
  by (induction es arbitrary: b m) (simp_all add: evict_records_def distinct_update)

lemma evict_records_all:
  "um_all P m \<Longrightarrow> (\<And>e. e \<in> set es \<Longrightarrow> P (rr_id e) (e\<lparr>rr_resident := False\<rparr>)) \<Longrightarrow>
   um_all P (snd (evict_records B es (b, m)))"
  by (induction es arbitrary: b m) (simp_all add: evict_records_def um_all_put)

lemma evict_records_bytes:
  "resident_bytes (snd (evict_records B es (b, m))) = (resident_bytes m) |` (- (rr_id ` set es))"
proof (induction es arbitrary: b m)
  case (Cons e es)
  have "resident_bytes (snd (evict_records B (e # es) (b, m))) =
      (resident_bytes (um_put (rr_id e) (e\<lparr>rr_resident := False\<rparr>) m)) |` (- (rr_id ` set es))"
    using Cons.IH by (simp add: evict_records_def)
  then show ?case
    by (simp add: resident_bytes_put) (auto simp: restrict_map_def fun_eq_iff)
qed (simp add: evict_records_def restrict_map_def)

lemma evicted_matches:
  assumes "um_all (record_matches reg) m" and "\<forall>e \<in> set es. resident_record m (rr_id e) = Some e"
  shows "um_all (record_matches reg) (snd (evict_records B es (b, m)))"
proof (rule evict_records_all [OF assms(1)])
  fix e assume "e \<in> set es"
  with assms(2) have "map_of m (rr_id e) = Some e" by (simp add: resident_record_Some)
  with um_allD [OF assms(1) this] show "record_matches reg (rr_id e) (e\<lparr>rr_resident := False\<rparr>)"
    by (simp add: record_matches_def)
qed

text \<open>Giving a model's reservation back always succeeds while it is resident.\<close>

lemma release_model_resident:
  assumes "rm_inv rm" and "map_of (rm_model_reservations rm) k = Some n"
  shows "rm_release_model now k rm = (op_done n, grant_waiters_locked now (drop_model k n rm))"
proof -
  have "rm_valid_name k" using assms map_of_SomeD by (fastforce simp: rm_inv_defs)
  with assms(2) show ?thesis by (simp add: rm_release_model_def drop_model_def)
qed

end
