(* ===== verification/ResidencySteps.thy ===== *)
theory ResidencySteps
  imports ResidencyInvariant
begin

text \<open>
  Every step of the residency machine keeps its invariant, for any backend that meets the
  contract \<open>reliable_backend\<close>; so the machine is an invariant system on each of them. The books
  of registry, reservations and records hold on every backend, also one that fails to unload.
\<close>

definition rz_start :: "('b \<Rightarrow> bool) \<Rightarrow> ('b \<Rightarrow> string \<Rightarrow> bytes option) \<Rightarrow> 'b rz_state \<Rightarrow> bool" where
  "rz_start binv held s \<longleftrightarrow> (case s of (w, l) \<Rightarrow> l = None \<and> rw_registry w = mr_new \<and>
     rm_start (rw_resources w) \<and> rw_residency w = rz_new \<and>
     binv (rw_backend w) \<and> held (rw_backend w) = Map.empty)"

lemma fetched_model:
  assumes "ml_error (loader_load fs path n) = model_load_error.NoError"
  shows "of_nat (length (ml_data (loader_load fs path n))) = n"
  using loader_load_ok(1) [of fs path n] assms by (simp add: ml_ok_def)

section \<open>The end of a load, on any backend\<close>

text \<open>
  The books of the registry, the reservations and the records do not depend on what the
  backend answers: these lemmas need no contract.
\<close>

lemma commit_undone:
  assumes commit: "load_commit B now elapsed m es w = (r, w')" and refused: "\<not> mo_ok r"
  shows "r = mo_fail model_error.InsufficientMemory"
    and "w' = w\<lparr>rw_backend := snd (bk_unload B (md_id m) (rw_backend w))\<rparr>"
proof -
  obtain acq rm where acq: "rm_replace_model_reservations now (map rr_id es) (md_id m)
      (md_footprint m) (rw_resources w) = (acq, rm)" by fastforce
  have bad: "\<not> op_ok acq"
    using commit refused acq by (auto simp: load_commit_def mo_ok_def Let_def split: if_splits prod.splits)
  with commit acq replace_fail_unchanged [OF acq bad]
  show "r = mo_fail model_error.InsufficientMemory"
    and "w' = w\<lparr>rw_backend := snd (bk_unload B (md_id m) (rw_backend w))\<rparr>"
    by (simp_all add: load_commit_def)
qed

lemma commit_done:
  assumes books: "rz_books w" and ready: "load_ready w m es"
    and commit: "load_commit B now elapsed m es w = (r, w')" and ok: "mo_ok r"
  shows "rz_books w'"
    and "resident_bytes (rz_records (rw_residency w')) =
      ((resident_bytes (rz_records (rw_residency w))) |` (- (rr_id ` set es)))(md_id m \<mapsto> md_footprint m)"
    and "rw_registry w' = rw_registry w" and "r = mo_done (md_footprint m)"
    and "rw_backend w' = fold (\<lambda>k. snd \<circ> bk_unload B k) (map rr_id es) (rw_backend w)"
    and "map_of (rm_model_reservations (rw_resources w')) = resident_bytes (rz_records (rw_residency w'))"
proof -
  let ?rs = "rz_records (rw_residency w)"
  obtain acq rm where acq: "rm_replace_model_reservations now (map rr_id es) (md_id m)
      (md_footprint m) (rw_resources w) = (acq, rm)" by fastforce
  obtain b rs where ev: "evict_records B es (rw_backend w, ?rs) = (b, rs)" by fastforce
  have good: "op_ok acq"
    using commit ok acq by (auto simp: load_commit_def mo_ok_def Let_def split: if_splits prod.splits)
  have w': "w' = w\<lparr>rw_resources := rm, rw_backend := b,
      rw_residency := finish_record m elapsed rs (rw_residency w)\<rparr>"
    and r: "r = mo_done (md_footprint m)"
    using commit good acq ev by (simp_all add: load_commit_def)
  have rs: "um_wf rs" "resident_bytes rs = (resident_bytes ?rs) |` (- (rr_id ` set es))"
    "um_all (record_matches (rw_registry w)) rs"
    using books ready evict_records_wf [of ?rs B es "rw_backend w"] evict_records_bytes [of B es "rw_backend w" ?rs]
      evicted_matches [of "rw_registry w" ?rs es B "rw_backend w"] ev
    by (simp_all add: rz_books_def load_ready_def)
  have fin: "resident_bytes (rz_records (finish_record m elapsed rs (rw_residency w))) =
      (resident_bytes rs)(md_id m \<mapsto> md_footprint m)"
    by (simp add: finish_record_def Let_def resident_bytes_put)
  show reg: "rw_registry w' = rw_registry w" by (simp add: w')
  show "resident_bytes (rz_records (rw_residency w')) =
      ((resident_bytes ?rs) |` (- (rr_id ` set es)))(md_id m \<mapsto> md_footprint m)"
    by (simp add: w' fin rs(2))
  show "rz_books w'"
  proof -
    have "rm_good rm"
      using replace_good [of "rw_resources w" now "map rr_id es" "md_id m" "md_footprint m"] books acq
      by (simp add: rz_books_def)
    moreover have "map_of (rm_model_reservations rm) = resident_bytes (rz_records (rw_residency w'))"
    proof -
      have "map_of (rm_model_reservations (rw_resources w)) (md_id m) = None"
        using replace_success(5) [OF acq good] by (simp add: map_of_eq_None_iff)
      then have "\<not> um_contains (md_id m)
          (rm_model_reservations (drop_evictions (map rr_id es) (rw_resources w)))"
        by (simp add: um_contains_def map_of_drop_evictions restrict_map_def)
      with replace_success(8) [OF acq good] books show ?thesis
        by (simp add: w' fin rs(2) add_model_def map_of_um_emplace map_of_drop_evictions rz_books_def)
    qed
    moreover have "um_all (record_matches (rw_registry w)) (rz_records (rw_residency w'))"
      using rs(3) ready
      by (auto simp: w' finish_record_def Let_def load_ready_def record_matches_def intro: um_all_put)
    moreover have "um_wf (rz_records (rw_residency w'))"
      using rs(1) by (simp add: w' finish_record_def Let_def distinct_update)
    ultimately show ?thesis using books by (simp add: rz_books_def w')
  qed
  then show "map_of (rm_model_reservations (rw_resources w')) = resident_bytes (rz_records (rw_residency w'))"
    by (simp add: rz_books_def)
  show "rw_backend w' = fold (\<lambda>k. snd \<circ> bk_unload B k) (map rr_id es) (rw_backend w)"
    using evict_records_fst [of B es "rw_backend w" ?rs] ev by (simp add: w')
  show "r = mo_done (md_footprint m)" by (rule r)
qed

section \<open>Unloading, on any backend\<close>

text \<open>
  An unload is refused, fails in the backend, or removes the model from the reservations and
  the records; the code's rollback, which reloads the backend, is never reached.
\<close>

lemma unload_outcome:
  assumes books: "rz_books w" and unload: "rz_unload B now k w = (r, w')"
  obtains (refused) "r \<in> mo_fail ` {model_error.UnknownModel, model_error.UnknownResidency}"
      "resident_record (rz_records (rw_residency w)) k = None" "w' = w"
  | (in_use) rc where "resident_record (rz_records (rw_residency w)) k = Some rc"
      "rr_ref_count rc \<noteq> 0" "r = mo_fail model_error.ModelInUse" "w' = w"
  | (failed) rc where "resident_record (rz_records (rw_residency w)) k = Some rc"
      "rr_ref_count rc = 0" "\<not> bo_ok (fst (bk_unload B k (rw_backend w)))"
      "r = mo_fail model_error.BackendFailure"
      "w' = w\<lparr>rw_backend := snd (bk_unload B k (rw_backend w))\<rparr>"
  | (unloaded) rc where "resident_record (rz_records (rw_residency w)) k = Some rc"
      "rr_ref_count rc = 0" "bo_ok (fst (bk_unload B k (rw_backend w)))"
      "r = mo_done (rr_footprint rc)"
      "w' = w\<lparr>rw_backend := snd (bk_unload B k (rw_backend w)),
         rw_resources := grant_waiters_locked now (drop_model k (rr_footprint rc) (rw_resources w)),
         rw_residency := (rw_residency w)\<lparr>rz_records :=
           um_put k (rc\<lparr>rr_resident := False\<rparr>) (rz_records (rw_residency w))\<rparr>\<rparr>"
proof (cases "resident_record (rz_records (rw_residency w)) k")
  case None
  with unload show thesis by (intro refused) (auto simp: rz_unload_def split: if_splits)
next
  case (Some rc)
  then have "um_all (record_matches (rw_registry w)) (rz_records (rw_residency w))"
    "map_of (rz_records (rw_residency w)) k = Some rc" using books by (simp_all add: rz_books_def resident_record_Some)
  from um_allD [OF this] obtain md where find: "find_model (mr_snapshot (rw_registry w)) k = Some md"
    using books by (auto simp: rz_books_def find_model_eq record_matches_def)
  have rel: "rm_release_model now k (rw_resources w) = (op_done (rr_footprint rc),
      grant_waiters_locked now (drop_model k (rr_footprint rc) (rw_resources w)))"
    by (rule release_model_resident)
      (use books Some in \<open>simp_all add: rz_books_def rm_good_def resident_bytes_def\<close>)
  note eq = unload [symmetric, unfolded rz_unload_def]
  consider "rr_ref_count rc \<noteq> 0" | "rr_ref_count rc = 0" "\<not> bo_ok (fst (bk_unload B k (rw_backend w)))"
    | "rr_ref_count rc = 0" "bo_ok (fst (bk_unload B k (rw_backend w)))" by blast
  then show thesis
  proof cases
    case 1
    with Some find eq show thesis by (intro in_use [OF Some]) simp_all
  next
    case 2
    with Some find eq show thesis
      by (intro failed [OF Some]) (simp_all add: case_prod_beta Let_def)
  next
    case 3
    with Some find eq rel show thesis
      by (intro unloaded [OF Some]) (simp_all add: case_prod_beta Let_def op_ok_def)
  qed
qed

lemma unload_books:
  assumes books: "rz_books w" and unload: "rz_unload B now k w = (r, w')"
  shows "rz_books w'"
  using books unload
proof (cases rule: unload_outcome)
  case (unloaded rc)
  let ?rs = "rz_records (rw_residency w)"
  have res: "map_of (rm_model_reservations (rw_resources w)) k = Some (rr_footprint rc)"
    using books unloaded(1) by (simp add: rz_books_def resident_bytes_def)
  have "rm_good (grant_waiters_locked now (drop_model k (rr_footprint rc) (rw_resources w)))"
    using books res by (intro grant_waiters_good drop_model_inv) (simp_all add: rz_books_def rm_good_def)
  then have "rm_good (rw_resources w')" by (simp add: unloaded(5))
  moreover have "map_of (rm_model_reservations (rw_resources w')) = (resident_bytes ?rs)(k := None)"
    using books by (simp add: unloaded drop_model_def map_of_um_erase rz_books_def)
  moreover have "record_matches (rw_registry w) k (rc\<lparr>rr_resident := False\<rparr>)"
    using books um_allD [of "record_matches (rw_registry w)" ?rs k rc] unloaded(1)
    by (simp add: rz_books_def resident_record_Some record_matches_def)
  ultimately show ?thesis
    using books by (simp add: rz_books_def unloaded(5) resident_bytes_put um_all_put distinct_update)
qed (use books in \<open>simp_all add: rz_books_def\<close>)

context backend
begin

lemma fetch_keeps_inv:
  assumes "binv b" and "load_fetch B fs m b = (e, b')"
  shows "binv b'"
  using assms load_inv [OF assms(1), of "md_id m" "md_footprint m"] load_data_inv [OF assms(1), of "md_id m"]
  by (auto simp: load_fetch_def case_prod_beta Let_def split: if_splits model_load_error.splits)

lemma fetch_held:
  assumes inv: "binv b" and fetch: "load_fetch B fs m b = (e, b')"
  shows "held b' = (if e = None then (held b)(md_id m \<mapsto> md_footprint m) else held b)"
proof (cases "md_source_path m = []")
  case True
  with fetch load_held [OF inv, of "md_id m" "md_footprint m"] show ?thesis
    by (auto simp: load_fetch_def split: prod.splits if_splits)
next
  case False
  let ?file = "loader_load fs (md_source_path m) (md_footprint m)"
  show ?thesis
  proof (cases "ml_error ?file = model_load_error.NoError")
    case True
    with False fetch load_data_held [OF inv, of "md_id m" "ml_data ?file"] fetched_model [OF True]
    show ?thesis by (auto simp: load_fetch_def Let_def split: prod.splits if_splits)
  next
    case e: False
    with False fetch show ?thesis
      by (auto simp: load_fetch_def Let_def split: model_load_error.splits)
  qed
qed

end

section \<open>The end of a load\<close>

context reliable_backend
begin

lemma commit_refused:
  assumes inv: "rz_inv binv held (w, Some (m, es))"
    and commit: "load_commit B now elapsed m es w = (r, w')" and refused: "\<not> mo_ok r"
  shows "rz_inv binv held (w', None) \<and> rw_registry w' = rw_registry w \<and>
    rw_resources w' = rw_resources w \<and> rw_residency w' = rw_residency w"
proof -
  have "binv (rw_backend w)" using inv by (simp add: rz_inv_def)
  with inv have "held (snd (bk_unload B (md_id m) (rw_backend w))) =
      resident_bytes (rz_records (rw_residency w))"
    by (simp add: rz_inv_def backend_holds_def load_ready_def unload_removes fun_upd_idem_iff
        resident_bytes_def)
  with inv show ?thesis
    by (simp add: commit_undone(2) [OF commit refused] rz_inv_def backend_holds_def unload_inv rz_books_def)
qed

lemma commit_accepted:
  assumes inv: "rz_inv binv held (w, Some (m, es))"
    and commit: "load_commit B now elapsed m es w = (r, w')" and ok: "mo_ok r"
  shows "rz_inv binv held (w', None)"
    and "resident_bytes (rz_records (rw_residency w')) =
      ((resident_bytes (rz_records (rw_residency w))) |` (- (rr_id ` set es)))(md_id m \<mapsto> md_footprint m)"
    and "rw_registry w' = rw_registry w" and "r = mo_done (md_footprint m)"
proof -
  have books: "rz_books w" and ready: "load_ready w m es" and binv: "binv (rw_backend w)"
    and held: "held (rw_backend w) = (resident_bytes (rz_records (rw_residency w)))(md_id m \<mapsto> md_footprint m)"
    using inv by (simp_all add: rz_inv_def backend_holds_def)
  note finished = commit_done [OF books ready commit ok]
  have "binv (rw_backend w')" "held (rw_backend w') = (held (rw_backend w)) |` (- (rr_id ` set es))"
    using fold_unload [OF binv, of "map rr_id es"] by (simp_all add: finished(5))
  moreover have "md_id m \<notin> rr_id ` set es" using ready by (auto simp: load_ready_def)
  ultimately show "rz_inv binv held (w', None)"
    using finished(1) by (simp add: rz_inv_def backend_holds_def held finished(2))
qed (rule commit_done(2-4) [OF _ _ commit ok]; use inv in \<open>simp add: rz_inv_def backend_holds_def\<close>)+

lemma commit_inv:
  assumes "rz_inv binv held (w, Some (m, es))" and "load_commit B now elapsed m es w = (r, w')"
  shows "rz_inv binv held (w', None)"
  using commit_refused [OF assms] commit_accepted(1) [OF assms] by blast

section \<open>Unloading\<close>

text \<open>A reliable backend takes part in every unload that is not refused.\<close>

lemma unload_cases:
  assumes inv: "rz_inv binv held (w, None)" and unload: "rz_unload B now k w = (r, w')"
  obtains (unloaded) rc where "resident_record (rz_records (rw_residency w)) k = Some rc"
      "rr_ref_count rc = 0" "r = mo_done (rr_footprint rc)"
      "rw_registry w' = rw_registry w"
      "rw_resources w' = grant_waiters_locked now
        (drop_model k (rr_footprint rc) (rw_resources w))"
      "rw_backend w' = snd (bk_unload B k (rw_backend w))"
      "rw_residency w' = (rw_residency w)\<lparr>rz_records :=
        um_put k (rc\<lparr>rr_resident := False\<rparr>) (rz_records (rw_residency w))\<rparr>"
  | (refused) "\<not> mo_ok r" "w' = w"
proof -
  have books: "rz_books w" and binv: "binv (rw_backend w)"
    and held: "held (rw_backend w) = resident_bytes (rz_records (rw_residency w))"
    using inv by (simp_all add: rz_inv_def backend_holds_def)
  from books unload show thesis
  proof (cases rule: unload_outcome)
    case (failed rc)
    have "bo_ok (fst (bk_unload B k (rw_backend w)))"
      by (rule unload_ok [OF binv]) (simp add: held resident_bytes_def failed(1))
    with failed(3) show thesis by simp
  next
    case (unloaded rc)
    show thesis by (rule that(1) [OF unloaded(1,2,4)]) (simp_all add: unloaded(5))
  qed (auto intro!: that(2) simp: mo_ok_def)
qed

lemma unload_step_inv:
  assumes inv: "rz_inv binv held (w, None)" and unload: "rz_unload B now k w = (r, w')"
  shows "rz_inv binv held (w', None)"
  using inv unload
proof (cases rule: unload_cases)
  case (unloaded rc)
  have books: "rz_books w" and binv: "binv (rw_backend w)"
    and held: "held (rw_backend w) = resident_bytes (rz_records (rw_residency w))"
    using inv by (simp_all add: rz_inv_def backend_holds_def)
  have "resident_bytes (rz_records (rw_residency w')) = (resident_bytes (rz_records (rw_residency w)))(k := None)"
    by (simp add: unloaded resident_bytes_put)
  with unload_books [OF books unload] show ?thesis
    by (simp add: rz_inv_def backend_holds_def unloaded(6) unload_removes [OF binv] held unload_inv [OF binv])
qed (use inv in simp)

lemma share_step_inv:
  assumes inv: "rz_inv binv held (w, None)" and share: "rz_share B k w = (r, w')"
  shows "rz_inv binv held (w', None)"
proof -
  have binv: "binv (rw_backend w)" using inv by (simp add: rz_inv_def)
  have "w' = w \<or> w' = w\<lparr>rw_backend := snd (bk_share B k (rw_backend w))\<rparr>"
    using share by (auto simp: rz_share_def Let_def split: if_splits option.splits prod.splits)
  with inv share_inv [OF binv] share_held [OF binv] show ?thesis
    by (auto simp: rz_inv_def rz_books_def backend_holds_def)
qed

end

section \<open>Reference counts\<close>

lemma find_model_books:
  "rz_books w \<Longrightarrow> find_model (mr_snapshot (rw_registry w)) k = map_of (mr_models (rw_registry w)) k"
  by (simp add: rz_books_def find_model_eq)

lemma retain_step_inv:
  assumes inv: "rz_inv binv held (w, None)" and op: "rz_retain k w = (r, w')"
  shows "rz_inv binv held (w', None)"
proof -
  have books: "rz_books w" using inv by (simp add: rz_inv_def)
  obtain res reg where res: "mr_retain k (rw_registry w) = (res, reg)" by fastforce
  have reg: "mr_inv reg" using mr_retain_inv [of "rw_registry w" k] books res by (simp add: rz_books_def)
  show ?thesis
  proof (cases "mo_ok res \<and> map_of (mr_models (rw_registry w)) k \<noteq> None")
    case True
    then obtain m m' where m: "map_of (mr_models (rw_registry w)) k = Some m"
        "map_of (mr_models reg) = (map_of (mr_models (rw_registry w)))(k \<mapsto> m')"
        "md_footprint m' = md_footprint m" "md_ref_count m' = mo_amount res"
      using retain_effect [OF res] by auto
    with noted_inv [OF inv reg m] op res True show ?thesis
      by (auto simp: rz_retain_def find_model_books [OF books])
  next
    case False
    then have "w' = w"
      using op res retain_effect [OF res]
      by (auto simp: rz_retain_def find_model_books [OF books] split: option.splits if_splits)
    with inv show ?thesis by simp
  qed
qed

lemma release_step_inv:
  assumes inv: "rz_inv binv held (w, None)" and op: "rz_release_model k w = (r, w')"
  shows "rz_inv binv held (w', None)"
proof -
  have books: "rz_books w" using inv by (simp add: rz_inv_def)
  obtain res reg where res: "mr_release_model k (rw_registry w) = (res, reg)" by fastforce
  have reg: "mr_inv reg" using mr_release_inv [of "rw_registry w" k] books res by (simp add: rz_books_def)
  show ?thesis
  proof (cases "mo_ok res \<and> map_of (mr_models (rw_registry w)) k \<noteq> None")
    case True
    then obtain m m' where m: "map_of (mr_models (rw_registry w)) k = Some m"
        "map_of (mr_models reg) = (map_of (mr_models (rw_registry w)))(k \<mapsto> m')"
        "md_footprint m' = md_footprint m" "md_ref_count m' = mo_amount res"
      using release_effect [OF res] by auto
    with noted_inv [OF inv reg m] op res True show ?thesis
      by (auto simp: rz_release_model_def find_model_books [OF books])
  next
    case False
    then have "w' = w"
      using op res release_effect [OF res]
      by (auto simp: rz_release_model_def find_model_books [OF books] split: option.splits if_splits)
    with inv show ?thesis by simp
  qed
qed

lemma unregister_step_inv:
  assumes inv: "rz_inv binv held (w, None)" and op: "rz_unregister_model k w = (r, w')"
  shows "rz_inv binv held (w', None)"
proof -
  let ?rs = "rz_records (rw_residency w)"
  have books: "rz_books w" using inv by (simp add: rz_inv_def)
  obtain res reg where res: "mr_unregister_model k (rw_registry w) = (res, reg)" by fastforce
  show ?thesis
  proof (cases "mo_ok res \<and> resident_record ?rs k = None")
    case True
    have reg: "mr_inv reg"
      using mr_unregister_inv [of "rw_registry w" k] books res by (simp add: rz_books_def)
    have maps: "map_of (mr_models reg) = (map_of (mr_models (rw_registry w)))(k := None)"
      using res True by (auto simp: mr_unregister_model_def mo_ok_def map_of_um_erase
          split: if_splits option.splits)
    have w': "w' = w\<lparr>rw_registry := reg, rw_residency := (rw_residency w)
        \<lparr>rz_records := um_erase k ?rs\<rparr>\<rparr>"
      using op res True by (simp add: rz_unregister_model_def)
    have "um_all (record_matches reg) (um_erase k ?rs)"
      using books by (auto simp: um_all_def rz_books_def map_of_um_erase record_matches_def maps)
    with inv reg True show ?thesis
      by (simp add: w' rz_inv_def rz_books_def backend_holds_def resident_bytes_erase um_wf_erase)
  next
    case False
    then have "w' = w"
      using op res unregister_unchanged [OF res]
      by (auto simp: rz_unregister_model_def split: if_splits)
    with inv show ?thesis by simp
  qed
qed

lemma rz_start_inv: "rz_start binv held s \<Longrightarrow> rz_inv binv held s"
  by (auto simp: rz_start_def rz_inv_def rz_books_def backend_holds_def rz_new_def mr_new_def
      mr_inv_def resident_bytes_def resident_record_def rm_start_def rm_good_def fun_eq_iff
      dest: rm_inv_new rm_new_models)

section \<open>The whole machine\<close>

context reliable_backend
begin

lemma rz_step_inv: "rz_step rd B s e t \<Longrightarrow> rz_inv binv held s \<Longrightarrow> rz_inv binv held t"
proof (induction rule: rz_step.induct)
  case (step_client e w rm l)
  then have "rm_good rm" "rm_model_reservations rm = rm_model_reservations (rw_resources w)"
    using rm_step_good client_step_models by (auto simp: rz_inv_def rz_books_def)
  with step_client show ?case
    by (auto simp: rz_inv_def rz_books_def backend_holds_def load_ready_def split: option.splits)
next
  case (step_register k n md w r reg l)
  show ?case
  proof (rule registry_grows [OF step_register(2)])
    show "mr_inv reg"
      using step_register mr_register_model_inv [of "rw_registry w" k n md]
      by (simp add: rz_inv_def rz_books_def)
  qed (rule register_keeps [OF step_register(1)])
next
  case (step_register_file fs k path md w r reg l)
  show ?case
  proof (rule registry_grows [OF step_register_file(2)])
    show "mr_inv reg"
      using step_register_file mr_register_file_inv [of "rw_registry w" fs k path md]
      by (simp add: rz_inv_def rz_books_def)
  qed (rule register_file_keeps [OF step_register_file(1)])
next
  case (step_load_fail k w m es fs err b)
  then have "binv (rw_backend w)" by (simp add: rz_inv_def)
  from fetch_keeps_inv [OF this step_load_fail(2)] fetch_held [OF this step_load_fail(2)] step_load_fail(3)
  show ?case by (simp add: rz_inv_def rz_books_def backend_holds_def)
next
  case (step_load_begin k w m es fs b)
  then have binv: "binv (rw_backend w)" and "rz_books w" by (simp_all add: rz_inv_def)
  from plan_ready(1) [OF this(2) step_load_begin(1)]
    fetch_keeps_inv [OF binv step_load_begin(2)] fetch_held [OF binv step_load_begin(2)] step_load_begin(3)
  show ?case by (simp add: rz_inv_def rz_books_def backend_holds_def load_ready_def)
qed (auto intro: commit_inv unload_step_inv share_step_inv retain_step_inv release_step_inv
    unregister_step_inv)

text \<open>No step takes the residency of a retained model.\<close>

lemma retained_step:
  assumes inv: "rz_inv binv held (w, l)" and step: "rz_step rd B (w, l) e (w', l')"
    and rec: "resident_record (rz_records (rw_residency w)) k = Some r" and pos: "rr_ref_count r \<noteq> 0"
  shows "resident_bytes (rz_records (rw_residency w')) k = Some (rr_footprint r)"
proof -
  have bytes: "resident_bytes (rz_records (rw_residency w)) k = Some (rr_footprint r)"
    using rec by (simp add: resident_bytes_def)
  show ?thesis
    using step
  proof (cases rule: rz_step.cases)
    case (step_load_end now elapsed m es res)
    then have i: "rz_inv binv held (w, Some (m, es))"
      and c: "load_commit B now elapsed m es w = (res, w')" using inv by simp_all
    have ready: "load_ready w m es" using i by (simp add: rz_inv_def backend_holds_def)
    have "k \<noteq> md_id m" "k \<notin> rr_id ` set es"
      using ready rec pos by (auto simp: load_ready_def)
    then show ?thesis
      using commit_refused [OF i c] commit_accepted(2) [OF i c] bytes
      by (cases "mo_ok res") simp_all
  next
    case (step_unload now j res)
    then have i: "rz_inv binv held (w, None)"
      and u: "rz_unload B now j w = (res, w')" using inv by simp_all
    from i u show ?thesis
    proof (cases rule: unload_cases)
      case (unloaded rc)
      with rec pos bytes have "j \<noteq> k" by auto
      with unloaded bytes show ?thesis by (simp add: resident_bytes_put)
    qed (use bytes in simp)
  next
    case (step_share j res)
    then show ?thesis
      using bytes by (auto simp: rz_share_def Let_def split: if_splits option.splits prod.splits)
  next
    case (step_retain j res)
    then show ?thesis
      using bytes by (auto simp: rz_retain_def Let_def note_ref_count_bytes split: option.splits prod.splits)
  next
    case (step_release j res)
    then show ?thesis
      using bytes
      by (auto simp: rz_release_model_def Let_def note_ref_count_bytes split: option.splits prod.splits)
  next
    case (step_unregister j res)
    then show ?thesis
      using bytes
      by (auto simp: rz_unregister_model_def Let_def resident_bytes_erase split: if_splits prod.splits)
  qed (use bytes in simp_all)
qed

end

sublocale reliable_backend \<subseteq> machine: invariant_system "rz_start binv held" "rz_step rd B" "rz_inv binv held"
  for rd
  by unfold_locales (auto intro: rz_start_inv rz_step_inv)

section \<open>On a backend that may fail to unload\<close>

text \<open>
  What holds of every reachable state whatever the backend answers: the books of registry,
  reservations and records, and the readiness of a load in progress.
\<close>

definition books_hold :: "'b rz_state \<Rightarrow> bool" where
  "books_hold s \<longleftrightarrow> (case s of (w, l) \<Rightarrow> rz_books w \<and>
     (case l of None \<Rightarrow> True | Some (m, es) \<Rightarrow> load_ready w m es))"

text \<open>They are the machine's invariant for a backend of which nothing is known.\<close>

lemma books_hold_inv: "books_hold (w, l) \<longleftrightarrow> (\<exists>h. rz_inv (\<lambda>_. True) (\<lambda>_. h) (w, l))"
  by (auto simp: books_hold_def rz_inv_def backend_holds_def split: option.splits)

lemma books_step: "rz_step rd B s e t \<Longrightarrow> books_hold s \<Longrightarrow> books_hold t"
proof (induction rule: rz_step.induct)
  case (step_client e w rm l)
  then have "rm_good rm" "rm_model_reservations rm = rm_model_reservations (rw_resources w)"
    using rm_step_good client_step_models by (auto simp: books_hold_def rz_books_def)
  with step_client show ?case
    by (auto simp: books_hold_def rz_books_def load_ready_def split: option.splits)
next
  case (step_register k n md w r reg l)
  then obtain h where h: "rz_inv (\<lambda>_. True) (\<lambda>_. h) (w, l)" by (auto simp: books_hold_inv)
  have "mr_inv reg"
    using step_register mr_register_model_inv [of "rw_registry w" k n md] by (simp add: books_hold_def rz_books_def)
  from registry_grows [OF h this register_keeps [OF step_register(1)]] show ?case
    by (auto simp: books_hold_inv)
next
  case (step_register_file fs k path md w r reg l)
  then obtain h where h: "rz_inv (\<lambda>_. True) (\<lambda>_. h) (w, l)" by (auto simp: books_hold_inv)
  have "mr_inv reg"
    using step_register_file mr_register_file_inv [of "rw_registry w" fs k path md]
    by (simp add: books_hold_def rz_books_def)
  from registry_grows [OF h this register_file_keeps [OF step_register_file(1)]] show ?case
    by (auto simp: books_hold_inv)
next
  case (step_load_begin k w m es fs b)
  then have "load_ready w m es" using plan_ready(1) by (auto simp: books_hold_def)
  with step_load_begin(3) show ?case by (simp add: books_hold_def rz_books_def load_ready_def)
next
  case (step_load_end now elapsed m es w r w')
  then have "rz_books w" "load_ready w m es" by (simp_all add: books_hold_def)
  with commit_done(1) [OF this step_load_end(1)] commit_undone(2) [OF step_load_end(1)] show ?case
    by (cases "mo_ok r") (simp_all add: books_hold_def rz_books_def)
next
  case (step_unload now k w r w')
  then show ?case using unload_books by (auto simp: books_hold_def)
next
  case (step_share k w r w')
  then show ?case
    by (auto simp: books_hold_def rz_books_def rz_share_def Let_def split: if_splits option.splits prod.splits)
next
  case (step_retain k w r w')
  then show ?case using retain_step_inv unfolding books_hold_inv by blast
next
  case (step_release k w r w')
  then show ?case using release_step_inv unfolding books_hold_inv by blast
next
  case (step_unregister k w r w')
  then show ?case using unregister_step_inv unfolding books_hold_inv by blast
qed (auto simp: books_hold_def rz_books_def)

lemma books_run: "run (rz_step rd B) s es t \<Longrightarrow> books_hold s \<Longrightarrow> books_hold t"
  by (induction rule: run.induct) (auto intro: books_step)

lemma start_books: "rz_start binv held s \<Longrightarrow> books_hold s"
  using rz_start_inv by (fastforce simp: rz_start_def books_hold_def rz_inv_def)

context backend
begin

lemma fold_unload_inv: "binv b \<Longrightarrow> binv (fold (\<lambda>k. snd \<circ> bk_unload B k) ks b)"
  by (induction ks arbitrary: b) (simp_all add: unload_inv)

lemma backend_step: "rz_step rd B s e t \<Longrightarrow> books_hold s \<Longrightarrow> binv (rw_backend (fst s)) \<Longrightarrow> binv (rw_backend (fst t))"
proof (induction rule: rz_step.induct)
  case (step_load_end now elapsed m es w r w')
  then have "rz_books w" "load_ready w m es" by (simp_all add: books_hold_def)
  with commit_done(5) [OF this step_load_end(1)] commit_undone(2) [OF step_load_end(1)] step_load_end(3)
  show ?case by (cases "mo_ok r") (simp_all add: fold_unload_inv unload_inv)
next
  case (step_unload now k w r w')
  then have "rz_books w" by (simp add: books_hold_def)
  from this step_unload(1) step_unload(3) show ?case
    by (cases rule: unload_outcome) (simp_all add: unload_inv)
next
  case (step_share k w r w')
  then have "w' = w \<or> w' = w\<lparr>rw_backend := snd (bk_share B k (rw_backend w))\<rparr>"
    by (auto simp: rz_share_def Let_def split: if_splits option.splits prod.splits)
  with step_share(3) show ?case by (auto simp: share_inv)
qed (auto simp: rz_retain_def rz_release_model_def rz_unregister_model_def Let_def fetch_keeps_inv
    split: if_splits option.splits prod.splits)

lemma backend_run:
  "run (rz_step rd B) s es t \<Longrightarrow> books_hold s \<Longrightarrow> binv (rw_backend (fst s)) \<Longrightarrow> binv (rw_backend (fst t))"
  by (induction rule: run.induct) (auto intro: books_step backend_step)

end

end
