(* ===== verification/EvictionPlan.thy ===== *)
theory EvictionPlan
  imports ResidencySteps
begin

text \<open>
  The arithmetic of an eviction: the candidates' bytes never wrap, the prefix chosen is the
  shortest that makes room, and the swap of the reservations accepts it.
\<close>

section \<open>The prefix taken\<close>

definition records_total :: "residency_record list \<Rightarrow> nat" where
  "records_total rs = (\<Sum>r \<leftarrow> rs. unat (rr_footprint r))"

lemma records_total_simps [simp]:
  "records_total [] = 0"
  "records_total (r # rs) = unat (rr_footprint r) + records_total rs"
  "records_total (rs @ rs') = records_total rs + records_total rs'"
  by (simp_all add: records_total_def)

lemma records_total_sort [simp]: "records_total (sort_key f rs) = records_total rs"
proof -
  have "mset (map (\<lambda>r. unat (rr_footprint r)) (sort_key f rs)) = mset (map (\<lambda>r. unat (rr_footprint r)) rs)"
    by simp
  then show ?thesis unfolding records_total_def by (metis sum_mset_sum_list)
qed

lemma take_evictions_spec:
  assumes "take_evictions need available rs = (es, a)"
    and "unat available + records_total rs < 2 ^ 64"
  shows "unat a = unat available + records_total es \<and> (\<exists>ks. rs = es @ ks \<and> (a < need \<longrightarrow> ks = [])) \<and>
    (es \<noteq> [] \<longrightarrow> unat available + records_total (butlast es) < unat need)"
  using assms
proof (induction need available rs arbitrary: es a rule: take_evictions.induct)
  case (2 need available r rs)
  show ?case
  proof (cases "available < need")
    case True
    obtain es' where rec: "take_evictions need (available + rr_footprint r) rs = (es', a)"
      and es: "es = r # es'"
      using "2.prems"(1) True by (auto simp: Let_def split: prod.splits)
    have "unat available + unat (rr_footprint r) < 2 ^ LENGTH(64)" using "2.prems"(2) by simp
    then have sum: "unat (available + rr_footprint r) = unat available + unat (rr_footprint r)"
      by (rule unat_add_lem [THEN iffD1])
    have "unat (available + rr_footprint r) + records_total rs < 2 ^ 64"
      using "2.prems"(2) by (simp add: sum)
    note IH = "2.IH" [OF True rec this]
    have "unat available < unat need" using True by (simp add: word_less_nat_alt)
    with IH show ?thesis by (auto simp: es sum)
  next
    case False
    with "2.prems" show ?thesis by simp
  qed
qed simp

lemma choose_evictions_spec:
  fixes rd :: "rat \<Rightarrow> rat"
  assumes "unat available + records_total (eviction_candidates m) < 2 ^ 64"
  defines "cs \<equiv> sort_key (residency_score rd) (eviction_candidates m)"
  shows "case choose_evictions rd m need available of
      None \<Rightarrow> unat available + records_total (eviction_candidates m) < unat need
    | Some es \<Rightarrow> unat need \<le> unat available + records_total es \<and> (\<exists>ks. cs = es @ ks) \<and>
        (es \<noteq> [] \<longrightarrow> unat available + records_total (butlast es) < unat need)"
proof (cases "available < need")
  case True
  obtain es a where t: "take_evictions need available cs = (es, a)" by fastforce
  have "unat available + records_total cs < 2 ^ 64" using assms(1) by (simp add: cs_def)
  note spec = take_evictions_spec [OF t this]
  show ?thesis
  proof (cases "a < need")
    case small: True
    with spec have "es = cs" by auto
    with spec have "unat a = unat available + records_total (eviction_candidates m)"
      by (simp add: cs_def)
    with small True t show ?thesis
      by (simp add: choose_evictions_def cs_def word_less_nat_alt)
  next
    case False
    with True t spec show ?thesis
      by (auto simp: choose_evictions_def cs_def word_less_nat_alt)
  qed
next
  case False
  then show ?thesis by (simp add: choose_evictions_def word_less_nat_alt)
qed

lemma sorted_prefix_least:
  assumes "sort_key f xs = es @ ks" and "e \<in> set es" and "k \<in> set ks"
  shows "f e \<le> f k"
proof -
  have "sorted (map f (es @ ks))" using assms(1) by (metis sorted_sort_key)
  with assms(2,3) show ?thesis by (auto simp: sorted_append)
qed

lemma sorted_prefix_total: "sort_key f xs = es @ ks \<Longrightarrow> records_total es \<le> records_total xs"
  by (metis le_add1 records_total_simps(3) records_total_sort)

section \<open>The reservations given back\<close>

lemma um_total_distinct_entries:
  "um_wf m \<Longrightarrow> distinct (map rr_id es) \<Longrightarrow>
   (\<forall>e \<in> set es. map_of m (rr_id e) = Some (rr_footprint e)) \<Longrightarrow> records_total es \<le> um_total m"
proof (induction es arbitrary: m)
  case (Cons e es)
  have e: "map_of m (rr_id e) = Some (rr_footprint e)" using Cons.prems(3) by simp
  have "records_total es \<le> um_total (um_erase (rr_id e) m)"
    using Cons.prems by (intro Cons.IH) (auto simp: map_of_um_erase um_wf_erase intro: rev_image_eqI)
  with um_total_erase [OF Cons.prems(1) e] show ?case by simp
qed simp

lemma drop_evictions_total:
  "rm_inv s \<Longrightarrow> distinct (map rr_id es) \<Longrightarrow>
   (\<forall>e \<in> set es. map_of (rm_model_reservations s) (rr_id e) = Some (rr_footprint e)) \<Longrightarrow>
   rm_total s = records_total es + rm_total (drop_evictions (map rr_id es) s)"
proof (induction es arbitrary: s)
  case (Cons e es)
  let ?t = "drop_model (rr_id e) (rr_footprint e) s"
  have e: "map_of (rm_model_reservations s) (rr_id e) = Some (rr_footprint e)"
    using Cons.prems(3) by simp
  have "rm_total s = unat (rr_footprint e) + rm_total ?t"
    using um_total_erase [OF rm_inv_wf(2) [OF Cons.prems(1)] e]
    by (simp add: rm_total_def drop_model_def)
  moreover have "rm_total ?t = records_total es + rm_total (drop_evictions (map rr_id es) ?t)"
    using Cons.prems drop_model_inv [OF Cons.prems(1) e]
    by (intro Cons.IH) (auto simp: drop_model_def map_of_um_erase intro: rev_image_eqI)
  ultimately show ?case
    using e by (simp add: drop_evictions_step del: drop_evictions.simps(2))
qed simp

lemma evicted_bytes_defined: "set es \<subseteq> um_keys m \<Longrightarrow> \<exists>ev. evicted_bytes m acc es = Some ev"
proof (induction m acc es rule: evicted_bytes.induct)
  case (2 m acc e es)
  then obtain n where "map_of m e = Some n"
    by (metis insert_subset list.set(2) map_of_eq_None_iff option.exhaust)
  with 2 show ?case by simp
qed simp

lemma replace_accepts:
  assumes inv: "rm_inv s" and es: "distinct es" "set es \<subseteq> um_keys (rm_model_reservations s)"
    and new: "rm_valid_name k" "n \<noteq> 0" "k \<notin> um_keys (rm_model_reservations s)"
    and fits: "unat n + rm_total (drop_evictions es s) \<le> unat (rm_capacity s)"
  shows "op_ok (fst (rm_replace_model_reservations now es k n s))"
proof -
  obtain ev where ev: "evicted_bytes (rm_model_reservations s) 0 es = Some ev"
    using evicted_bytes_defined [OF es(2)] by blast
  have "n \<le> rm_capacity s - rm_used s + ev"
    unfolding replace_guard [OF ev es(1)]
    using fits rm.fits_iff [OF drop_evictions_inv [OF inv], of n es] by simp
  with ev es new show ?thesis
    by (simp add: rm_replace_model_reservations_def op_ok_def unique_evictions_iff um_contains_iff
        Let_def not_less)
qed

section \<open>Candidates in a reachable state\<close>

lemma candidate_reservations:
  assumes "rz_books w" and "e \<in> set (eviction_candidates (rz_records (rw_residency w)))"
  shows "map_of (rm_model_reservations (rw_resources w)) (rr_id e) = Some (rr_footprint e)"
proof -
  have "um_all (\<lambda>k r. rr_id r = k) (rz_records (rw_residency w))" "um_wf (rz_records (rw_residency w))"
    using assms(1) by (auto simp: rz_books_def intro: matches_keys)
  with assms show ?thesis
    using candidates_records(2) by (auto simp: rz_books_def resident_bytes_def)
qed

lemma candidates_total:
  assumes "rz_books w"
  shows "rm_total (rw_resources w) \<ge> records_total (eviction_candidates (rz_records (rw_residency w)))"
    and "unat (st_free (rm_status (rw_resources w))) +
      records_total (eviction_candidates (rz_records (rw_residency w))) < 2 ^ 64"
    and "unat (st_free (rm_status (rw_resources w))) = unat (rm_capacity (rw_resources w)) - rm_total (rw_resources w)"
    and "rm_total (rw_resources w) \<le> unat (rm_capacity (rw_resources w))"
proof -
  let ?c = "eviction_candidates (rz_records (rw_residency w))" and ?rm = "rw_resources w"
  have inv: "rm_inv ?rm" using assms by (simp add: rz_books_def rm_good_def)
  have "distinct (map rr_id ?c)"
    using assms by (intro candidates_records(1)) (auto simp: rz_books_def intro: matches_keys)
  then have "records_total ?c \<le> um_total (rm_model_reservations ?rm)"
    using candidate_reservations [OF assms] rm_inv_wf(2) [OF inv]
    by (intro um_total_distinct_entries) auto
  then show le: "records_total ?c \<le> rm_total ?rm" by (simp add: rm_total_def)
  show fr: "unat (st_free (rm_status ?rm)) = unat (rm_capacity ?rm) - rm_total ?rm"
    using rm.free_exact [OF inv] by (simp add: rm_status_def)
  show cap: "rm_total ?rm \<le> unat (rm_capacity ?rm)" by (rule rm.total_le_cap [OF inv])
  have "unat (rm_capacity ?rm) < 2 ^ 64" by (rule unat_bytes_less)
  with le fr cap show "unat (st_free (rm_status ?rm)) + records_total ?c < 2 ^ 64" by linarith
qed

end
