(* ===== verification/ResidencyContract.thy ===== *)
theory ResidencyContract
  imports EvictionPlan
begin

text \<open>
  What the residency manager does in every state its machine can reach: the lemmas the
  properties are instances of, first on a backend that may fail to unload (\<open>backend\<close>), then on
  one that does not (\<open>reliable_backend\<close>).
\<close>

section \<open>Reachable states\<close>

definition rz_reachable ::
  "'b accelerator_backend \<Rightarrow> ('b \<Rightarrow> bool) \<Rightarrow> ('b \<Rightarrow> string \<Rightarrow> bytes option) \<Rightarrow> (rat \<Rightarrow> rat) \<Rightarrow>
   'b rz_state \<Rightarrow> bool" where
  "rz_reachable B binv held rd s \<longleftrightarrow>
     (\<exists>s0 es. rz_start binv held s0 \<and> run (rz_step rd B) s0 es s)"

lemma rz_reachable_start: "rz_start binv held s \<Longrightarrow> rz_reachable B binv held rd s"
  unfolding rz_reachable_def by (rule exI [of _ s], rule exI [of _ "[]"]) simp

lemma rz_reachable_run:
  "rz_reachable B binv held rd s \<Longrightarrow> run (rz_step rd B) s es t \<Longrightarrow> rz_reachable B binv held rd t"
  unfolding rz_reachable_def by (blast intro: run_append)

lemma rz_reachable_step:
  "rz_reachable B binv held rd s \<Longrightarrow> rz_step rd B s e t \<Longrightarrow> rz_reachable B binv held rd t"
  unfolding rz_reachable_def by (blast intro: run_snoc)

text \<open>A sequential load is a step, or two with nothing in between.\<close>

lemma load_run:
  assumes "rz_load rd B fs now elapsed k w = (r, w')"
  shows "\<exists>es. run (rz_step rd B) (w, None) es (w', None)"
proof (cases "load_plan rd k (mr_snapshot (rw_registry w)) (rm_status (rw_resources w)) (rw_residency w)")
  case (Inl a)
  with assms show ?thesis by (intro exI [of _ "[]"]) (simp add: rz_load_def)
next
  case (Inr p)
  obtain m es where p: "p = (m, es)" by (cases p)
  note plan = Inr [unfolded p]
  obtain e b where f: "load_fetch B fs m (rw_backend w) = (e, b)" by fastforce
  show ?thesis
  proof (cases e)
    case None
    have "load_commit B now elapsed m es (w\<lparr>rw_backend := b\<rparr>) = (r, w')"
      using assms plan f None by (simp add: rz_load_def Let_def)
    then have "rz_step rd B (w\<lparr>rw_backend := b\<rparr>, Some (m, es)) (RzLoadEnd (md_id m) r) (w', None)"
      by (rule step_load_end)
    with step_load_begin [OF plan f [unfolded None]] show ?thesis by (blast intro: run_cons run_nil)
  next
    case (Some err)
    with assms plan f have "w' = w\<lparr>rw_backend := b\<rparr>" by (simp add: rz_load_def Let_def)
    with step_load_fail [OF plan f [unfolded Some]] show ?thesis by (blast intro: run_cons run_nil)
  qed
qed

lemma load_reachable:
  "rz_reachable B binv held rd (w, None) \<Longrightarrow> rz_load rd B fs now elapsed k w = (r, w') \<Longrightarrow>
   rz_reachable B binv held rd (w', None)"
  by (blast dest: load_run intro: rz_reachable_run)

section \<open>Plans\<close>

lemma fresh_plan:
  assumes "rz_books w" and "map_of (mr_models (rw_registry w)) k = Some m"
    and "resident_record (rz_records (rw_residency w)) k = None"
  shows "load_plan rd k (mr_snapshot (rw_registry w)) st (rw_residency w) =
    (if md_footprint m > st_capacity st then Inl (mo_fail model_error.InsufficientMemory)
     else case choose_evictions rd (rz_records (rw_residency w)) (md_footprint m) (st_free st) of
       None \<Rightarrow> Inl (mo_fail model_error.InsufficientMemory) | Some es \<Rightarrow> Inr (m, es))"
proof -
  have "md_id m = k" using assms(1,2) mr_inv_entry by (auto simp: rz_books_def)
  with assms(2,3) show ?thesis by (simp add: load_plan_def find_model_books [OF assms(1)])
qed

lemma valid_name_agrees: "mr_valid_id k = rm_valid_name k" "mk_valid_id k = rm_valid_name k"
  by (simp_all add: mr_valid_id_def mk_valid_id_def rm_valid_name_def)

text \<open>The evictions of a plan make room, none of them is needless and they are the cheapest.\<close>

lemma plan_minimal_and_least:
  assumes books: "rz_books w"
    and plan: "load_plan rd k (mr_snapshot (rw_registry w)) (rm_status (rw_resources w))
      (rw_residency w) = Inr (m, es)"
  defines "avail \<equiv> unat (st_free (rm_status (rw_resources w)))"
    and "cs \<equiv> set (eviction_candidates (rz_records (rw_residency w)))"
  shows "set es \<subseteq> cs \<and> unat (md_footprint m) \<le> avail + records_total es \<and>
    (es \<noteq> [] \<longrightarrow> avail + records_total (butlast es) < unat (md_footprint m)) \<and>
    (\<forall>e \<in> set es. \<forall>c \<in> cs - set es. residency_score rd e \<le> residency_score rd c)"
proof -
  let ?l = "sort_key (residency_score rd) (eviction_candidates (rz_records (rw_residency w)))"
  note chosen = plan_ready(3) [OF books plan]
  from choose_evictions_spec [OF candidates_total(2) [OF books], of "md_footprint m" rd] chosen
  have room: "unat (md_footprint m) \<le> avail + records_total es"
    and need: "es \<noteq> [] \<longrightarrow> avail + records_total (butlast es) < unat (md_footprint m)"
    and pre: "\<exists>ks. ?l = es @ ks"
    by (simp_all add: avail_def)
  from pre obtain ks where ks: "?l = es @ ks" by blast
  have all: "cs = set es \<union> set ks"
    unfolding cs_def by (metis ks set_append set_sort)
  with sorted_prefix_least [OF ks] room need show ?thesis by blast
qed

text \<open>The swap accepts a plan whose evictions make room.\<close>

lemma commit_succeeds:
  assumes books: "rz_books w" and ready: "load_ready w m es"
    and room: "unat (md_footprint m) + rm_total (rw_resources w) \<le>
      unat (rm_capacity (rw_resources w)) + records_total es"
  shows "mo_ok (fst (load_commit B now elapsed m es w))"
proof -
  let ?rm = "rw_resources w" and ?rs = "rz_records (rw_residency w)"
  have rm: "rm_inv ?rm" and res: "map_of (rm_model_reservations ?rm) = resident_bytes ?rs"
    using books by (simp_all add: rz_books_def rm_good_def)
  have entries: "\<forall>e \<in> set es. map_of (rm_model_reservations ?rm) (rr_id e) = Some (rr_footprint e)"
    using ready by (simp add: res resident_bytes_def load_ready_def)
  have dist: "distinct (map rr_id es)" using ready by (simp add: load_ready_def)
  have "unat (md_footprint m) + rm_total (drop_evictions (map rr_id es) ?rm) \<le> unat (rm_capacity ?rm)"
    using drop_evictions_total [OF rm dist entries] room by simp
  moreover have "set (map rr_id es) \<subseteq> um_keys (rm_model_reservations ?rm)"
    using entries by (force dest: map_of_SomeD)
  moreover have "md_id m \<notin> um_keys (rm_model_reservations ?rm)"
    using ready by (simp add: res resident_bytes_def load_ready_def flip: map_of_eq_None_iff)
  moreover have "model_ok m"
    using ready books mr_inv_entry by (auto simp: load_ready_def rz_books_def)
  ultimately have "op_ok (fst (rm_replace_model_reservations now (map rr_id es) (md_id m)
      (md_footprint m) ?rm))"
    using rm dist by (intro replace_accepts) (simp_all add: model_ok_def valid_name_agrees)
  then show ?thesis by (simp add: load_commit_def case_prod_beta Let_def mo_ok_def)
qed

lemma commit_ok_iff:
  assumes books: "rz_books w" and ready: "load_ready w m es"
  shows "mo_ok (fst (load_commit B now elapsed m es w)) \<longleftrightarrow>
    unat (md_footprint m) \<le> unat (st_free (rm_status (rw_resources w))) + records_total es"
proof -
  let ?rm = "rw_resources w"
  obtain acq rm where acq: "rm_replace_model_reservations now (map rr_id es) (md_id m)
      (md_footprint m) ?rm = (acq, rm)" by fastforce
  have inv: "rm_inv ?rm" and res: "map_of (rm_model_reservations ?rm) = resident_bytes (rz_records (rw_residency w))"
    using books by (simp_all add: rz_books_def rm_good_def)
  have entries: "\<forall>e \<in> set es. map_of (rm_model_reservations ?rm) (rr_id e) = Some (rr_footprint e)"
    and dist: "distinct (map rr_id es)"
    using ready by (simp_all add: res resident_bytes_def load_ready_def)
  note total = drop_evictions_total [OF inv dist entries] and free = candidates_total(3,4) [OF books]
  have "unat (md_footprint m) \<le> unat (st_free (rm_status ?rm)) + records_total es" if "op_ok acq"
    using replace_success(6) [OF acq that] rm.fits_iff [OF drop_evictions_inv [OF inv], of "md_footprint m" "map rr_id es"]
      total free by simp
  moreover have "mo_ok (fst (load_commit B now elapsed m es w)) \<Longrightarrow> op_ok acq"
    using acq by (simp add: load_commit_def mo_ok_def split: if_splits)
  moreover have "mo_ok (fst (load_commit B now elapsed m es w))"
    if "unat (md_footprint m) \<le> unat (st_free (rm_status ?rm)) + records_total es"
    using that free by (intro commit_succeeds [OF books ready]) linarith
  ultimately show ?thesis by blast
qed

lemma fetch_error: "load_fetch B fs m b = (Some err, b') \<Longrightarrow> \<not> mo_ok (mo_fail err)"
  by (auto simp: load_fetch_def mo_ok_def Let_def split: prod.splits if_splits model_load_error.splits)

lemma resident_known:
  assumes "rz_books w" and "resident_record (rz_records (rw_residency w)) k = Some rc"
  shows "find_model (mr_snapshot (rw_registry w)) k \<noteq> None"
proof -
  have "record_matches (rw_registry w) k rc"
    using assms um_allD [of "record_matches (rw_registry w)" "rz_records (rw_residency w)" k rc]
    unfolding rz_books_def resident_record_Some by blast
  then show ?thesis by (auto simp: find_model_books [OF assms(1)] record_matches_def)
qed

section \<open>On any backend\<close>

context backend
begin

lemma any_reachable:
  assumes "rz_reachable B binv held rd (w, l)"
  shows "rz_books w" and "binv (rw_backend w)" and "l = Some (m, es) \<Longrightarrow> load_ready w m es"
proof -
  from assms obtain s ls where s: "rz_start binv held s" "run (rz_step rd B) s ls (w, l)"
    by (auto simp: rz_reachable_def)
  have "books_hold s" "binv (rw_backend (fst s))" using s(1) by (auto simp: start_books rz_start_def)
  with s(2) have "books_hold (w, l)" "binv (rw_backend w)"
    using books_run [of rd B s ls "(w, l)"] backend_run [of rd s ls "(w, l)"] by simp_all
  then show "rz_books w" and "binv (rw_backend w)" and "l = Some (m, es) \<Longrightarrow> load_ready w m es"
    by (auto simp: books_hold_def)
qed

text \<open>The swap of a load that others could run between the halves of.\<close>

lemma commit_after_clients:
  assumes reach: "rz_reachable B binv held rd (w0, None)"
    and begins: "rz_step rd B (w0, None) (RzLoadBegin k) (w1, Some (m, es))"
    and others: "run (rz_step rd B) (w1, Some (m, es)) evs (w, Some (m, es))"
    and commit: "load_commit B now elapsed m es w = (r, w')"
  shows "mo_ok r \<longleftrightarrow> unat (md_footprint m) \<le> unat (st_free (rm_status (rw_resources w))) + records_total es"
    and "\<not> mo_ok r \<Longrightarrow> st_free (rm_status (rw_resources w)) < st_free (rm_status (rw_resources w0))"
    and "\<not> mo_ok r \<Longrightarrow> held (rw_backend w') =
      (if bo_ok (fst (bk_unload B (md_id m) (rw_backend w)))
       then (held (rw_backend w))(md_id m := None) else held (rw_backend w))"
proof -
  have reach': "rz_reachable B binv held rd (w, Some (m, es))"
    by (rule rz_reachable_run [OF rz_reachable_step [OF reach begins] others])
  note now = any_reachable [OF reach']
  show iff: "mo_ok r \<longleftrightarrow> unat (md_footprint m) \<le> unat (st_free (rm_status (rw_resources w))) + records_total es"
    using commit_ok_iff [OF now(1) now(3) [OF refl], of B now elapsed] commit by simp
  have "load_plan rd k (mr_snapshot (rw_registry w0)) (rm_status (rw_resources w0)) (rw_residency w0) = Inr (m, es)"
    using begins by (auto elim: rz_step.cases)
  from plan_minimal_and_least [OF any_reachable(1) [OF reach] this] iff
  show "\<not> mo_ok r \<Longrightarrow> st_free (rm_status (rw_resources w)) < st_free (rm_status (rw_resources w0))"
    by (auto simp: word_less_nat_alt)
  show "\<not> mo_ok r \<Longrightarrow> held (rw_backend w') =
      (if bo_ok (fst (bk_unload B (md_id m) (rw_backend w)))
       then (held (rw_backend w))(md_id m := None) else held (rw_backend w))"
    using commit_undone(2) [OF commit] unload_held [OF now(2)] by simp
qed

lemma unload_any:
  assumes reach: "rz_reachable B binv held rd (w, l)" and unload: "rz_unload B now k w = (r, w')"
  shows "case resident_record (rz_records (rw_residency w)) k of
      None \<Rightarrow> mo_error r \<in> {model_error.UnknownModel, model_error.UnknownResidency} \<and> w' = w
    | Some rc \<Rightarrow>
        if rr_ref_count rc \<noteq> 0 then mo_error r = model_error.ModelInUse \<and> w' = w
        else if bo_ok (fst (bk_unload B k (rw_backend w))) then
          r = mo_done (rr_footprint rc) \<and> rw_registry w' = rw_registry w \<and>
          resident_bytes (rz_records (rw_residency w')) =
            (resident_bytes (rz_records (rw_residency w)))(k := None) \<and>
          map_of (rm_model_reservations (rw_resources w')) =
            (map_of (rm_model_reservations (rw_resources w)))(k := None) \<and>
          held (rw_backend w') = (held (rw_backend w))(k := None)
        else mo_error r = model_error.BackendFailure \<and> rw_registry w' = rw_registry w \<and>
          rw_resources w' = rw_resources w \<and> rw_residency w' = rw_residency w \<and>
          held (rw_backend w') = held (rw_backend w)"
proof -
  have books: "rz_books w" and binv: "binv (rw_backend w)" using any_reachable [OF reach] by simp_all
  from books unload show ?thesis
  proof (cases rule: unload_outcome)
    case (unloaded rc)
    with unload_held [OF binv, of k] show ?thesis
      by (simp add: resident_bytes_put drop_model_def map_of_um_erase)
  qed (use unload_held [OF binv, of k] in auto)
qed

end

section \<open>On a reliable backend\<close>

context reliable_backend
begin

lemma reachable_inv: "rz_reachable B binv held rd s \<Longrightarrow> rz_inv binv held s"
  by (auto simp: rz_reachable_def intro: machine.run_inv)

lemma reachable_books: "rz_reachable B binv held rd (w, l) \<Longrightarrow> rz_books w"
  using reachable_inv [of rd "(w, l)"] by (simp add: rz_inv_def)

lemma reachable_holds:
  "rz_reachable B binv held rd (w, l) \<Longrightarrow> held (rw_backend w) = (case l of
     None \<Rightarrow> resident_bytes (rz_records (rw_residency w))
   | Some (m, _) \<Rightarrow> (resident_bytes (rz_records (rw_residency w)))(md_id m \<mapsto> md_footprint m))"
  using reachable_inv [of rd "(w, l)"]
  by (auto simp: rz_inv_def backend_holds_def split: option.splits)

lemma books_agree:
  assumes "rz_reachable B binv held rd (w, l)"
  shows "map_of (rm_model_reservations (rw_resources w)) = resident_bytes (rz_records (rw_residency w)) \<and>
    held (rw_backend w) = (case l of None \<Rightarrow> resident_bytes (rz_records (rw_residency w))
      | Some (m, _) \<Rightarrow> (resident_bytes (rz_records (rw_residency w)))(md_id m \<mapsto> md_footprint m)) \<and>
    um_all (record_matches (rw_registry w)) (rz_records (rw_residency w))"
  using reachable_books [OF assms] reachable_holds [OF assms] by (simp add: rz_books_def)

lemma retained_stays:
  assumes reach: "rz_reachable B binv held rd (w, l)" and step: "rz_step rd B (w, l) e (w', l')"
    and rec: "resident_record (rz_records (rw_residency w)) k = Some r" "rr_ref_count r \<noteq> 0"
  shows "resident_bytes (rz_records (rw_residency w')) k = Some (rr_footprint r) \<and>
    map_of (rm_model_reservations (rw_resources w')) k = Some (rr_footprint r) \<and>
    held (rw_backend w') k = Some (rr_footprint r)"
proof -
  have inv: "rz_inv binv held (w, l)" using reach by (rule reachable_inv)
  have inv': "rz_inv binv held (w', l')" by (rule rz_step_inv [OF step inv])
  have kept: "resident_bytes (rz_records (rw_residency w')) k = Some (rr_footprint r)"
    by (rule retained_step [OF inv step rec])
  moreover have "k \<noteq> md_id m" if "l' = Some (m, es)" for m es
    using inv' that kept
    by (auto simp: rz_inv_def backend_holds_def load_ready_def resident_bytes_def)
  ultimately show ?thesis
    using inv' by (auto simp: rz_inv_def rz_books_def backend_holds_def split: option.splits)
qed

text \<open>What a sequential load does, by cases.\<close>

lemma load_cases:
  assumes inv: "rz_inv binv held (w, None)"
    and load: "rz_load rd B fs now elapsed k w = (r, w')"
  obtains (planned) "load_plan rd k (mr_snapshot (rw_registry w)) (rm_status (rw_resources w))
        (rw_residency w) = Inl r" "w' = w"
  | (fetch_failed) m es e b where "load_plan rd k (mr_snapshot (rw_registry w))
        (rm_status (rw_resources w)) (rw_residency w) = Inr (m, es)"
      "load_fetch B fs m (rw_backend w) = (Some e, b)" "r = mo_fail e" "w' = w\<lparr>rw_backend := b\<rparr>"
  | (committed) m es b where "load_plan rd k (mr_snapshot (rw_registry w))
        (rm_status (rw_resources w)) (rw_residency w) = Inr (m, es)"
      "load_fetch B fs m (rw_backend w) = (None, b)"
      "rz_inv binv held (w\<lparr>rw_backend := b\<rparr>, Some (m, es))"
      "load_commit B now elapsed m es (w\<lparr>rw_backend := b\<rparr>) = (r, w')"
proof (cases "load_plan rd k (mr_snapshot (rw_registry w)) (rm_status (rw_resources w)) (rw_residency w)")
  case (Inl a)
  with load show thesis by (intro planned) (simp_all add: rz_load_def)
next
  case (Inr p)
  obtain m es where p: "p = (m, es)" by (cases p)
  note plan = Inr [unfolded p]
  obtain e b where f: "load_fetch B fs m (rw_backend w) = (e, b)" by fastforce
  show thesis
  proof (cases e)
    case None
    note begin_inv = rz_step_inv [OF step_load_begin [OF plan f [unfolded None]] inv]
    have "load_commit B now elapsed m es (w\<lparr>rw_backend := b\<rparr>) = (r, w')"
      using load plan f None by (simp add: rz_load_def Let_def)
    then show thesis by (rule committed [OF plan f [unfolded None] begin_inv])
  next
    case (Some err)
    show thesis
      by (rule fetch_failed [OF plan f [unfolded Some]])
        (use load plan f Some in \<open>simp_all add: rz_load_def Let_def\<close>)
  qed
qed

lemma failed_load_same:
  assumes reach: "rz_reachable B binv held rd (w, None)"
    and load: "rz_load rd B fs now elapsed k w = (r, w')" and fail: "\<not> mo_ok r"
  shows "rw_registry w' = rw_registry w \<and> rw_resources w' = rw_resources w \<and>
    rw_residency w' = rw_residency w \<and> held (rw_backend w') = held (rw_backend w)"
proof -
  have inv: "rz_inv binv held (w, None)" using reach by (rule reachable_inv)
  then have binv: "binv (rw_backend w)" by (simp add: rz_inv_def)
  from inv load show ?thesis
  proof (cases rule: load_cases)
    case (fetch_failed m es e b)
    with fetch_held [OF binv fetch_failed(2)] show ?thesis by simp
  next
    case (committed m es b)
    note refused = commit_refused [OF committed(3,4) fail]
    then have "held (rw_backend w') = resident_bytes (rz_records (rw_residency w))"
      by (simp add: rz_inv_def backend_holds_def)
    moreover have "held (rw_backend w) = resident_bytes (rz_records (rw_residency w))"
      using inv by (simp add: rz_inv_def backend_holds_def)
    ultimately show ?thesis using conjunct2 [OF refused] by simp
  qed simp
qed

lemma commit_rolls_back:
  assumes reach: "rz_reachable B binv held rd (w, Some (m, es))"
    and commit: "load_commit B now elapsed m es w = (r, w')" and fail: "\<not> mo_ok r"
  shows "rw_resources w' = rw_resources w \<and> rw_residency w' = rw_residency w \<and>
    rw_registry w' = rw_registry w \<and>
    held (rw_backend w') = (held (rw_backend w))(md_id m := None) \<and>
    held (rw_backend w') = resident_bytes (rz_records (rw_residency w'))"
proof -
  have inv: "rz_inv binv held (w, Some (m, es))" using reach by (rule reachable_inv)
  note refused = commit_refused [OF inv commit fail]
  then have "held (rw_backend w') = resident_bytes (rz_records (rw_residency w))"
    by (simp add: rz_inv_def backend_holds_def)
  moreover have "(held (rw_backend w))(md_id m := None) = resident_bytes (rz_records (rw_residency w))"
    using inv by (simp add: rz_inv_def backend_holds_def load_ready_def resident_bytes_def fun_upd_idem_iff)
  ultimately show ?thesis using conjunct2 [OF refused] by simp
qed

text \<open>A load planned with room is carried out when the backend takes the model.\<close>

lemma planned_load:
  assumes inv: "rz_inv binv held (w, None)"
    and plan: "load_plan rd k (mr_snapshot (rw_registry w)) (rm_status (rw_resources w))
      (rw_residency w) = Inr (m, es)"
    and room: "unat (md_footprint m) + rm_total (rw_resources w) \<le>
      unat (rm_capacity (rw_resources w)) + records_total es"
  shows "mo_ok (fst (rz_load rd B fs now elapsed k w)) \<longleftrightarrow> fst (load_fetch B fs m (rw_backend w)) = None"
proof -
  obtain e b where f: "load_fetch B fs m (rw_backend w) = (e, b)" by fastforce
  show ?thesis
  proof (cases e)
    case (Some err)
    with plan f fetch_error [OF f [unfolded Some]] show ?thesis by (simp add: rz_load_def Let_def mo_ok_def)
  next
    case None
    have "rz_books (w\<lparr>rw_backend := b\<rparr>)" "load_ready (w\<lparr>rw_backend := b\<rparr>) m es"
      using rz_step_inv [OF step_load_begin [OF plan f [unfolded None]] inv]
      by (simp_all add: rz_inv_def backend_holds_def)
    with room have "mo_ok (fst (load_commit B now elapsed m es (w\<lparr>rw_backend := b\<rparr>)))"
      by (intro commit_succeeds) simp_all
    with plan f None show ?thesis by (simp add: rz_load_def Let_def)
  qed
qed

lemma load_iff_room:
  assumes reach: "rz_reachable B binv held rd (w, None)"
    and m: "map_of (mr_models (rw_registry w)) k = Some m"
    and fresh: "resident_record (rz_records (rw_residency w)) k = None"
  shows "mo_ok (fst (rz_load rd B fs now elapsed k w)) \<longleftrightarrow>
    fst (load_fetch B fs m (rw_backend w)) = None \<and>
    unat (md_footprint m) \<le> unat (st_free (rm_status (rw_resources w))) +
      records_total (eviction_candidates (rz_records (rw_residency w)))"
proof -
  let ?rs = "rz_records (rw_residency w)" and ?st = "rm_status (rw_resources w)"
  have inv: "rz_inv binv held (w, None)" using reach by (rule reachable_inv)
  have books: "rz_books w" using reach by (rule reachable_books)
  note tot = candidates_total [OF books] and plan = fresh_plan [OF books m fresh]
  note spec = choose_evictions_spec [OF tot(2), of "md_footprint m" rd]
  show ?thesis
  proof (cases "unat (md_footprint m) \<le> unat (st_free ?st) + records_total (eviction_candidates ?rs)")
    case True
    with spec obtain es where es: "choose_evictions rd ?rs (md_footprint m) (st_free ?st) = Some es"
      "unat (md_footprint m) \<le> unat (st_free ?st) + records_total es"
      by (auto split: option.splits)
    have "\<not> md_footprint m > st_capacity ?st"
      using True tot(1,3,4) by (simp add: rm_status_def word_less_nat_alt)
    then have p: "load_plan rd k (mr_snapshot (rw_registry w)) ?st (rw_residency w) = Inr (m, es)"
      by (simp add: plan es(1))
    have "unat (md_footprint m) + rm_total (rw_resources w) \<le>
        unat (rm_capacity (rw_resources w)) + records_total es"
      using es(2) tot(3,4) by linarith
    from planned_load [OF inv p this] True show ?thesis by blast
  next
    case False
    with spec have "choose_evictions rd ?rs (md_footprint m) (st_free ?st) = None"
      by (cases "choose_evictions rd ?rs (md_footprint m) (st_free ?st)")
        (auto dest!: sorted_prefix_total)
    with False show ?thesis by (simp add: rz_load_def plan mo_ok_def)
  qed
qed

lemma unload_accepts:
  assumes inv: "rz_inv binv held (w, None)"
    and rec: "resident_record (rz_records (rw_residency w)) k = Some rc" "rr_ref_count rc = 0"
    and unload: "rz_unload B now k w = (r, w')"
  shows "mo_ok r"
proof -
  have books: "rz_books w" and binv: "binv (rw_backend w)" using inv by (simp_all add: rz_inv_def)
  have "held (rw_backend w) k \<noteq> None"
    using inv rec(1) by (simp add: rz_inv_def backend_holds_def resident_bytes_def)
  then have "bo_ok (fst (bk_unload B k (rw_backend w)))" by (rule unload_ok [OF binv])
  moreover have "rm_release_model now k (rw_resources w) = (op_done (rr_footprint rc),
      grant_waiters_locked now (drop_model k (rr_footprint rc) (rw_resources w)))"
    using books rec(1)
    by (intro release_model_resident) (simp_all add: rz_books_def rm_good_def resident_bytes_def)
  ultimately show ?thesis
    using unload rec resident_known [OF books rec(1)]
    by (auto simp: rz_unload_def case_prod_beta Let_def op_ok_def mo_ok_def)
qed

lemma unload_result:
  assumes reach: "rz_reachable B binv held rd (w, None)" and unload: "rz_unload B now k w = (r, w')"
  shows "case resident_record (rz_records (rw_residency w)) k of
      None \<Rightarrow> \<not> mo_ok r \<and> w' = w
    | Some rc \<Rightarrow> if rr_ref_count rc \<noteq> 0 then mo_error r = model_error.ModelInUse \<and> w' = w
        else r = mo_done (rr_footprint rc) \<and>
          resident_bytes (rz_records (rw_residency w')) =
            (resident_bytes (rz_records (rw_residency w)))(k := None) \<and>
          map_of (rm_model_reservations (rw_resources w')) =
            (map_of (rm_model_reservations (rw_resources w)))(k := None) \<and>
          held (rw_backend w') = (held (rw_backend w))(k := None)"
proof -
  let ?rs = "rz_records (rw_residency w)"
  have inv: "rz_inv binv held (w, None)" using reach by (rule reachable_inv)
  then have books: "rz_books w" and binv: "binv (rw_backend w)" by (simp_all add: rz_inv_def)
  show ?thesis
  proof (cases "resident_record ?rs k")
    case None
    with unload show ?thesis by (auto simp: rz_unload_def mo_ok_def split: if_splits)
  next
    case (Some rc)
    show ?thesis
    proof (cases "rr_ref_count rc = 0")
      case False
      with unload Some resident_known [OF books Some] show ?thesis by (auto simp: rz_unload_def)
    next
      case True
      from inv unload show ?thesis
      proof (cases rule: unload_cases)
        case (unloaded rc')
        with Some have "rc' = rc" by simp
        with unloaded Some True show ?thesis
          using unload_removes [OF binv, of k]
          by (simp add: resident_bytes_put drop_model_def map_of_um_erase)
      next
        case refused
        with unload_accepts [OF inv Some True unload] show ?thesis by simp
      qed
    qed
  qed
qed

end

end
