(* ===== verification/ResidencyProperties.thy ===== *)
theory ResidencyProperties
  imports ResidencyContract
begin

text \<open>
  The properties of the residency manager over every backend that meets its contract, in
  every state its machine can reach, with clients of the resource manager interleaved at
  every point. The witnesses run it on the mock backend.
\<close>

abbreviation mock_reachable :: "(rat \<Rightarrow> rat) \<Rightarrow> mock_backend rz_state \<Rightarrow> bool" where
  "mock_reachable \<equiv> rz_reachable mock_ops mk_inv mk_held"

lemmas mock_contract = mock.reliable_backend_axioms

section \<open>Concrete states\<close>

text \<open>
  A daemon of 100 bytes with two models of 60 and 50 bytes, the first one loaded; rounding
  is the identity in the witnesses.
\<close>

definition demo_world :: "mock_backend residency_world" where
  "demo_world = \<lparr>rw_registry = mr_new,
     rw_resources = \<lparr>rm_capacity = 100, rm_policy = PriorityFifo, rm_used = 0,
       rm_reservations = [], rm_model_reservations = [], rm_pending = [],
       rm_next_sequence = 0, rm_requests = (\<lambda>_. empty_request), rm_next_ptr = 0\<rparr>,
     rw_backend = mk_new, rw_residency = rz_new\<rparr>"

definition demo_record :: "string \<Rightarrow> bytes \<Rightarrow> model_record" where
  "demo_record k n = \<lparr>md_id = k, md_metadata = ''fp16'', md_footprint = n, md_ref_count = 0,
     md_last_access = 0, md_source_path = []\<rparr>"

definition demo_models :: model_registry where
  "demo_models = \<lparr>mr_models = [(''b'', demo_record ''b'' 50), (''a'', demo_record ''a'' 60)],
     mr_next_access = 0\<rparr>"

definition demo_known :: "mock_backend residency_world" where
  "demo_known = demo_world\<lparr>rw_registry := demo_models\<rparr>"

definition demo_loaded :: "mock_backend residency_world" where
  "demo_loaded = snd (rz_load id mock_ops demo_fs 0 3 ''a'' demo_known)"

lemma demo_start: "rz_start mk_inv mk_held (demo_world, None)"
  by (simp add: rz_start_def demo_world_def rm_start_def rm_new_def mk_new_def mk_inv_def mk_held_def)

lemma demo_known_reachable: "mock_reachable id (demo_known, None)"
proof -
  let ?w1 = "demo_world\<lparr>rw_registry := \<lparr>mr_models = [(''a'', demo_record ''a'' 60)], mr_next_access = 0\<rparr>\<rparr>"
  have "mr_register_model ''a'' 60 ''fp16'' (rw_registry demo_world) =
      (mo_done 60, \<lparr>mr_models = [(''a'', demo_record ''a'' 60)], mr_next_access = 0\<rparr>)"
    by (simp add: mr_register_model_def mr_valid_id_def mr_valid_metadata_def demo_world_def
        mr_new_def um_contains_def um_emplace_def demo_record_def)
  from rz_reachable_step [OF rz_reachable_start [OF demo_start] step_register [OF this]]
  have w1: "mock_reachable id (?w1, None)" .
  have "mr_register_model ''b'' 50 ''fp16'' (rw_registry ?w1) = (mo_done 50, demo_models)"
    by (simp add: mr_register_model_def mr_valid_id_def mr_valid_metadata_def
        um_contains_def um_emplace_def demo_record_def demo_models_def)
  from rz_reachable_step [OF w1 step_register [OF this]] show ?thesis
    by (simp add: demo_known_def)
qed

section \<open>The books of the three components\<close>

text \<open>
  C3: residency, reservations and backend never disagree. In every reachable state the
  model reservations are exactly the footprints of the models marked resident, the backend
  holds exactly those, plus the one model of a load in progress, and every residency
  record carries the footprint and the reference count the registry has for it.
\<close>

theorem residency_books_agree:
  assumes "reliable_backend B binv held" and "rz_reachable B binv held rd (w, l)"
  shows "map_of (rm_model_reservations (rw_resources w)) = resident_bytes (rz_records (rw_residency w)) \<and>
    held (rw_backend w) = (case l of None \<Rightarrow> resident_bytes (rz_records (rw_residency w))
      | Some (m, _) \<Rightarrow> (resident_bytes (rz_records (rw_residency w)))(md_id m \<mapsto> md_footprint m)) \<and>
    um_all (record_matches (rw_registry w)) (rz_records (rw_residency w))"
  by (rule reliable_backend.books_agree [OF assms])

section \<open>Retained models\<close>

text \<open>
  C7: a retained model stays resident. In no step of the machine, whatever clients,
  loads or unloads do, does a resident model with a positive reference count lose its
  residency, its reservation or its backend memory.
\<close>

theorem retained_model_stays_resident:
  assumes "reliable_backend B binv held" and "rz_reachable B binv held rd (w, l)"
    and "rz_step rd B (w, l) e (w', l')"
    and "resident_record (rz_records (rw_residency w)) k = Some r" and "rr_ref_count r \<noteq> 0"
  shows "resident_bytes (rz_records (rw_residency w')) k = Some (rr_footprint r) \<and>
    map_of (rm_model_reservations (rw_resources w')) k = Some (rr_footprint r) \<and>
    held (rw_backend w') k = Some (rr_footprint r)"
  by (rule reliable_backend.retained_stays [OF assms])

text \<open>The concrete runs: load \<open>a\<close>, retain it, try to unload it; load \<open>b\<close> by evicting \<open>a\<close>.\<close>

lemma demo_books:
  "mock_reachable rd (w, l) \<Longrightarrow> find_model (mr_snapshot (rw_registry w)) k = map_of (mr_models (rw_registry w)) k"
  using mock.reachable_inv [of rd "(w, l)"] by (simp add: rz_inv_def find_model_books)

lemma demo_plan_a:
  "load_plan id ''a'' (mr_snapshot (rw_registry demo_known)) (rm_status (rw_resources demo_known))
     (rw_residency demo_known) = Inr (demo_record ''a'' 60, [])"
  by (simp add: load_plan_def demo_books [OF demo_known_reachable])
    (simp add: demo_known_def demo_models_def demo_world_def rz_new_def resident_record_def
      demo_record_def rm_status_def choose_evictions_def)

definition loaded_a :: residency_record where
  "loaded_a = \<lparr>rr_id = ''a'', rr_footprint = 60, rr_ref_count = 0, rr_resident = True,
     rr_last_loaded = 1, rr_load_count = 1, rr_load_cost = 3\<rparr>"

lemma demo_loaded_state:
  "rw_registry demo_loaded = demo_models" "rz_records (rw_residency demo_loaded) = [(''a'', loaded_a)]"
  "rm_capacity (rw_resources demo_loaded) = 100" "rm_used (rw_resources demo_loaded) = 60"
  "rm_model_reservations (rw_resources demo_loaded) = [(''a'', 60)]"
  "mk_allocations (rw_backend demo_loaded) = [(''a'', 60)]"
  unfolding demo_loaded_def rz_load_def demo_plan_a
  by (simp_all add: load_fetch_def demo_record_def mk_load_def mk_valid_id_def bo_ok_def
      demo_known_def demo_world_def mk_new_def um_contains_def um_emplace_def load_commit_def
      rm_replace_model_reservations_def rm_valid_name_def op_ok_def grant_waiters_locked_def
      expire_waiters_def grant_loop_stop select_waiter_def select_loop.simps evict_records_def
      finish_record_def rz_new_def empty_residency_def loaded_a_def load_cost_ms_def)

lemma demo_loaded_reachable: "mock_reachable id (demo_loaded, None)"
  unfolding demo_loaded_def by (rule load_reachable [OF demo_known_reachable surjective_pairing])

theorem residency_books_agree_witness:
  "map_of (rm_model_reservations (rw_resources demo_loaded)) = resident_bytes (rz_records (rw_residency demo_loaded)) \<and>
   mk_held (rw_backend demo_loaded) = resident_bytes (rz_records (rw_residency demo_loaded)) \<and>
   resident_bytes (rz_records (rw_residency demo_loaded)) ''a'' = Some 60"
  using residency_books_agree [OF mock_contract demo_loaded_reachable]
  by (simp add: demo_loaded_state(2) resident_bytes_def resident_record_def loaded_a_def)

definition demo_retained :: "mock_backend residency_world" where
  "demo_retained = snd (rz_retain ''a'' demo_loaded)"

lemma demo_retained_reachable: "mock_reachable id (demo_retained, None)"
  unfolding demo_retained_def
  by (rule rz_reachable_step [OF demo_loaded_reachable step_retain]) (rule surjective_pairing)

lemma demo_retained_record:
  "resident_record (rz_records (rw_residency demo_retained)) ''a'' = Some (loaded_a\<lparr>rr_ref_count := 1\<rparr>)"
  by (simp add: demo_retained_def rz_retain_def demo_books [OF demo_loaded_reachable])
    (simp add: demo_loaded_state demo_models_def demo_record_def mr_retain_def mr_valid_id_def
      mo_ok_def Let_def note_ref_count_def resident_record_def loaded_a_def)

theorem retained_model_stays_resident_witness:
  "mk_held (rw_backend (snd (rz_unload mock_ops 9 ''a'' demo_retained))) ''a'' = Some 60 \<and>
   map_of (rm_model_reservations (rw_resources (snd (rz_unload mock_ops 9 ''a'' demo_retained)))) ''a''
     = Some 60"
proof -
  have "rz_unload mock_ops 9 ''a'' demo_retained =
      (fst (rz_unload mock_ops 9 ''a'' demo_retained), snd (rz_unload mock_ops 9 ''a'' demo_retained))"
    by simp
  from retained_model_stays_resident [OF mock_contract demo_retained_reachable step_unload [OF this] demo_retained_record]
  show ?thesis by (simp add: loaded_a_def)
qed

section \<open>Loading\<close>

text \<open>
  C18: a failed load changes nothing. Whatever the reason, an unknown model, a file that is
  gone, a backend that refuses or memory that cannot be freed, the registry, the
  reservations, the waiting clients and the residency records are untouched and the
  backend holds what it held; in particular no model is evicted for a load that fails. No
  client acts in between, and the backend is one whose unload does not fail.
\<close>

theorem failed_load_changes_nothing:
  assumes "reliable_backend B binv held" and "rz_reachable B binv held rd (w, None)"
    and "rz_load rd B fs now elapsed k w = (r, w')" and "\<not> mo_ok r"
  shows "rw_registry w' = rw_registry w \<and> rw_resources w' = rw_resources w \<and>
    rw_residency w' = rw_residency w \<and> held (rw_backend w') = held (rw_backend w)"
  by (rule reliable_backend.failed_load_same [OF assms])

theorem failed_load_changes_nothing_witness:
  "\<not> mo_ok (fst (rz_load id mock_ops demo_fs 9 1 ''zzz'' demo_loaded)) \<and>
   rw_residency (snd (rz_load id mock_ops demo_fs 9 1 ''zzz'' demo_loaded)) = rw_residency demo_loaded"
proof -
  have "\<not> mo_ok (fst (rz_load id mock_ops demo_fs 9 1 ''zzz'' demo_loaded))"
    by (simp add: rz_load_def load_plan_def demo_books [OF demo_loaded_reachable])
      (simp add: demo_loaded_state demo_models_def mo_ok_def)
  with failed_load_changes_nothing [OF mock_contract demo_loaded_reachable surjective_pairing]
  show ?thesis by blast
qed

text \<open>
  C33: a load that loses a race is rolled back. Take a load whose plan had room and whose model
  is on the backend, then whatever others do before it swaps the reservations. The swap
  succeeds if and only if the model still fits in the free memory plus the planned evictions;
  it is refused only when the free memory has shrunk since the plan. Refused, it changes
  nothing in the registry, the reservations and the records, evicts nothing and asks the
  backend to unload the new model: the backend is without it if it agrees and holds what it
  held if not (its answer is ignored), so only on a backend whose unload does not fail does
  it hold exactly the resident models again.
\<close>

theorem refused_commit_rolls_back:
  assumes "backend B binv held" and "rz_reachable B binv held rd (w0, None)"
    and "rz_step rd B (w0, None) (RzLoadBegin k) (w1, Some (m, es))"
    and "run (rz_step rd B) (w1, Some (m, es)) others (w, Some (m, es))"
    and "load_commit B now elapsed m es w = (r, w')"
  shows "(mo_ok r \<longleftrightarrow> unat (md_footprint m) \<le>
      unat (st_free (rm_status (rw_resources w))) + records_total es) \<and>
    (\<not> mo_ok r \<longrightarrow> r = mo_fail model_error.InsufficientMemory \<and>
      st_free (rm_status (rw_resources w)) < st_free (rm_status (rw_resources w0)) \<and>
      rw_registry w' = rw_registry w \<and> rw_resources w' = rw_resources w \<and>
      rw_residency w' = rw_residency w \<and>
      held (rw_backend w') = (if bo_ok (fst (bk_unload B (md_id m) (rw_backend w)))
        then (held (rw_backend w))(md_id m := None) else held (rw_backend w)) \<and>
      (reliable_backend B binv held \<longrightarrow>
        held (rw_backend w') = resident_bytes (rz_records (rw_residency w'))))"
proof -
  note race = backend.commit_after_clients [OF assms]
  have reach: "rz_reachable B binv held rd (w, Some (m, es))"
    by (rule rz_reachable_run [OF rz_reachable_step [OF assms(2,3)] assms(4)])
  from race(1) race(2,3) commit_undone [OF assms(5)]
    reliable_backend.commit_rolls_back [OF _ reach assms(5)] show ?thesis by auto
qed

definition demo_loading :: "mock_backend residency_world" where
  "demo_loading = demo_known\<lparr>rw_backend := \<lparr>mk_allocations = [(''a'', 60)]\<rparr>\<rparr>"

definition demo_raced :: "mock_backend residency_world" where
  "demo_raced = demo_loading\<lparr>rw_resources := snd (rm_try_acquire 1 ''c'' 50 (rw_resources demo_loading))\<rparr>"

lemma demo_loading_begin:
  "rz_step id mock_ops (demo_known, None) (RzLoadBegin ''a'') (demo_loading, Some (demo_record ''a'' 60, []))"
proof -
  have "load_fetch mock_ops demo_fs (demo_record ''a'' 60) (rw_backend demo_known) =
      (None, \<lparr>mk_allocations = [(''a'', 60)]\<rparr>)"
    by (simp add: load_fetch_def demo_record_def mk_load_def mk_valid_id_def bo_ok_def
        demo_known_def demo_world_def mk_new_def um_contains_def um_emplace_def)
  from step_load_begin [OF demo_plan_a this] show ?thesis by (simp add: demo_loading_def)
qed

lemma demo_raced_run:
  "run (rz_step id mock_ops) (demo_loading, Some (demo_record ''a'' 60, []))
     [RzClient (TryAcquire 1 ''c'' 50 (fst (rm_try_acquire 1 ''c'' 50 (rw_resources demo_loading))))]
     (demo_raced, Some (demo_record ''a'' 60, []))"
proof -
  have "rm_step (rw_resources demo_loading)
      (TryAcquire 1 ''c'' 50 (fst (rm_try_acquire 1 ''c'' 50 (rw_resources demo_loading))))
      (snd (rm_try_acquire 1 ''c'' 50 (rw_resources demo_loading)))"
    by (rule step_try_acquire) simp
  from step_client [OF _ this] show ?thesis by (simp add: demo_raced_def)
qed

text \<open>A client takes 50 of the 100 bytes while the model of 60 is being loaded.\<close>

theorem refused_commit_rolls_back_witness:
  "let (r, w') = load_commit mock_ops 2 1 (demo_record ''a'' 60) [] demo_raced in
   r = mo_fail model_error.InsufficientMemory \<and>
   mk_held (rw_backend w') = resident_bytes (rz_records (rw_residency w')) \<and>
   rw_resources w' = rw_resources demo_raced"
proof -
  have "st_free (rm_status (rw_resources demo_raced)) = 50"
    by (simp add: demo_raced_def demo_loading_def demo_known_def demo_world_def rm_status_def
        rm_try_acquire_def rm_valid_name_def has_name_locked_def um_contains_def
        um_emplace_def grant_waiters_locked_def expire_waiters_def grant_loop_stop select_waiter_def
        select_loop.simps)
  moreover have "md_footprint (demo_record ''a'' 60) = 60" "records_total [] = 0"
    by (simp_all add: demo_record_def records_total_def)
  ultimately show ?thesis
    using refused_commit_rolls_back [OF mock.backend_axioms demo_known_reachable demo_loading_begin
        demo_raced_run surjective_pairing, of 2 1] mock_contract
    by (auto simp: case_prod_beta)
qed

lemma mock_fetch_ok:
  assumes inv: "rz_inv mk_inv mk_held (w, None)"
    and m: "map_of (mr_models (rw_registry w)) k = Some m" "md_source_path m = []"
    and new: "resident_record (rz_records (rw_residency w)) k = None"
  shows "fst (load_fetch mock_ops fs m (rw_backend w)) = None"
proof -
  have "md_id m = k" "model_ok m"
    using inv m(1) mr_inv_entry by (auto simp: rz_inv_def rz_books_def)
  moreover have "mk_held (rw_backend w) k = None"
    using inv new by (simp add: rz_inv_def backend_holds_def resident_bytes_def)
  ultimately have "bo_ok (fst (mk_load (md_id m) (md_footprint m) (rw_backend w)))"
    by (simp add: mk_load_ok model_ok_def valid_name_agrees)
  with m(2) show ?thesis by (simp add: load_fetch_def case_prod_beta Let_def)
qed

text \<open>
  C19: a load succeeds exactly when freeing the unreferenced models would make room. For a
  registered model that is not resident, with no client in between, the result is success
  if and only if the file can be read and the backend takes the model, and its footprint fits in
  the free memory plus the footprints of all resident models with reference count zero,
  computed without wrap-around.
\<close>

theorem load_succeeds_iff_room:
  assumes "reliable_backend B binv held" and "rz_reachable B binv held rd (w, None)"
    and "map_of (mr_models (rw_registry w)) k = Some m"
    and "resident_record (rz_records (rw_residency w)) k = None"
  shows "mo_ok (fst (rz_load rd B fs now elapsed k w)) \<longleftrightarrow>
    fst (load_fetch B fs m (rw_backend w)) = None \<and>
    unat (md_footprint m) \<le> unat (st_free (rm_status (rw_resources w))) +
      records_total (eviction_candidates (rz_records (rw_residency w)))"
  by (rule reliable_backend.load_iff_room [OF assms])

theorem load_succeeds_iff_room_witness:
  "mo_ok (fst (rz_load id mock_ops demo_fs 9 1 ''b'' demo_loaded)) \<and>
   unat (md_footprint (demo_record ''b'' 50)) > unat (st_free (rm_status (rw_resources demo_loaded)))"
proof -
  have b: "map_of (mr_models (rw_registry demo_loaded)) ''b'' = Some (demo_record ''b'' 50)"
    "resident_record (rz_records (rw_residency demo_loaded)) ''b'' = None"
    by (simp_all add: demo_loaded_state demo_models_def resident_record_def)
  have "fst (load_fetch mock_ops demo_fs (demo_record ''b'' 50) (rw_backend demo_loaded)) = None"
    by (rule mock_fetch_ok [OF mock.reachable_inv [OF demo_loaded_reachable] b(1) _ b(2)])
      (simp add: demo_record_def)
  with load_succeeds_iff_room [OF mock_contract demo_loaded_reachable b] show ?thesis
    by (simp add: demo_loaded_state demo_record_def rm_status_def eviction_candidates_def loaded_a_def)
qed

section \<open>Evictions\<close>

text \<open>
  C20: evictions are necessary and fall on the least valuable models. A load evicts only
  resident models nobody retains, no more than needed (without the last one the model
  would not fit), none when it fits already, and every model evicted has a score no
  higher than any candidate kept, for any rounding of the score's floating point.
\<close>

theorem evictions_minimal_and_least:
  assumes "reliable_backend B binv held" and "rz_reachable B binv held rd (w, None)"
    and "load_plan rd k (mr_snapshot (rw_registry w)) (rm_status (rw_resources w)) (rw_residency w) = Inr (m, es)"
  defines "avail \<equiv> unat (st_free (rm_status (rw_resources w)))"
    and "cs \<equiv> set (eviction_candidates (rz_records (rw_residency w)))"
  shows "set es \<subseteq> cs \<and> unat (md_footprint m) \<le> avail + records_total es \<and>
    (es \<noteq> [] \<longrightarrow> avail + records_total (butlast es) < unat (md_footprint m)) \<and>
    (\<forall>e \<in> set es. \<forall>c \<in> cs - set es. residency_score rd e \<le> residency_score rd c)"
  unfolding avail_def cs_def
  by (rule plan_minimal_and_least [OF reliable_backend.reachable_books [OF assms(1,2)] assms(3)])

lemma demo_plan_b:
  "load_plan id ''b'' (mr_snapshot (rw_registry demo_loaded)) (rm_status (rw_resources demo_loaded))
     (rw_residency demo_loaded) = Inr (demo_record ''b'' 50, [loaded_a])"
proof -
  have "md_id (demo_record ''b'' 50) = ''b''" "md_footprint (demo_record ''b'' 50) = 50"
    by (simp_all add: demo_record_def)
  then show ?thesis
    by (simp add: load_plan_def demo_books [OF demo_loaded_reachable])
      (simp add: demo_loaded_state demo_models_def resident_record_def rm_status_def
        choose_evictions_def eviction_candidates_def loaded_a_def)
qed

theorem evictions_minimal_and_least_witness:
  "unat (md_footprint (demo_record ''b'' 50)) \<le>
     unat (st_free (rm_status (rw_resources demo_loaded))) + records_total [loaded_a] \<and>
   unat (st_free (rm_status (rw_resources demo_loaded))) < unat (md_footprint (demo_record ''b'' 50))"
  using evictions_minimal_and_least [OF mock_contract demo_loaded_reachable demo_plan_b] by simp

section \<open>Unloading\<close>

text \<open>
  C34: unloading is exact and never half done, whatever the backend answers. A model that is
  not resident or that somebody retains is refused without change. Otherwise the backend is
  asked: when it unloads, the model leaves the reservations, the backend and the records
  alike and its footprint is reported; when it fails, the answer is that failure and the
  model keeps its reservation, its record and its memory. The branch that reloads the
  backend when the reservation is missing is never taken.
\<close>

theorem unload_exact:
  assumes "backend B binv held" and "rz_reachable B binv held rd (w, l)"
    and "rz_unload B now k w = (r, w')"
  shows "case resident_record (rz_records (rw_residency w)) k of
      None \<Rightarrow> mo_error r \<in> {model_error.UnknownModel, model_error.UnknownResidency} \<and> w' = w
    | Some rc \<Rightarrow>
        if rr_ref_count rc \<noteq> 0 then mo_error r = model_error.ModelInUse \<and> w' = w
        else if bo_ok (fst (bk_unload B k (rw_backend w))) then
          r = mo_done (rr_footprint rc) \<and> rw_registry w' = rw_registry w \<and>
          resident_bytes (rz_records (rw_residency w')) =
            (resident_bytes (rz_records (rw_residency w)))(k := None) \<and>
          map_of (rm_model_reservations (rw_resources w')) =
            (map_of (rm_model_reservations (rw_resources w)))(k := None) \<and>
          held (rw_backend w') = (held (rw_backend w))(k := None)
        else mo_error r = model_error.BackendFailure \<and> rw_registry w' = rw_registry w \<and>
          rw_resources w' = rw_resources w \<and> rw_residency w' = rw_residency w \<and>
          held (rw_backend w') = held (rw_backend w)"
  by (rule backend.unload_any [OF assms])

theorem unload_exact_witness:
  "fst (rz_unload mock_ops 9 ''a'' demo_loaded) = mo_done 60 \<and>
   mk_held (rw_backend (snd (rz_unload mock_ops 9 ''a'' demo_loaded))) ''a'' = None \<and>
   mo_error (fst (rz_unload mock_ops 9 ''a'' demo_retained)) = model_error.ModelInUse"
proof -
  have "resident_record (rz_records (rw_residency demo_loaded)) ''a'' = Some loaded_a"
    by (simp add: demo_loaded_state resident_record_def loaded_a_def)
  moreover have "bo_ok (fst (mk_unload ''a'' (rw_backend demo_loaded)))"
    by (simp add: mk_unload_def mk_valid_id_def demo_loaded_state(6) bo_ok_def)
  ultimately show ?thesis
    using unload_exact [OF mock.backend_axioms demo_loaded_reachable, of 9 "''a''", OF surjective_pairing]
      unload_exact [OF mock.backend_axioms demo_retained_reachable, of 9 "''a''", OF surjective_pairing] demo_retained_record
    by (simp add: loaded_a_def)
qed

section \<open>Backend memory during a load\<close>

text \<open>
  The backend can hold more than the capacity. The new model is loaded before the
  evicted ones are unloaded, so in a daemon of 100 bytes a reachable state has 110 bytes
  in the backend. The reservations stay within the capacity; the device memory does not.
\<close>

theorem backend_exceeds_capacity_during_load:
  "\<exists>w m es. mock_reachable id (w, Some (m, es)) \<and> rm_capacity (rw_resources w) = 100 \<and>
     mk_held (rw_backend w) ''a'' = Some 60 \<and> mk_held (rw_backend w) ''b'' = Some 50"
proof -
  let ?w = "demo_loaded\<lparr>rw_backend := \<lparr>mk_allocations = [(''b'', 50), (''a'', 60)]\<rparr>\<rparr>"
  have "load_fetch mock_ops demo_fs (demo_record ''b'' 50) (rw_backend demo_loaded) =
      (None, \<lparr>mk_allocations = [(''b'', 50), (''a'', 60)]\<rparr>)"
    by (cases "rw_backend demo_loaded")
      (use demo_loaded_state(6) in \<open>simp add: load_fetch_def demo_record_def mk_load_def
        mk_valid_id_def bo_ok_def um_contains_def um_emplace_def\<close>)
  from rz_reachable_step [OF demo_loaded_reachable step_load_begin [OF demo_plan_b this]]
  have "mock_reachable id (?w, Some (demo_record ''b'' 50, [loaded_a]))" .
  then show ?thesis
    by (intro exI [of _ ?w] exI [of _ "demo_record ''b'' 50"] exI [of _ "[loaded_a]"])
      (simp add: demo_loaded_state mk_held_def)
qed

end
