(* ===== verification/TextFormat.thy ===== *)
theory TextFormat
  imports Prelude
begin

text \<open>
  Text as the protocol uses it: decimal numbers as \<open>std::ostream\<close> prints and
  \<open>std::from_chars\<close> reads them, tokens separated by blanks, and lines. The locale is the
  classic one throughout, so numbers have no grouping.
\<close>

section \<open>Decimal numbers\<close>

definition digit_char :: "nat \<Rightarrow> char" where
  "digit_char d = char_of (48 + d)"

definition is_digit :: "char \<Rightarrow> bool" where
  "is_digit c \<longleftrightarrow> CHR ''0'' \<le> c \<and> c \<le> CHR ''9''"

definition digit_value :: "char \<Rightarrow> nat" where
  "digit_value c = of_char c - 48"

text \<open>\<open>operator<<\<close> on unsigned and on signed integers.\<close>

fun show_nat :: "nat \<Rightarrow> string" where
  "show_nat n = (if n < 10 then [digit_char n] else show_nat (n div 10) @ [digit_char (n mod 10)])"

declare show_nat.simps [simp del]

definition show_u64 :: "64 word \<Rightarrow> string" where
  "show_u64 w = show_nat (unat w)"

definition show_int :: "int \<Rightarrow> string" where
  "show_int i = (if i < 0 then ''-'' @ show_nat (nat (- i)) else show_nat (nat i))"

definition digits_value :: "string \<Rightarrow> nat" where
  "digits_value ds = foldl (\<lambda>v c. 10 * v + digit_value c) 0 ds"

text \<open>
  \<open>std::from_chars\<close> into a \<open>uint64_t\<close>: the longest run of digits is read; \<open>None\<close> is an error
  code, for no digit or a value out of range, otherwise the value and the rest.
\<close>

definition from_chars_u64 :: "string \<Rightarrow> (64 word \<times> string) option" where
  "from_chars_u64 s =
     (let ds = takeWhile is_digit s
      in if ds = [] \<or> digits_value ds > u64_max then None
         else Some (of_nat (digits_value ds), dropWhile is_digit s))"

lemma digits_value_snoc: "digits_value (ds @ [c]) = 10 * digits_value ds + digit_value c"
  by (simp add: digits_value_def)

lemma of_char_digit: "d < 10 \<Longrightarrow> (of_char (digit_char d) :: nat) = 48 + d"
  by (simp add: digit_char_def)

lemma is_digit_iff: "is_digit c \<longleftrightarrow> 48 \<le> (of_char c :: nat) \<and> (of_char c :: nat) \<le> 57"
  by (simp add: is_digit_def less_eq_char_def)

lemma digit_char_props: "d < 10 \<Longrightarrow> is_digit (digit_char d) \<and> digit_value (digit_char d) = d"
  by (simp add: is_digit_iff digit_value_def of_char_digit)

lemma show_nat_digits: "list_all is_digit (show_nat n)"
proof (induction n rule: show_nat.induct)
  case (1 n)
  then show ?case by (subst show_nat.simps) (simp add: digit_char_props)
qed

lemma show_nat_value: "digits_value (show_nat n) = n"
proof (induction n rule: show_nat.induct)
  case (1 n)
  show ?case
  proof (cases "n < 10")
    case True
    then show ?thesis by (subst show_nat.simps) (simp add: digits_value_def digit_char_props)
  next
    case False
    then show ?thesis
      using 1 by (subst show_nat.simps) (simp add: digits_value_snoc digit_char_props)
  qed
qed

lemma show_nat_not_Nil [simp]: "show_nat n \<noteq> []"
  by (subst show_nat.simps) simp

lemma digit_not_special:
  "is_digit c \<Longrightarrow> c \<noteq> CHR '' '' \<and> c \<noteq> CHR 0x09 \<and> c \<noteq> CHR 0x0A \<and> c \<noteq> CHR ''-'' \<and> c \<noteq> CHR ''+''
    \<and> c \<noteq> CHR ''D'' \<and> c \<noteq> CHR ''B''"
  by (auto simp: is_digit_iff)

lemma from_chars_digits:
  assumes "list_all is_digit ds" and "ds \<noteq> []"
  shows "from_chars_u64 ds =
    (if digits_value ds > u64_max then None else Some (of_nat (digits_value ds), []))"
proof -
  have tw: "takeWhile is_digit ds = ds" and dw: "dropWhile is_digit ds = []"
    using assms(1) by (simp_all add: takeWhile_eq_all_conv dropWhile_eq_Nil_conv list_all_iff)
  show ?thesis unfolding from_chars_u64_def Let_def tw dw using assms(2) by simp
qed

lemma from_chars_show: "from_chars_u64 (show_u64 w) = Some (w, [])"
proof -
  have "from_chars_u64 (show_nat (unat w)) =
      (if digits_value (show_nat (unat w)) > u64_max then None
       else Some (of_nat (digits_value (show_nat (unat w))), []))"
    by (rule from_chars_digits [OF show_nat_digits show_nat_not_Nil])
  then show ?thesis
    using unat_le_u64_max [of w] by (simp add: show_u64_def show_nat_value not_less)
qed

lemma from_chars_all:
  "from_chars_u64 s = Some (v, []) \<longleftrightarrow>
     s \<noteq> [] \<and> list_all is_digit s \<and> digits_value s \<le> u64_max \<and> v = of_nat (digits_value s)"
proof (cases "list_all is_digit s \<and> s \<noteq> []")
  case True
  then show ?thesis using from_chars_digits [of s] by auto
next
  case False
  then show ?thesis
    by (auto simp: from_chars_u64_def Let_def dropWhile_eq_Nil_conv list_all_iff)
qed

section \<open>Prefixes, suffixes and lines\<close>

definition starts_with :: "string \<Rightarrow> string \<Rightarrow> bool" where
  "starts_with p s \<longleftrightarrow> take (length p) s = p"

definition ends_with :: "string \<Rightarrow> string \<Rightarrow> bool" where
  "ends_with x s \<longleftrightarrow> length x \<le> length s \<and> drop (length s - length x) s = x"

lemma starts_with_iff: "starts_with p s \<longleftrightarrow> (\<exists>r. s = p @ r)"
  by (auto simp: starts_with_def) (metis append_take_drop_id)

lemma ends_with_iff: "ends_with x s \<longleftrightarrow> (\<exists>r. s = r @ x)"
  by (auto simp: ends_with_def) (metis append_take_drop_id)

lemma starts_with_append [simp]: "starts_with p (p @ r)"
  by (simp add: starts_with_def)

abbreviation newline :: string where "newline \<equiv> [CHR 0x0A]"

definition no_newline :: "string \<Rightarrow> bool" where
  "no_newline s \<longleftrightarrow> CHR 0x0A \<notin> set s"

lemma no_newline_simps [simp]:
  "no_newline []"
  "no_newline (c # s) \<longleftrightarrow> c \<noteq> CHR 0x0A \<and> no_newline s"
  "no_newline (s @ t) \<longleftrightarrow> no_newline s \<and> no_newline t"
  by (auto simp: no_newline_def)

lemma digits_no_newline: "list_all is_digit ds \<Longrightarrow> no_newline ds"
  by (auto simp: no_newline_def list_all_iff dest: digit_not_special)

lemma show_no_newline [simp]:
  "no_newline (show_nat n)" "no_newline (show_u64 w)" "no_newline (show_int i)"
  by (simp_all add: show_u64_def show_int_def digits_no_newline show_nat_digits)

section \<open>Tokens\<close>

text \<open>
  The pieces of a line between separators: skip separators, stop at the end, take up to the
  next one.
\<close>

function split_on :: "(char \<Rightarrow> bool) \<Rightarrow> string \<Rightarrow> string list" where
  "split_on P line =
     (let rest = dropWhile P line
      in if rest = [] then []
         else takeWhile (\<lambda>c. \<not> P c) rest # split_on P (dropWhile (\<lambda>c. \<not> P c) rest))"
  by pat_completeness auto
termination
proof (relation "measure (\<lambda>(_, line). length line)", goal_cases)
  case (2 P line rest)
  then obtain c cs where rest: "rest = c # cs" by (meson neq_Nil_conv)
  with 2 have "\<not> P c" by (metis hd_dropWhile list.sel(1))
  then have "length (dropWhile (\<lambda>c. \<not> P c) rest) < length rest"
    by (simp add: rest le_imp_less_Suc length_dropWhile_le)
  also have "length rest \<le> length line" using 2 by (simp add: length_dropWhile_le)
  finally show ?case by simp
qed simp

declare split_on.simps [simp del]

definition is_blank :: "char \<Rightarrow> bool" where
  "is_blank c \<longleftrightarrow> c = CHR '' '' \<or> c = CHR 0x09"

definition tokenize :: "string \<Rightarrow> string list" where
  "tokenize line = split_on is_blank line"

text \<open>\<open>std::isspace\<close>, which separates the words \<open>operator>>\<close> reads.\<close>

definition is_space :: "char \<Rightarrow> bool" where
  "is_space c \<longleftrightarrow> c = CHR '' '' \<or> (9 \<le> (of_char c :: nat) \<and> (of_char c :: nat) \<le> 13)"

definition stream_words :: "string \<Rightarrow> string list" where
  "stream_words s = split_on is_space s"

text \<open>A token: not empty and without separators.\<close>

definition is_token :: "(char \<Rightarrow> bool) \<Rightarrow> string \<Rightarrow> bool" where
  "is_token P t \<longleftrightarrow> t \<noteq> [] \<and> list_all (\<lambda>c. \<not> P c) t"

text \<open>Tokens separated by single blanks.\<close>

fun join_tokens :: "string list \<Rightarrow> string" where
  "join_tokens [] = []"
| "join_tokens [t] = t"
| "join_tokens (t # u # ts) = t @ '' '' @ join_tokens (u # ts)"

lemma split_on_Nil [simp]: "split_on P [] = []"
  by (subst split_on.simps) simp

lemma token_split:
  assumes "is_token P t" and "rest = [] \<or> P (hd rest)"
  shows "takeWhile (\<lambda>c. \<not> P c) (t @ rest) = t" and "dropWhile (\<lambda>c. \<not> P c) (t @ rest) = rest"
    and "dropWhile P (t @ rest) = t @ rest"
proof -
  have t: "\<forall>c \<in> set t. \<not> P c" "t \<noteq> []" using assms(1) by (simp_all add: is_token_def list_all_iff)
  show "takeWhile (\<lambda>c. \<not> P c) (t @ rest) = t"
    using t assms(2) by (cases rest) (auto simp: takeWhile_append)
  show "dropWhile (\<lambda>c. \<not> P c) (t @ rest) = rest"
    using t assms(2) by (cases rest) (auto simp: dropWhile_append)
  show "dropWhile P (t @ rest) = t @ rest"
    using t by (cases t) auto
qed

lemma split_on_token:
  assumes "is_token P t" and "rest = [] \<or> P (hd rest)"
  shows "split_on P (t @ rest) = t # split_on P rest"
proof -
  have "t \<noteq> []" using assms(1) by (simp add: is_token_def)
  with token_split [OF assms] show ?thesis by (subst split_on.simps) (simp add: Let_def)
qed

lemma split_on_separator: "P c \<Longrightarrow> split_on P (c # s) = split_on P s"
  by (subst (1 2) split_on.simps) simp

lemma split_on_join: "P (CHR '' '') \<Longrightarrow> list_all (is_token P) ts \<Longrightarrow> split_on P (join_tokens ts) = ts"
proof (induction ts rule: join_tokens.induct)
  case (2 t)
  then show ?case using split_on_token [of P t "[]"] by simp
next
  case (3 t u ts)
  have "split_on P (t @ '' '' @ join_tokens (u # ts)) = t # split_on P ('' '' @ join_tokens (u # ts))"
    using "3.prems" by (intro split_on_token) simp_all
  with 3 show ?case by (simp add: split_on_separator)
qed simp

lemma tokenize_join: "list_all (is_token is_blank) ts \<Longrightarrow> tokenize (join_tokens ts) = ts"
  unfolding tokenize_def by (rule split_on_join) (simp_all add: is_blank_def)

lemma stream_words_join: "list_all (is_token is_space) ts \<Longrightarrow> stream_words (join_tokens ts) = ts"
  unfolding stream_words_def by (rule split_on_join) (simp_all add: is_space_def)

lemma split_on_tokens: "t \<in> set (split_on P line) \<Longrightarrow> is_token P t"
proof (induction P line rule: split_on.induct)
  case (1 P line)
  let ?rest = "dropWhile P line"
  show ?case
  proof (cases "?rest = []")
    case True
    have "split_on P line = []" by (subst split_on.simps) (simp only: Let_def True refl if_True)
    with "1.prems" show ?thesis by simp
  next
    case False
    then have "\<not> P (hd ?rest)" by (rule hd_dropWhile)
    then have "is_token P (takeWhile (\<lambda>c. \<not> P c) ?rest)"
      using False by (cases ?rest) (auto simp: is_token_def list_all_iff dest: set_takeWhileD)
    moreover have "split_on P line = takeWhile (\<lambda>c. \<not> P c) ?rest #
        split_on P (dropWhile (\<lambda>c. \<not> P c) ?rest)"
      by (subst split_on.simps) (simp only: Let_def False if_False)
    then have "t = takeWhile (\<lambda>c. \<not> P c) ?rest \<or>
        t \<in> set (split_on P (dropWhile (\<lambda>c. \<not> P c) ?rest))"
      using "1.prems" by (simp only: list.set insert_iff)
    ultimately show ?thesis using "1.IH" [OF refl False] by blast
  qed
qed

lemma is_token_append: "is_token P s \<Longrightarrow> is_token P t \<Longrightarrow> is_token P (s @ t)"
  by (simp add: is_token_def)

lemma blank_is_space: "is_blank c \<Longrightarrow> is_space c"
  by (auto simp: is_blank_def is_space_def)

lemma space_token_blank: "is_token is_space t \<Longrightarrow> is_token is_blank t"
  by (auto simp: is_token_def list_all_iff dest: blank_is_space)

lemma digit_not_space: "is_digit c \<Longrightarrow> \<not> is_space c"
  by (auto simp: is_digit_iff is_space_def)

lemma digits_token: "list_all is_digit ds \<Longrightarrow> ds \<noteq> [] \<Longrightarrow> is_token is_space ds"
  by (auto simp: is_token_def list_all_iff dest: digit_not_space)

lemma show_token: "is_token is_space (show_nat n)" "is_token is_space (show_u64 w)"
  by (simp_all add: show_u64_def digits_token show_nat_digits)

lemma show_int_token: "is_token is_space (show_int i)"
  using show_token(1) [of "nat (- i)"] show_token(1) [of "nat i"]
  by (auto simp: show_int_def is_token_def is_space_def)

lemmas show_blank_token [simp] =
  show_token [THEN space_token_blank] show_int_token [THEN space_token_blank]

end
