(* ===== verification/Protocol.thy ===== *)
theory Protocol
  imports TextFormat ModelResidency NodeRegistry Metrics
begin

text \<open>
  The wire protocol (protocol.hpp, protocol.cpp): the parser of command lines and the
  formatter of every response. A line is a \<open>string\<close> without its terminator, a response a
  \<open>string\<close> with it.
\<close>

section \<open>Commands\<close>

datatype command_type =
    Acquire
  | Release
  | Status
  | RegisterModel
  | RegisterFile
  | Share
  | Metrics
  | RegisterNode
  | UnregisterNode
  | Nodes
  | UnregisterModel
  | RetainModel
  | ReleaseModel
  | Models
  | LoadModel
  | UnloadModel
  | Residency

datatype acquire_mode = Wait | Try

datatype parse_error =
    NoError
  | InvalidRequest
  | InvalidSize
  | InvalidName
  | InvalidModelId
  | InvalidMetadata
  | InvalidPath

record command =
  cm_type :: command_type
  cm_name :: string
  cm_bytes :: bytes
  cm_mode :: acquire_mode
  cm_options :: acquire_options
  cm_metadata :: string
  cm_path :: string

definition empty_command :: command where
  "empty_command = \<lparr>cm_type = command_type.Status, cm_name = [], cm_bytes = 0, cm_mode = Wait,
     cm_options = default_options, cm_metadata = [], cm_path = []\<rparr>"

record parse_result =
  pa_error :: parse_error
  pa_command :: command

definition pa_ok :: "parse_result \<Rightarrow> bool" where
  "pa_ok r \<longleftrightarrow> pa_error r = parse_error.NoError"

definition parse_fail :: "parse_error \<Rightarrow> parse_result" where
  "parse_fail e = \<lparr>pa_error = e, pa_command = empty_command\<rparr>"

abbreviation parsed :: "command \<Rightarrow> parse_result" where
  "parsed c \<equiv> \<lparr>pa_error = parse_error.NoError, pa_command = c\<rparr>"

section \<open>Tokens\<close>

definition pr_valid_name :: "string \<Rightarrow> bool" where
  "pr_valid_name name \<longleftrightarrow>
     (if name = [] \<or> length name > 64 then False
      else list_all (\<lambda>c.
        (let letter = (CHR ''a'' \<le> c \<and> c \<le> CHR ''z'') \<or> (CHR ''A'' \<le> c \<and> c \<le> CHR ''Z'');
             digit = (CHR ''0'' \<le> c \<and> c \<le> CHR ''9'')
         in letter \<or> digit \<or> c = CHR ''_'' \<or> c = CHR ''-'' \<or> c = CHR ''.'')) name)"

definition pr_valid_metadata :: "string \<Rightarrow> bool" where
  "pr_valid_metadata metadata \<longleftrightarrow>
     (if metadata = [] \<or> length metadata > 128 then False
      else list_all (\<lambda>c.
        (let v = (of_char c :: nat)
         in v \<ge> 32 \<and> v < 127 \<and> c \<noteq> CHR '' '' \<and> c \<noteq> CHR 0x09)) metadata)"

definition size_suffixes :: "(string \<times> bytes) list" where
  "size_suffixes =
     [(''KiB'', 1024), (''MiB'', 1024 * 1024), (''GiB'', 1024 * 1024 * 1024),
      (''KB'', 1000), (''MB'', 1000 * 1000), (''GB'', 1000 * 1000 * 1000), (''B'', 1)]"

text \<open>The loop over the suffixes: the digits and the multiplier of the first that matches.\<close>

fun split_suffix :: "(string \<times> bytes) list \<Rightarrow> string \<Rightarrow> string \<times> bytes" where
  "split_suffix [] token = (token, 1)"
| "split_suffix ((suffix, v) # rest) token =
     (if ends_with suffix token then (take (length token - length suffix) token, v)
      else split_suffix rest token)"

definition parse_size :: "string \<Rightarrow> bytes option" where
  "parse_size token =
     (let (digits, multiplier) = split_suffix size_suffixes token
      in if digits = [] then None
         else if \<not> list_all is_digit digits then None
         else case from_chars_u64 digits of
                None \<Rightarrow> None
              | Some (v, rest) \<Rightarrow>
                  if rest \<noteq> [] \<or> v = 0 then None
                  else if v > (- 1) div multiplier then None
                  else Some (v * multiplier))"

definition parse_bytes :: "string \<Rightarrow> bytes option" where
  "parse_bytes token = parse_size token"

definition parse_unsigned :: "string \<Rightarrow> 64 word option" where
  "parse_unsigned token =
     (if token = [] then None
      else case from_chars_u64 token of
             None \<Rightarrow> None
           | Some (v, rest) \<Rightarrow> if rest \<noteq> [] then None else Some v)"

text \<open>\<open>int\<close> has 32 bits.\<close>

definition int_max :: nat where "int_max = 2147483647"

definition parse_priority :: "string \<Rightarrow> int option" where
  "parse_priority token =
     (if token = [] then None
      else
        (let signed = hd token = CHR ''-'' \<or> hd token = CHR ''+'';
             negative = hd token = CHR ''-'';
             magnitude = parse_unsigned (if signed then tl token else token)
         in case magnitude of
              None \<Rightarrow> None
            | Some m \<Rightarrow>
                if unat m > (if negative then int_max + 1 else int_max) then None
                else if negative then Some (- int (unat m))
                else Some (int (unat m))))"

definition parse_timeout :: "string \<Rightarrow> millis option" where
  "parse_timeout token =
     (case parse_unsigned token of
        None \<Rightarrow> None
      | Some v \<Rightarrow> if int (unat v) > ms_max then None else Some (int (unat v)))"

section \<open>The parser\<close>

text \<open>The branches of \<open>parse_command\<close>, one function each, on the tokens after the verb.\<close>

definition parse_plain :: "command_type \<Rightarrow> string list \<Rightarrow> parse_result" where
  "parse_plain ty args =
     (if args \<noteq> [] then parse_fail parse_error.InvalidRequest
      else parsed (empty_command\<lparr>cm_type := ty\<rparr>))"

definition parse_named :: "command_type \<Rightarrow> parse_error \<Rightarrow> string list \<Rightarrow> parse_result" where
  "parse_named ty invalid args =
     (if length args \<noteq> 1 then parse_fail parse_error.InvalidRequest
      else if \<not> pr_valid_name (args ! 0) then parse_fail invalid
      else parsed (empty_command\<lparr>cm_type := ty, cm_name := args ! 0\<rparr>))"

definition parse_node_register :: "string list \<Rightarrow> parse_result" where
  "parse_node_register args =
     (if length args \<noteq> 3 \<or> \<not> pr_valid_name (args ! 0) then
        parse_fail (if length args = 3 then parse_error.InvalidName else parse_error.InvalidRequest)
      else case parse_size (args ! 2) of
        None \<Rightarrow> parse_fail parse_error.InvalidSize
      | Some capacity \<Rightarrow>
          if args ! 1 = [] \<or> length (args ! 1) > 256 then parse_fail parse_error.InvalidRequest
          else parsed (empty_command\<lparr>cm_type := command_type.RegisterNode, cm_name := args ! 0,
            cm_path := args ! 1, cm_bytes := capacity\<rparr>))"

definition parse_register :: "string list \<Rightarrow> parse_result" where
  "parse_register args =
     (if length args \<noteq> 3 then parse_fail parse_error.InvalidRequest
      else if \<not> pr_valid_name (args ! 0) then parse_fail parse_error.InvalidModelId
      else case parse_size (args ! 1) of
        None \<Rightarrow> parse_fail parse_error.InvalidSize
      | Some n \<Rightarrow>
          if \<not> pr_valid_metadata (args ! 2) then parse_fail parse_error.InvalidMetadata
          else parsed (empty_command\<lparr>cm_type := command_type.RegisterModel, cm_name := args ! 0,
            cm_bytes := n, cm_metadata := args ! 2\<rparr>))"

definition parse_register_file :: "string list \<Rightarrow> parse_result" where
  "parse_register_file args =
     (if length args \<noteq> 3 then parse_fail parse_error.InvalidRequest
      else if \<not> pr_valid_name (args ! 0) then parse_fail parse_error.InvalidModelId
      else if args ! 1 = [] \<or> length (args ! 1) > 4096 then parse_fail parse_error.InvalidPath
      else if \<not> pr_valid_metadata (args ! 2) then parse_fail parse_error.InvalidMetadata
      else parsed (empty_command\<lparr>cm_type := command_type.RegisterFile, cm_name := args ! 0,
        cm_path := args ! 1, cm_metadata := args ! 2\<rparr>))"

definition parse_try_acquire :: "string list \<Rightarrow> parse_result" where
  "parse_try_acquire args =
     (if length args \<noteq> 2 then parse_fail parse_error.InvalidRequest
      else if \<not> pr_valid_name (args ! 0) then parse_fail parse_error.InvalidName
      else case parse_size (args ! 1) of
        None \<Rightarrow> parse_fail parse_error.InvalidSize
      | Some n \<Rightarrow>
          parsed (empty_command\<lparr>cm_type := command_type.Acquire, cm_name := args ! 0,
            cm_bytes := n, cm_mode := Try,
            cm_options := default_options\<lparr>ao_priority := 0, ao_timeout := 0\<rparr>\<rparr>))"

text \<open>
  The options of \<open>acquire\<close>; the token counts of the source, which count the verb, are
  those of \<open>args\<close> plus one. The fourth token is read when there are exactly five.
\<close>

definition parse_acquire_options :: "string list \<Rightarrow> acquire_options option" where
  "parse_acquire_options args =
     (let size = length args + 1;
          priority = (if size \<ge> 4 then parse_priority (args ! 2) else Some 0);
          timeout = (if size = 5 then parse_timeout (args ! 3) else Some ms_max);
          cost = (if size = 6 then parse_timeout (args ! 4) else Some 0)
      in case (priority, timeout, cost) of
           (Some p, Some t, Some c) \<Rightarrow>
             Some \<lparr>ao_priority = p, ao_timeout = t, ao_cost = c\<rparr>
         | _ \<Rightarrow> None)"

definition parse_acquire :: "string list \<Rightarrow> parse_result" where
  "parse_acquire args =
     (if length args + 1 < 3 \<or> length args + 1 > 6 then parse_fail parse_error.InvalidRequest
      else if \<not> pr_valid_name (args ! 0) then parse_fail parse_error.InvalidName
      else case parse_size (args ! 1) of
        None \<Rightarrow> parse_fail parse_error.InvalidSize
      | Some n \<Rightarrow>
          (case parse_acquire_options args of
             None \<Rightarrow> parse_fail parse_error.InvalidRequest
           | Some options \<Rightarrow>
               parsed (empty_command\<lparr>cm_type := command_type.Acquire, cm_name := args ! 0,
                 cm_bytes := n, cm_mode := Wait, cm_options := options\<rparr>)))"

definition parse_tokens :: "string list \<Rightarrow> parse_result" where
  "parse_tokens tokens =
     (case tokens of
        [] \<Rightarrow> parse_fail parse_error.InvalidRequest
      | verb # args \<Rightarrow>
          if verb = ''status'' then parse_plain command_type.Status args
          else if verb = ''models'' then parse_plain command_type.Models args
          else if verb = ''residency'' then parse_plain command_type.Residency args
          else if verb = ''share'' then parse_named command_type.Share parse_error.InvalidModelId args
          else if verb = ''metrics'' then parse_plain command_type.Metrics args
          else if verb = ''nodes'' then parse_plain command_type.Nodes args
          else if verb = ''node_register'' then parse_node_register args
          else if verb = ''node_remove'' then
            parse_named command_type.UnregisterNode parse_error.InvalidName args
          else if verb = ''register'' then parse_register args
          else if verb = ''register_file'' then parse_register_file args
          else if verb = ''unregister'' then
            parse_named command_type.UnregisterModel parse_error.InvalidModelId args
          else if verb = ''retain'' then
            parse_named command_type.RetainModel parse_error.InvalidModelId args
          else if verb = ''release_model'' then
            parse_named command_type.ReleaseModel parse_error.InvalidModelId args
          else if verb = ''load'' then
            parse_named command_type.LoadModel parse_error.InvalidModelId args
          else if verb = ''unload'' then
            parse_named command_type.UnloadModel parse_error.InvalidModelId args
          else if verb = ''release'' then
            parse_named command_type.Release parse_error.InvalidName args
          else if verb = ''try_acquire'' then parse_try_acquire args
          else if verb = ''acquire'' then parse_acquire args
          else parse_fail parse_error.InvalidRequest)"

definition parse_command :: "string \<Rightarrow> parse_result" where
  "parse_command line = parse_tokens (tokenize line)"

section \<open>The formatters\<close>

definition format_parse_error :: "parse_error \<Rightarrow> string" where
  "format_parse_error e =
     (case e of
        parse_error.InvalidRequest \<Rightarrow> ''ERR invalid_request invalid command syntax'' @ newline
      | parse_error.InvalidSize \<Rightarrow> ''ERR invalid_size invalid memory size'' @ newline
      | parse_error.InvalidName \<Rightarrow> ''ERR invalid_name invalid client name'' @ newline
      | parse_error.InvalidModelId \<Rightarrow> ''ERR invalid_model_id invalid model ID'' @ newline
      | parse_error.InvalidMetadata \<Rightarrow> ''ERR invalid_metadata invalid model metadata'' @ newline
      | parse_error.InvalidPath \<Rightarrow> ''ERR invalid_path invalid model file path'' @ newline
      | parse_error.NoError \<Rightarrow> [])"

definition format_operation_result :: "string \<Rightarrow> string \<Rightarrow> operation_result \<Rightarrow> string" where
  "format_operation_result action name r =
     (if op_ok r then ''OK '' @ action @ '' '' @ name @ '' '' @ show_u64 (op_amount r) @ newline
      else case op_error r of
        error_code.InvalidName \<Rightarrow> ''ERR invalid_name invalid client name'' @ newline
      | error_code.InvalidSize \<Rightarrow> ''ERR invalid_size invalid memory size'' @ newline
      | error_code.DuplicateClient \<Rightarrow>
          ''ERR duplicate_client client already has a reservation'' @ newline
      | error_code.UnknownClient \<Rightarrow> ''ERR unknown_client client not found'' @ newline
      | error_code.InsufficientMemory \<Rightarrow>
          ''ERR insufficient_memory requested bytes exceed available capacity'' @ newline
      | error_code.Timeout \<Rightarrow> ''ERR timeout acquire request timed out'' @ newline
      | error_code.InvalidTimeout \<Rightarrow>
          ''ERR invalid_timeout timeout must be nonnegative milliseconds'' @ newline
      | error_code.NoError \<Rightarrow> ''ERR internal_error internal resource manager error'' @ newline)"

definition format_status :: "status_snapshot \<Rightarrow> string" where
  "format_status s =
     ''OK status '' @ show_u64 (st_capacity s) @ '' '' @ show_u64 (st_used s) @ '' '' @
     show_u64 (st_free s) @ '' '' @ show_nat (length (st_reservations s)) @ newline @
     concat (map (\<lambda>r. ''CLIENT '' @ rs_name r @ '' '' @ show_u64 (rs_bytes r) @ newline)
       (st_reservations s)) @
     ''END'' @ newline"

definition format_model_operation_result ::
  "string \<Rightarrow> string \<Rightarrow> model_operation_result \<Rightarrow> string" where
  "format_model_operation_result action name r =
     (if mo_ok r then ''OK '' @ action @ '' '' @ name @ '' '' @ show_u64 (mo_amount r) @ newline
      else case mo_error r of
        model_error.InvalidId \<Rightarrow> ''ERR invalid_model_id invalid model ID'' @ newline
      | model_error.InvalidMetadata \<Rightarrow> ''ERR invalid_metadata invalid model metadata'' @ newline
      | model_error.InvalidSize \<Rightarrow> ''ERR invalid_size invalid memory size'' @ newline
      | model_error.DuplicateModel \<Rightarrow> ''ERR duplicate_model model already exists'' @ newline
      | model_error.UnknownModel \<Rightarrow> ''ERR unknown_model model not found'' @ newline
      | model_error.ModelInUse \<Rightarrow> ''ERR model_in_use model is in use'' @ newline
      | model_error.RefcountUnderflow \<Rightarrow>
          ''ERR refcount_underflow model reference count is already zero'' @ newline
      | model_error.UnknownResidency \<Rightarrow> ''ERR unknown_residency model is not resident'' @ newline
      | model_error.InsufficientMemory \<Rightarrow>
          ''ERR insufficient_memory insufficient memory for model'' @ newline
      | model_error.InvalidPath \<Rightarrow> ''ERR invalid_path invalid model file path'' @ newline
      | model_error.FileUnavailable \<Rightarrow> ''ERR file_unavailable model file is unavailable'' @ newline
      | model_error.SourceChanged \<Rightarrow> ''ERR source_changed model file size changed'' @ newline
      | model_error.ReadFailure \<Rightarrow> ''ERR read_failure could not read model file'' @ newline
      | model_error.BackendFailure \<Rightarrow>
          ''ERR backend_failure accelerator backend operation failed'' @ newline
      | model_error.BackendUnsupported \<Rightarrow>
          ''ERR unsupported backend does not support process sharing'' @ newline
      | model_error.NoError \<Rightarrow> ''ERR internal_error internal model registry error'' @ newline)"

definition format_metrics :: "metrics_snapshot \<Rightarrow> string" where
  "format_metrics s =
     ''OK metrics'' @ newline @
     ''requests '' @ show_u64 (mt_requests s) @ newline @
     ''successes '' @ show_u64 (mt_successes s) @ newline @
     ''failures '' @ show_u64 (mt_failures s) @ newline @
     ''acquires '' @ show_u64 (mt_acquires s) @ newline @
     ''releases '' @ show_u64 (mt_releases s) @ newline @
     ''model_loads '' @ show_u64 (mt_model_loads s) @ newline @
     ''model_unloads '' @ show_u64 (mt_model_unloads s) @ newline @
     ''acquired_bytes '' @ show_u64 (mt_acquired_bytes s) @ newline @
     ''released_bytes '' @ show_u64 (mt_released_bytes s) @ newline @
     ''END'' @ newline"

definition format_node_operation_result ::
  "string \<Rightarrow> string \<Rightarrow> node_operation_result \<Rightarrow> string" where
  "format_node_operation_result action name r =
     (if nop_ok r then
        ''OK '' @ action @ '' '' @ name @
        (if nop_amount r \<noteq> 0 then '' '' @ show_u64 (nop_amount r) else []) @ newline
      else case nop_error r of
        node_error.DuplicateNode \<Rightarrow> ''ERR duplicate_node node already registered'' @ newline
      | node_error.UnknownNode \<Rightarrow> ''ERR unknown_node node not found'' @ newline
      | node_error.InvalidCapacity \<Rightarrow> ''ERR invalid_size invalid node capacity'' @ newline
      | node_error.InvalidEndpoint \<Rightarrow> ''ERR invalid_endpoint invalid node endpoint'' @ newline
      | node_error.InvalidId \<Rightarrow> ''ERR invalid_name invalid node ID'' @ newline
      | node_error.NoError \<Rightarrow> ''ERR internal_error internal node registry error'' @ newline)"

definition format_nodes :: "node_snapshot \<Rightarrow> string" where
  "format_nodes s =
     ''OK nodes '' @ show_nat (length (ns_nodes s)) @ newline @
     concat (map (\<lambda>n. ''NODE '' @ nd_id n @ '' '' @ nd_endpoint n @ '' '' @
         show_u64 (nd_capacity n) @ '' '' @ show_u64 (nd_used n) @ '' '' @
         (if nd_healthy n then ''healthy'' else ''unhealthy'') @ newline) (ns_nodes s)) @
     ''END'' @ newline"

definition format_models :: "model_snapshot \<Rightarrow> string" where
  "format_models s =
     ''OK models '' @ show_nat (length (ms_models s)) @ newline @
     concat (map (\<lambda>m. ''MODEL '' @ md_id m @ '' '' @ md_metadata m @ '' '' @
         show_u64 (md_footprint m) @ '' '' @ show_u64 (md_ref_count m) @ '' '' @
         show_u64 (md_last_access m) @
         (if md_source_path m \<noteq> [] then '' '' @ md_source_path m else []) @ newline)
       (ms_models s)) @
     ''END'' @ newline"

definition format_residency_operation_result ::
  "string \<Rightarrow> string \<Rightarrow> model_operation_result \<Rightarrow> string" where
  "format_residency_operation_result action name r = format_model_operation_result action name r"

definition format_share_result :: "string \<Rightarrow> model_share_result \<Rightarrow> string" where
  "format_share_result name r =
     (if ms_error r = model_error.NoError then
        ''OK shared '' @ name @ '' '' @ show_u64 (ms_amount r) @ '' '' @ ms_token r @ newline
      else case ms_error r of
        model_error.UnknownModel \<Rightarrow> ''ERR unknown_model model not found'' @ newline
      | model_error.UnknownResidency \<Rightarrow> ''ERR unknown_residency model is not resident'' @ newline
      | model_error.BackendUnsupported \<Rightarrow>
          ''ERR unsupported backend does not support process sharing'' @ newline
      | model_error.BackendFailure \<Rightarrow>
          ''ERR backend_failure accelerator backend operation failed'' @ newline
      | _ \<Rightarrow> ''ERR internal_error internal model sharing error'' @ newline)"

definition format_residency :: "residency_snapshot \<Rightarrow> string" where
  "format_residency s =
     ''OK residency '' @ show_nat (length (filter rr_resident (rs_records s))) @ newline @
     concat (map (\<lambda>r. ''RESIDENT '' @ rr_id r @ '' '' @ show_u64 (rr_footprint r) @ '' '' @
         show_u64 (rr_ref_count r) @ '' '' @ show_u64 (rr_last_loaded r) @ newline)
       (filter rr_resident (rs_records s))) @
     ''END'' @ newline"

end
