(* ===== verification/ProtocolProperties.thy ===== *)
theory ProtocolProperties
  imports Protocol
begin

text \<open>The properties of the parser: sizes, and what a parsed command guarantees.\<close>

section \<open>Sizes\<close>

text \<open>The guard \<open>value > max / multiplier\<close> is exact.\<close>

lemma mult_guard:
  fixes v m :: bytes
  assumes "m \<noteq> 0"
  shows "v \<le> (- 1) div m \<longleftrightarrow> unat v * unat m \<le> u64_max"
    and "v \<le> (- 1) div m \<Longrightarrow> unat (v * m) = unat v * unat m"
proof -
  have max: "unat (- 1 :: bytes) = u64_max"
    by (simp add: u64_max_def unsigned_minus_1_eq_mask mask_eq_exp_minus_1)
  have "0 < unat m" using assms by (simp add: unat_pos_iff)
  then show iff: "v \<le> (- 1) div m \<longleftrightarrow> unat v * unat m \<le> u64_max"
    by (simp add: word_le_nat_alt unat_div max less_eq_div_iff_mult_less_eq)
  assume "v \<le> (- 1) div m"
  with iff have "unat v * unat m < 2 ^ LENGTH(64)" by (simp add: u64_max_def)
  then show "unat (v * m) = unat v * unat m" by (rule unat_mult_lem [THEN iffD1])
qed

lemma split_suffix_sound:
  "split_suffix xs token = (ds, m) \<Longrightarrow> \<exists>sfx. (sfx, m) \<in> set (([], 1) # xs) \<and> token = ds @ sfx"
proof (induction xs token rule: split_suffix.induct)
  case (2 suffix v rest token)
  show ?case
  proof (cases "ends_with suffix token")
    case True
    then obtain r where "token = r @ suffix" by (auto simp: ends_with_iff)
    with True "2.prems" show ?thesis by auto
  next
    case False
    with 2 show ?thesis by auto
  qed
qed simp

lemma ends_with_rev: "ends_with x s \<longleftrightarrow> take (length x) (rev s) = rev x"
  by (auto simp: ends_with_iff) (metis append_take_drop_id length_rev rev_append rev_rev_ident)

lemma split_suffix_complete:
  assumes "list_all is_digit ds" and "ds \<noteq> []" and "(sfx, m) \<in> set (([], 1) # size_suffixes)"
  shows "split_suffix size_suffixes (ds @ sfx) = (ds, m)"
proof -
  obtain es d where ds: "ds = es @ [d]" using assms(2) by (metis rev_exhaust)
  have "is_digit d" using assms(1) by (simp add: ds)
  then have "d \<noteq> CHR ''B''" "d \<noteq> CHR ''i''" "d \<noteq> CHR ''K''" "d \<noteq> CHR ''M''" "d \<noteq> CHR ''G''"
    by (auto simp: is_digit_iff)
  then have rule: "split_suffix size_suffixes (es @ [d] @ sfx) = (es @ [d], m)"
    if "(sfx, m) \<in> {([], 1), (''KiB'', 1024), (''MiB'', 1024 * 1024), (''GiB'', 1024 * 1024 * 1024),
      (''KB'', 1000), (''MB'', 1000 * 1000), (''GB'', 1000 * 1000 * 1000), (''B'', 1)}"
    using that unfolding insert_iff empty_iff prod.inject
    by (elim disjE conjE FalseE) (simp_all add: size_suffixes_def ends_with_rev)
  have "(sfx, m) \<in> {([], 1), (''KiB'', 1024), (''MiB'', 1024 * 1024), (''GiB'', 1024 * 1024 * 1024),
      (''KB'', 1000), (''MB'', 1000 * 1000), (''GB'', 1000 * 1000 * 1000), (''B'', 1)}"
    using assms(3) unfolding size_suffixes_def by (simp only: list.set)
  from rule [OF this] show ?thesis by (simp add: ds)
qed

lemma suffix_multipliers: "(sfx, m) \<in> set (([], 1) # size_suffixes) \<Longrightarrow> m \<noteq> 0"
  by (auto simp: size_suffixes_def)

lemma parse_size_iff:
  "parse_size token = Some n \<longleftrightarrow>
     (\<exists>ds sfx m. (sfx, m) \<in> set (([], 1) # size_suffixes) \<and> token = ds @ sfx \<and> ds \<noteq> [] \<and>
        list_all is_digit ds \<and> 0 < digits_value ds \<and> digits_value ds * unat m = unat n)"
    (is "_ \<longleftrightarrow> ?spec")
proof
  assume some: "parse_size token = Some n"
  obtain ds m where sp: "split_suffix size_suffixes token = (ds, m)" by fastforce
  from some sp have ds: "ds \<noteq> []" "list_all is_digit ds"
    by (auto simp: parse_size_def split: if_splits)
  from some sp ds obtain v where v: "from_chars_u64 ds = Some (v, [])" "v \<noteq> 0"
      "v \<le> (- 1) div m" "n = v * m"
    by (auto simp: parse_size_def not_less split: if_splits option.splits)
  have val: "digits_value ds \<le> u64_max" "v = of_nat (digits_value ds)"
    using v(1) by (simp_all add: from_chars_all)
  then have uv: "unat v = digits_value ds"
    by (simp add: unat_of_nat u64_max_def take_bit_nat_eq_self)
  obtain sfx where sfx: "(sfx, m) \<in> set (([], 1) # size_suffixes)" "token = ds @ sfx"
    using split_suffix_sound [OF sp] by blast
  have "unat n = digits_value ds * unat m"
    using mult_guard(2) [OF suffix_multipliers [OF sfx(1)] v(3)] v(4) uv by simp
  moreover have "0 < digits_value ds" using v(2) uv by (simp flip: uv add: unat_pos_iff)
  ultimately show ?spec using sfx ds by metis
next
  assume ?spec
  then obtain ds sfx m where s: "(sfx, m) \<in> set (([], 1) # size_suffixes)" "token = ds @ sfx"
    "ds \<noteq> []" "list_all is_digit ds" "0 < digits_value ds" "digits_value ds * unat m = unat n"
    by blast
  have m: "m \<noteq> 0" by (rule suffix_multipliers [OF s(1)])
  then have "digits_value ds \<le> digits_value ds * unat m" using unat_pos_iff [of m] by simp
  then have le: "digits_value ds \<le> u64_max" using s(6) unat_le_u64_max [of n] by simp
  let ?v = "of_nat (digits_value ds) :: bytes"
  have uv: "unat ?v = digits_value ds"
    using le by (simp add: unat_of_nat u64_max_def take_bit_nat_eq_self)
  have fc: "from_chars_u64 ds = Some (?v, [])" using s(3,4) le by (simp add: from_chars_all)
  have guard: "?v \<le> (- 1) div m"
    using mult_guard(1) [OF m, of ?v] s(6) unat_le_u64_max [of n] by (simp add: uv)
  have "unat (?v * m) = unat n" using mult_guard(2) [OF m guard] s(6) by (simp only: uv)
  then have "?v * m = n" by (simp add: word_unat_eq_iff)
  moreover have "?v \<noteq> 0" using s(5) uv by (metis less_numeral_extra(3) unsigned_0)
  ultimately show "parse_size token = Some n"
    using split_suffix_complete [OF s(4,3,1)] s(2-4) fc guard
    by (simp add: parse_size_def)
qed

text \<open>
  C26: sizes are read exactly. A token is a size exactly when it is a run of digits followed
  by one of the units or none, its value is positive and the product with the unit fits
  64 bits; the result is that product, so a size is never silently wrapped or truncated.
\<close>

theorem parse_size_exact:
  "parse_size token = Some n \<longleftrightarrow>
     (\<exists>ds sfx m. (sfx, m) \<in> set (([], 1) # size_suffixes) \<and> token = ds @ sfx \<and> ds \<noteq> [] \<and>
        list_all is_digit ds \<and> 0 < digits_value ds \<and> digits_value ds * unat m = unat n)"
  by (rule parse_size_iff)

section \<open>What a parsed command guarantees\<close>

lemma parse_size_pos: "parse_size token = Some n \<Longrightarrow> n \<noteq> 0"
  unfolding parse_size_iff
  by (metis mult_is_0 not_gr_zero suffix_multipliers unat_eq_0 unsigned_0)

lemma parse_timeout_range: "parse_timeout token = Some t \<Longrightarrow> 0 \<le> t \<and> t \<le> ms_max"
  by (auto simp: parse_timeout_def split: option.splits if_splits)

lemma parse_priority_range: "parse_priority token = Some p \<Longrightarrow> - (2 ^ 31) \<le> p \<and> p < 2 ^ 31"
  by (auto simp: parse_priority_def Let_def int_max_def simp del: of_nat_unat
      split: option.splits if_splits)

lemma validators_agree:
  "pr_valid_name k = rm_valid_name k" "mr_valid_id k = rm_valid_name k" "mk_valid_id k = rm_valid_name k"
  by (simp_all add: pr_valid_name_def mr_valid_id_def mk_valid_id_def rm_valid_name_def)

lemma node_validator_agrees: "nr_valid_id k = rm_valid_name k"
proof -
  have "is_alnum c \<or> c = CHR ''_'' \<or> c = CHR ''-'' \<or> c = CHR ''.'' \<longleftrightarrow>
      (let letter = (CHR ''a'' \<le> c \<and> c \<le> CHR ''z'') \<or> (CHR ''A'' \<le> c \<and> c \<le> CHR ''Z'');
           digit = (CHR ''0'' \<le> c \<and> c \<le> CHR ''9'')
       in letter \<or> digit \<or> c = CHR ''_'' \<or> c = CHR ''-'' \<or> c = CHR ''.'')" for c
    by (auto simp: is_alnum_def)
  then show ?thesis by (simp add: nr_valid_id_def rm_valid_name_def)
qed

lemma metadata_validators_agree: "pr_valid_metadata md = mr_valid_metadata md"
proof -
  have "(let v = (of_char c :: nat) in v \<ge> 32 \<and> v < 127 \<and> c \<noteq> CHR '' '' \<and> c \<noteq> CHR 0x09) \<longleftrightarrow>
      (let v = (of_char c :: nat)
       in v < 128 \<and> v \<ge> 32 \<and> v \<noteq> 127 \<and> c \<noteq> CHR '' '' \<and> c \<noteq> CHR 0x09 \<and> c \<noteq> CHR 0x0A \<and>
          c \<noteq> CHR 0x0D \<and> c \<noteq> CHR 0x0C \<and> c \<noteq> CHR 0x0B)" for c
    by (auto simp: Let_def)
  then show ?thesis by (simp add: pr_valid_metadata_def mr_valid_metadata_def)
qed

text \<open>What the branches establish about the command they return.\<close>

definition well_formed_command :: "command \<Rightarrow> bool" where
  "well_formed_command c \<longleftrightarrow>
     (cm_type c \<notin> {command_type.Status, command_type.Models, command_type.Residency,
        command_type.Metrics, command_type.Nodes} \<longrightarrow> rm_valid_name (cm_name c)) \<and>
     (cm_type c \<in> {command_type.Acquire, command_type.RegisterModel, command_type.RegisterNode}
        \<longrightarrow> cm_bytes c \<noteq> 0) \<and>
     (cm_type c \<in> {command_type.RegisterModel, command_type.RegisterFile}
        \<longrightarrow> mr_valid_metadata (cm_metadata c)) \<and>
     (cm_type c = command_type.RegisterFile \<longrightarrow> cm_path c \<noteq> [] \<and> length (cm_path c) \<le> 4096) \<and>
     (cm_type c = command_type.RegisterNode \<longrightarrow> cm_path c \<noteq> [] \<and> length (cm_path c) \<le> 256) \<and>
     (- (2 ^ 31) \<le> ao_priority (cm_options c) \<and> ao_priority (cm_options c) < 2 ^ 31) \<and>
     (0 \<le> ao_timeout (cm_options c) \<and> ao_timeout (cm_options c) \<le> ms_max) \<and>
     (0 \<le> ao_cost (cm_options c) \<and> ao_cost (cm_options c) \<le> ms_max)"

lemmas parse_branch_defs = parse_plain_def parse_named_def parse_node_register_def
  parse_register_def parse_register_file_def parse_try_acquire_def parse_acquire_def

lemma branch_well_formed:
  "pa_ok (parse_plain ty args) \<Longrightarrow> ty \<in> {command_type.Status, command_type.Models, command_type.Residency,
     command_type.Metrics, command_type.Nodes} \<Longrightarrow> well_formed_command (pa_command (parse_plain ty args))"
  "pa_ok (parse_named ty e args) \<Longrightarrow> ty \<notin> {command_type.Acquire, command_type.RegisterModel,
     command_type.RegisterNode, command_type.RegisterFile} \<Longrightarrow> e \<noteq> parse_error.NoError \<Longrightarrow>
     well_formed_command (pa_command (parse_named ty e args))"
  "pa_ok (parse_node_register args) \<Longrightarrow> well_formed_command (pa_command (parse_node_register args))"
  "pa_ok (parse_register args) \<Longrightarrow> well_formed_command (pa_command (parse_register args))"
  "pa_ok (parse_register_file args) \<Longrightarrow> well_formed_command (pa_command (parse_register_file args))"
  "pa_ok (parse_try_acquire args) \<Longrightarrow> well_formed_command (pa_command (parse_try_acquire args))"
  by (auto simp: parse_branch_defs pa_ok_def parse_fail_def well_formed_command_def empty_command_def
      default_options_def ms_max_def validators_agree metadata_validators_agree not_less
      dest: parse_size_pos split: if_splits option.splits)

lemma acquire_options_range:
  "parse_acquire_options args = Some opts \<Longrightarrow>
   - (2 ^ 31) \<le> ao_priority opts \<and> ao_priority opts < 2 ^ 31 \<and>
   0 \<le> ao_timeout opts \<and> ao_timeout opts \<le> ms_max \<and> 0 \<le> ao_cost opts \<and> ao_cost opts \<le> ms_max"
  by (auto simp: parse_acquire_options_def Let_def ms_max_def
      dest!: parse_priority_range parse_timeout_range [unfolded ms_max_def]
      split: option.splits if_splits)

lemma acquire_well_formed:
  "pa_ok (parse_acquire args) \<Longrightarrow> well_formed_command (pa_command (parse_acquire args))"
  by (auto simp: parse_acquire_def pa_ok_def parse_fail_def well_formed_command_def empty_command_def
      validators_agree dest: parse_size_pos acquire_options_range split: if_splits option.splits)

definition ok_well_formed :: "parse_result \<Rightarrow> bool" where
  "ok_well_formed r \<longleftrightarrow> (pa_ok r \<longrightarrow> well_formed_command (pa_command r))"

lemma ok_well_formed_if: "ok_well_formed r \<Longrightarrow> ok_well_formed r' \<Longrightarrow> ok_well_formed (if b then r else r')"
  by simp

lemma ok_well_formed_branches:
  "ty \<in> {command_type.Status, command_type.Models, command_type.Residency,
     command_type.Metrics, command_type.Nodes} \<Longrightarrow> ok_well_formed (parse_plain ty args)"
  "ty \<notin> {command_type.Acquire, command_type.RegisterModel, command_type.RegisterNode,
     command_type.RegisterFile} \<Longrightarrow> e \<noteq> parse_error.NoError \<Longrightarrow> ok_well_formed (parse_named ty e args)"
  "ok_well_formed (parse_node_register args)" "ok_well_formed (parse_register args)"
  "ok_well_formed (parse_register_file args)" "ok_well_formed (parse_try_acquire args)"
  "ok_well_formed (parse_acquire args)" "ok_well_formed (parse_fail parse_error.InvalidRequest)"
  unfolding ok_well_formed_def
  by (blast intro: branch_well_formed acquire_well_formed)+
    (simp add: pa_ok_def parse_fail_def)

lemma parse_well_formed: "pa_ok (parse_tokens ts) \<Longrightarrow> well_formed_command (pa_command (parse_tokens ts))"
proof -
  have "ok_well_formed (parse_tokens ts)"
  proof (cases ts)
    case (Cons verb args)
    show ?thesis
      unfolding Cons parse_tokens_def list.case
      by (intro ok_well_formed_if ok_well_formed_branches) simp_all
  qed (simp add: parse_tokens_def ok_well_formed_branches)
  then show "pa_ok (parse_tokens ts) \<Longrightarrow> well_formed_command (pa_command (parse_tokens ts))"
    by (simp add: ok_well_formed_def)
qed

text \<open>The checks of the layer below that a well-formed command passes.\<close>

lemma path_char:
  "(let v = (of_char c :: nat)
    in v \<ge> 32 \<and> v \<noteq> 127 \<and> c \<noteq> CHR 0x0A \<and> c \<noteq> CHR 0x0D \<and> c \<noteq> CHR 0x09) \<longleftrightarrow>
   \<not> (of_char c < (32 :: nat) \<or> of_char c = (127 :: nat))"
  by (auto simp: Let_def)

lemma endpoint_char: "of_char c > (32 :: nat) \<and> c \<noteq> CHR 0x0A \<longleftrightarrow> \<not> of_char c \<le> (32 :: nat)"
  by auto

lemma valid_path_iff:
  assumes "path \<noteq> []" and "length path \<le> 4096"
  shows "\<not> mr_valid_path path \<longleftrightarrow> (\<exists>ch \<in> set path. of_char ch < (32 :: nat) \<or> of_char ch = (127 :: nat))"
  using assms by (simp add: mr_valid_path_def path_char list_all_iff del: de_Morgan_disj)

lemma valid_endpoint_iff:
  assumes "endpoint \<noteq> []" and "length endpoint \<le> 256"
  shows "\<not> nr_valid_endpoint endpoint \<longleftrightarrow> (\<exists>ch \<in> set endpoint. of_char ch \<le> (32 :: nat))"
  using assms by (simp add: nr_valid_endpoint_def endpoint_char list_all_iff del: not_le)

lemma well_formed_name:
  "well_formed_command c \<Longrightarrow> cm_type c \<notin> {command_type.Status, command_type.Models,
     command_type.Residency, command_type.Metrics, command_type.Nodes} \<Longrightarrow>
   rm_valid_name (cm_name c) \<and> mr_valid_id (cm_name c) \<and> mk_valid_id (cm_name c) \<and> nr_valid_id (cm_name c)"
  by (simp add: well_formed_command_def validators_agree node_validator_agrees)

lemma register_file_path_error:
  assumes "mr_valid_id ident" and "mr_valid_metadata md"
  shows "mo_error (fst (mr_register_file fs ident path md reg)) \<notin> {model_error.InvalidId, model_error.InvalidMetadata}"
    and "mo_error (fst (mr_register_file fs ident path md reg)) = model_error.InvalidPath \<longleftrightarrow> \<not> mr_valid_path path"
  using assms by (auto simp: mr_register_file_def Let_def split: prod.splits)

lemma register_node_error:
  assumes "nr_valid_id ident" and "n \<noteq> 0"
  shows "nop_error (fst (nr_register_node ident endpoint n nodes)) \<notin> {node_error.InvalidId, node_error.InvalidCapacity}"
    and "nop_error (fst (nr_register_node ident endpoint n nodes)) = node_error.InvalidEndpoint \<longleftrightarrow>
      \<not> nr_valid_endpoint endpoint"
  using assms by (auto simp: nr_register_node_def)


section \<open>Parsing what was printed\<close>

lemma name_token: "rm_valid_name k \<Longrightarrow> is_token is_space k"
proof -
  assume "rm_valid_name k"
  then have k: "k \<noteq> []" "\<forall>c \<in> set k. (CHR ''a'' \<le> c \<and> c \<le> CHR ''z'') \<or>
      (CHR ''A'' \<le> c \<and> c \<le> CHR ''Z'') \<or> (CHR ''0'' \<le> c \<and> c \<le> CHR ''9'') \<or>
      c = CHR ''_'' \<or> c = CHR ''-'' \<or> c = CHR ''.''"
    by (auto simp: rm_valid_name_def list_all_iff Let_def split: if_splits)
  have "\<not> is_space c" if "c \<in> set k" for c
    using k(2) that by (auto simp: is_space_def less_eq_char_def)
  with k(1) show ?thesis by (simp add: is_token_def list_all_iff)
qed

lemma name_blank_token: "rm_valid_name k \<Longrightarrow> is_token is_blank k"
  by (rule space_token_blank [OF name_token])

lemma parse_size_show: "n \<noteq> 0 \<Longrightarrow> parse_size (show_u64 n) = Some n"
  unfolding parse_size_iff
  by (rule exI [of _ "show_u64 n"], rule exI [of _ "[]"], rule exI [of _ 1])
    (simp add: show_u64_def show_nat_digits show_nat_value unat_pos_iff)

lemma parse_unsigned_show: "parse_unsigned (show_u64 w) = Some w"
  using show_token(2) [of w] by (simp add: parse_unsigned_def from_chars_show is_token_def)

lemma show_int_pos: "0 \<le> i \<Longrightarrow> i \<le> int u64_max \<Longrightarrow> show_int i = show_u64 (of_int i)"
proof -
  assume i: "0 \<le> i" "i \<le> int u64_max"
  then have "unat (of_int i :: 64 word) = nat i"
    by (simp add: unat_eq_nat_uint uint_word_of_int u64_max_def)
  with i show ?thesis by (simp add: show_int_def show_u64_def)
qed

lemma uint_of_small: "0 \<le> i \<Longrightarrow> i \<le> int u64_max \<Longrightarrow> int (unat (of_int i :: 64 word)) = i"
  by (simp add: uint_word_of_int u64_max_def)

lemma parse_timeout_show:
  assumes "0 \<le> t" and "t \<le> ms_max"
  shows "parse_timeout (show_int t) = Some t"
proof -
  have t: "t \<le> int u64_max" using assms(2) by (simp add: ms_max_def u64_max_def)
  have "parse_unsigned (show_int t) = Some (of_int t)"
    unfolding show_int_pos [OF assms(1) t] by (rule parse_unsigned_show)
  with uint_of_small [OF assms(1) t] assms(2) show ?thesis
    by (simp add: parse_timeout_def del: of_nat_unat)
qed

lemma show_nat_hd: "hd (show_nat n) \<noteq> CHR ''-'' \<and> hd (show_nat n) \<noteq> CHR ''+''"
  using show_nat_digits [of n] show_nat_not_Nil [of n]
  by (cases "show_nat n") (auto dest: digit_not_special)

lemma parse_priority_show:
  assumes "- (2 ^ 31) \<le> p" and "p < 2 ^ 31"
  shows "parse_priority (show_int p) = Some p"
proof -
  have "\<bar>p\<bar> \<le> int u64_max" using assms by (simp add: u64_max_def)
  then have "int (unat (of_int \<bar>p\<bar> :: 64 word)) = \<bar>p\<bar>" by (intro uint_of_small) simp_all
  then obtain w :: "64 word" where w: "int (unat w) = \<bar>p\<bar>" by blast
  then have u: "unat w = nat \<bar>p\<bar>" by linarith
  then have sh: "show_nat (nat \<bar>p\<bar>) = show_u64 w" by (simp add: show_u64_def)
  show ?thesis
  proof (cases "p < 0")
    case True
    then have s: "show_int p = CHR ''-'' # show_u64 w" using sh by (simp add: show_int_def)
    have le: "unat w \<le> int_max + 1" using True assms(1) u by (simp add: int_max_def)
    have "int (unat w) = - p" using True w by (simp del: of_nat_unat)
    with le show ?thesis by (simp add: s parse_priority_def parse_unsigned_show del: of_nat_unat)
  next
    case False
    then have s: "show_int p = show_u64 w" using sh by (simp add: show_int_def)
    have h: "hd (show_u64 w) \<noteq> CHR ''-''" "hd (show_u64 w) \<noteq> CHR ''+''" "show_u64 w \<noteq> []"
      using show_nat_hd [of "unat w"] by (simp_all add: show_u64_def)
    have le: "unat w \<le> int_max" using False assms(2) u by (simp add: int_max_def)
    have "int (unat w) = p" using False w by (simp del: of_nat_unat)
    with h le show ?thesis by (simp add: s parse_priority_def parse_unsigned_show del: of_nat_unat)
  qed
qed


end
