(* ===== verification/SocketIO.thy ===== *)
theory SocketIO
  imports TextFormat
begin

text \<open>
  The byte streams of the sockets. The kernel's answers to \<open>read\<close> and \<open>write\<close> are lists of
  results, one for each call; a list that ends before the code stops calling means the
  last call has not returned. \<open>write_all\<close> is the loop of client.cpp; unix_socket_server.cpp and the
  command line client repeat it word for word.
\<close>

section \<open>Writing\<close>

text \<open>A call to \<open>write\<close>: a count of bytes taken, \<open>EINTR\<close>, or another error.\<close>

datatype write_result = Wrote nat | WriteInterrupted | WriteError

text \<open>The bytes the kernel took, and what the loop returned.\<close>

fun write_all :: "write_result list \<Rightarrow> string \<Rightarrow> string \<times> bool option" where
  "write_all results [] = ([], Some True)"
| "write_all [] (c # cs) = ([], None)"
| "write_all (Wrote n # results) (c # cs) =
     (if n > 0 then
        (let (sent, outcome) = write_all results (drop n (c # cs))
         in (take n (c # cs) @ sent, outcome))
      else ([], Some False))"
| "write_all (WriteInterrupted # results) (c # cs) = write_all results (c # cs)"
| "write_all (WriteError # results) (c # cs) = ([], Some False)"

definition send_all :: "write_result list \<Rightarrow> string \<Rightarrow> string \<times> bool option" where
  "send_all results response = write_all results response"

lemma write_all_prefix:
  "(\<exists>rest. data = fst (write_all results data) @ rest) \<and>
   (snd (write_all results data) = Some True \<longleftrightarrow> fst (write_all results data) = data)"
proof (induction results data rule: write_all.induct)
  case (3 n results c cs)
  let ?data = "c # cs"
  show ?case
  proof (cases "n > 0")
    case True
    let ?w = "write_all results (drop n ?data)"
    have w: "write_all (Wrote n # results) ?data = (take n ?data @ fst ?w, snd ?w)"
      using True by (simp add: case_prod_beta Let_def)
    from 3 [OF True] obtain rest where "drop n ?data = fst ?w @ rest" by blast
    then have "?data = (take n ?data @ fst ?w) @ rest" by (metis append.assoc append_take_drop_id)
    moreover have "take n ?data @ fst ?w = ?data \<longleftrightarrow> fst ?w = drop n ?data"
      by (metis append_take_drop_id same_append_eq)
    ultimately show ?thesis using 3 [OF True] unfolding w fst_conv snd_conv by metis
  qed simp
qed simp_all

text \<open>
  What is written is what was meant. However the kernel splits, interrupts or refuses
  the writes, the bytes it took are a prefix of the data, and they are all of the data
  exactly when the loop returns true.
\<close>

theorem write_all_exact:
  "(\<exists>rest. data = fst (write_all results data) @ rest) \<and>
   (snd (write_all results data) = Some True \<longleftrightarrow> fst (write_all results data) = data)"
  by (rule write_all_prefix)

section \<open>Reading\<close>

text \<open>A call to \<open>read\<close>: bytes, \<open>EINTR\<close>, or the end of the stream or another error.\<close>

datatype read_result = Chunk string | Interrupted | Stopped

text \<open>The reads of a stream that has not ended: the bytes in order, in chunks of any size.\<close>

fun stream_of :: "read_result list \<Rightarrow> string option" where
  "stream_of [] = Some []"
| "stream_of (Chunk d # rs) = (if d = [] then None else map_option ((@) d) (stream_of rs))"
| "stream_of (Interrupted # rs) = stream_of rs"
| "stream_of (Stopped # rs) = None"

section \<open>Lines\<close>

definition unlines :: "string list \<Rightarrow> string" where
  "unlines ls = concat (map (\<lambda>l. l @ newline) ls)"

lemma unlines_simps [simp]:
  "unlines [] = []"
  "unlines (l # ls) = l @ newline @ unlines ls"
  "unlines (ls @ ks) = unlines ls @ unlines ks"
  by (simp_all add: unlines_def)

text \<open>A prefix of lines that ends in a newline is a number of whole lines.\<close>

lemma line_prefix:
  assumes "no_newline l" and "p @ newline @ q = l @ newline @ r"
  obtains "p = l" "q = r" | p' where "p = l @ newline @ p'" "p' @ newline @ q = r"
proof -
  from assms(2) consider us where "p = l @ us" "us @ newline @ q = newline @ r"
    | us where "l = p @ us" "newline @ q = us @ newline @ r"
    by (auto simp: append_eq_append_conv2)
  then show thesis
  proof cases
    case (1 us)
    then show thesis by (cases us) (auto intro: that)
  next
    case (2 us)
    with assms(1) have "us = []" by (cases us) auto
    with 2 show thesis by (auto intro: that)
  qed
qed

lemma unlines_prefix:
  assumes "list_all no_newline ls" and "p @ newline @ q = unlines ls"
  shows "\<exists>i < length ls. p = unlines (take i ls) @ ls ! i \<and> q = unlines (drop (Suc i) ls)"
  using assms
proof (induction ls arbitrary: p)
  case (Cons l ls)
  then have "no_newline l" "p @ newline @ q = l @ newline @ unlines ls" by simp_all
  then show ?case
  proof (cases rule: line_prefix)
    case 1
    then show ?thesis by (intro exI [of _ 0]) simp
  next
    case (2 p')
    with Cons obtain i where "i < length ls" "p' = unlines (take i ls) @ ls ! i"
      "q = unlines (drop (Suc i) ls)" by auto
    with 2 show ?thesis by (intro exI [of _ "Suc i"]) simp
  qed
qed simp

lemma ends_with_line:
  assumes "no_newline x" and "no_newline l"
  shows "ends_with x (unlines ls @ l) \<longleftrightarrow> ends_with x l"
proof
  assume "ends_with x (unlines ls @ l)"
  then obtain r where r: "r @ x = unlines ls @ l" by (auto simp: ends_with_iff)
  show "ends_with x l"
  proof (cases ls rule: rev_cases)
    case Nil
    with r show ?thesis by (auto simp: ends_with_iff intro: sym)
  next
    case (snoc ks k)
    with r have "r @ x = (unlines ks @ k @ newline) @ l" by simp
    then consider us where "l = us @ x" | us where "x = us @ l" "r @ us = unlines ks @ k @ newline"
      unfolding append_eq_append_conv2 [of r x] by metis
    then show ?thesis
    proof cases
      case (2 us)
      with assms(1) have "us = []" by (cases us rule: rev_cases) auto
      with 2 show ?thesis by (simp add: ends_with_iff)
    qed (auto simp: ends_with_iff)
  qed
qed (auto simp: ends_with_iff)

end
