(* ===== verification/Client.thy ===== *)
theory Client
  imports Protocol SocketIO
begin

text \<open>
  The client library (client.hpp, client.cpp) and the command line client gpumemctl
  (client/main.cpp). A connection is what the kernel answers to \<open>connect\<close>, \<open>write\<close> and
  \<open>read\<close>; a call that has not returned when those answers run out is \<open>None\<close>.
\<close>

section \<open>Data\<close>

datatype client_error =
    NoError
  | InvalidRequest
  | ConnectionFailed
  | WriteFailed
  | ReadFailed
  | BrokerRejected

record client_response =
  cr_error :: client_error
  cr_payload :: string

definition cr_ok :: "client_response \<Rightarrow> bool" where
  "cr_ok r \<longleftrightarrow> cr_error r = client_error.NoError"

record share_descriptor =
  sd_bytes :: bytes
  sd_token :: string

record connection =
  cn_accepted :: bool
  cn_writes :: "write_result list"
  cn_reads :: "read_result list"

section \<open>The request loop\<close>

text \<open>\<open>sizeof(sockaddr_un::sun_path)\<close> on Linux.\<close>

definition sun_path_size :: nat where "sun_path_size = 108"

definition connect_socket :: "string \<Rightarrow> connection \<Rightarrow> bool" where
  "connect_socket path conn \<longleftrightarrow>
     (if path = [] \<or> length path \<ge> sun_path_size then False else cn_accepted conn)"

definition is_multiline :: "string \<Rightarrow> bool" where
  "is_multiline command \<longleftrightarrow>
     (let verb = takeWhile (\<lambda>c. \<not> is_blank c) command
      in verb = ''status'' \<or> verb = ''models'' \<or> verb = ''residency'' \<or> verb = ''metrics'' \<or>
         verb = ''nodes'')"

text \<open>The condition that ends the read loop, tested after every read.\<close>

definition response_complete :: "bool \<Rightarrow> string \<Rightarrow> bool" where
  "response_complete multiline response \<longleftrightarrow>
     (starts_with ''ERR '' response \<and> CHR 0x0A \<in> set response) \<or>
     (multiline \<and> ends_with (''END'' @ newline) response) \<or>
     (\<not> multiline \<and> CHR 0x0A \<in> set response)"

text \<open>The loop: whether it ended with a complete response, and what was read.\<close>

fun read_response :: "bool \<Rightarrow> read_result list \<Rightarrow> string \<Rightarrow> (bool \<times> string) option" where
  "read_response multiline [] response = None"
| "read_response multiline (Chunk d # rs) response =
     (if response_complete multiline (response @ d) then Some (True, response @ d)
      else read_response multiline rs (response @ d))"
| "read_response multiline (Interrupted # rs) response = read_response multiline rs response"
| "read_response multiline (Stopped # rs) response = Some (False, response)"

definition client_request :: "string \<Rightarrow> connection \<Rightarrow> string \<Rightarrow> string \<times> client_response option" where
  "client_request path conn command =
     (if command = [] \<or> CHR 0x0A \<in> set command then
        ([], Some \<lparr>cr_error = client_error.InvalidRequest, cr_payload = []\<rparr>)
      else if \<not> connect_socket path conn then
        ([], Some \<lparr>cr_error = client_error.ConnectionFailed, cr_payload = []\<rparr>)
      else
        (let (sent, written) = write_all (cn_writes conn) (command @ newline)
         in (sent,
             case written of
               None \<Rightarrow> None
             | Some False \<Rightarrow> Some \<lparr>cr_error = client_error.WriteFailed, cr_payload = []\<rparr>
             | Some True \<Rightarrow>
                 (case read_response (is_multiline command) (cn_reads conn) [] of
                    None \<Rightarrow> None
                  | Some (finished, response) \<Rightarrow>
                      if \<not> finished then
                        Some \<lparr>cr_error = client_error.ReadFailed, cr_payload = response\<rparr>
                      else if starts_with ''ERR '' response then
                        Some \<lparr>cr_error = client_error.BrokerRejected, cr_payload = response\<rparr>
                      else if \<not> starts_with ''OK '' response then
                        Some \<lparr>cr_error = client_error.ReadFailed, cr_payload = response\<rparr>
                      else Some \<lparr>cr_error = client_error.NoError, cr_payload = response\<rparr>))))"

section \<open>The commands of the library\<close>

definition acquire_command :: "string \<Rightarrow> bytes \<Rightarrow> acquire_options \<Rightarrow> string" where
  "acquire_command name n options =
     ''acquire '' @ name @ '' '' @ show_u64 n @ '' '' @ show_int (ao_priority options) @
     (if ao_timeout options \<noteq> ms_max then
        '' '' @ show_int (ao_timeout options) @
        (if ao_cost options \<noteq> 0 then '' '' @ show_int (ao_cost options) else [])
      else [])"

definition try_acquire_command :: "string \<Rightarrow> bytes \<Rightarrow> string" where
  "try_acquire_command name n = ''try_acquire '' @ name @ '' '' @ show_u64 n"

definition release_command :: "string \<Rightarrow> string" where
  "release_command name = ''release '' @ name"

definition load_command :: "string \<Rightarrow> string" where
  "load_command name = ''load '' @ name"

definition unload_command :: "string \<Rightarrow> string" where
  "unload_command name = ''unload '' @ name"

definition share_command :: "string \<Rightarrow> string" where
  "share_command name = ''share '' @ name"

definition is_xdigit :: "char \<Rightarrow> bool" where
  "is_xdigit c \<longleftrightarrow> (CHR ''0'' \<le> c \<and> c \<le> CHR ''9'') \<or> (CHR ''a'' \<le> c \<and> c \<le> CHR ''f'') \<or>
     (CHR ''A'' \<le> c \<and> c \<le> CHR ''F'')"

definition parse_share_response :: "string \<Rightarrow> share_descriptor option" where
  "parse_share_response response =
     (case stream_words response of
        ok # action # name # bytes_token # token # _ \<Rightarrow>
          if ok \<noteq> ''OK'' \<or> action \<noteq> ''shared'' \<or> token = [] then None
          else (case from_chars_u64 bytes_token of
                  None \<Rightarrow> None
                | Some (n, rest) \<Rightarrow>
                    if rest \<noteq> [] then None
                    else if \<not> list_all is_xdigit token then None
                    else Some \<lparr>sd_bytes = n, sd_token = token\<rparr>)
      | _ \<Rightarrow> None)"

section \<open>gpumemctl\<close>

record ctl_output =
  co_status :: int
  co_stdout :: string
  co_stderr :: string

definition ctl_usage :: string where
  "ctl_usage =
     ''Usage: gpumemctl --socket PATH COMMAND [ARGUMENTS...]'' @ newline @ newline @
     ''Commands: acquire NAME SIZE [PRIORITY] [TIMEOUT_MS],'' @ newline @
     ''          try_acquire NAME SIZE, release NAME, status,'' @ newline @
     ''          register NAME SIZE METADATA, register_file NAME PATH METADATA,'' @ newline @
     ''          unregister NAME, retain NAME, release_model NAME, models'' @ newline @ newline @
     ''Residency commands:'' @ newline @
     ''  load NAME'' @ newline @
     ''  unload NAME'' @ newline @
     ''  residency'' @ newline @
     ''  share NAME'' @ newline @
     ''  metrics'' @ newline @
     ''  node_register ID ENDPOINT CAPACITY'' @ newline @
     ''  node_remove ID'' @ newline @
     ''  nodes'' @ newline"

definition ctl_connect_socket :: "string \<Rightarrow> connection \<Rightarrow> bool" where
  "ctl_connect_socket path conn \<longleftrightarrow>
     (if path = [] \<or> length path \<ge> sun_path_size then False else cn_accepted conn)"

definition ctl_join :: "string list \<Rightarrow> string" where
  "ctl_join args =
     foldl (\<lambda>command arg. (if command \<noteq> [] then command @ '' '' else command) @ arg) [] args"

definition ctl_multiline :: "command_type \<Rightarrow> bool" where
  "ctl_multiline ty \<longleftrightarrow> ty = command_type.Status \<or> ty = command_type.Models \<or>
     ty = command_type.Residency \<or> ty = command_type.Metrics"

text \<open>\<open>main\<close> on the arguments after the program name.\<close>

definition ctl_main :: "connection \<Rightarrow> string list \<Rightarrow> string \<times> ctl_output option" where
  "ctl_main conn args =
     (if args = [''--help''] then
        ([], Some \<lparr>co_status = 0, co_stdout = ctl_usage, co_stderr = []\<rparr>)
      else if length args < 3 \<or> args ! 0 \<noteq> ''--socket'' then
        ([], Some \<lparr>co_status = 2, co_stdout = [], co_stderr = ctl_usage\<rparr>)
      else
        (let command = ctl_join (drop 2 args); parsed = parse_command command
         in if \<not> pa_ok parsed then
              ([], Some \<lparr>co_status = 2, co_stdout = [],
                     co_stderr = format_parse_error (pa_error parsed)\<rparr>)
            else if \<not> ctl_connect_socket (args ! 1) conn then
              ([], Some \<lparr>co_status = 1, co_stdout = [],
                     co_stderr = ''gpumemctl: could not connect to socket '' @ [CHR 0x27] @
                       args ! 1 @ [CHR 0x27] @ newline\<rparr>)
            else
              (let (sent, written) = write_all (cn_writes conn) (command @ newline)
               in (sent,
                   case written of
                     None \<Rightarrow> None
                   | Some False \<Rightarrow> Some \<lparr>co_status = 1, co_stdout = [],
                       co_stderr = ''gpumemctl: could not send command'' @ newline\<rparr>
                   | Some True \<Rightarrow>
                       (case read_response (ctl_multiline (cm_type (pa_command parsed)))
                               (cn_reads conn) [] of
                          None \<Rightarrow> None
                        | Some (finished, response) \<Rightarrow>
                            if \<not> finished then
                              Some \<lparr>co_status = 1, co_stdout = response, co_stderr =
                                ''gpumemctl: connection closed before response completed'' @ newline\<rparr>
                            else Some \<lparr>co_status = (if starts_with ''OK '' response then 0 else 1),
                              co_stdout = response, co_stderr = []\<rparr>)))))"

end
