(* ===== verification/ServerListen.thy ===== *)
theory ServerListen
  imports Client
begin

text \<open>
  The start of \<open>UnixSocketServer::run\<close> (unix_socket_server.cpp): the listening socket, with the
  answers of the system calls as arguments and the calls that leave something behind as a
  trace.
\<close>

section \<open>The sequence of system calls\<close>

record listen_env =
  le_path_free :: bool
  le_socket :: int
  le_bind :: bool
  le_chmod :: bool
  le_listen :: bool
  le_get_flags :: int
  le_set_flags :: bool

text \<open>
  \<open>le_path_free\<close> is that \<open>lstat\<close> failed with \<open>ENOENT\<close>; the booleans say that a call did not
  return a negative number.
\<close>

datatype sock_call =
    OpenedSocket int
  | BoundPath
  | ChangedMode
  | StartedListening
  | ClosedSocket int
  | UnlinkedPath

text \<open>The trace, and the descriptor listened on; \<open>None\<close> is the return of -1.\<close>

definition server_listen :: "string \<Rightarrow> listen_env \<Rightarrow> sock_call list \<times> int option" where
  "server_listen path env =
     (let fd = le_socket env
      in if path = [] \<or> length path \<ge> sun_path_size then ([], None)
         else if \<not> le_path_free env then ([], None)
         else if fd < 0 then ([], None)
         else if \<not> le_bind env then ([OpenedSocket fd, ClosedSocket fd], None)
         else if \<not> le_chmod env then
           ([OpenedSocket fd, BoundPath, ClosedSocket fd, UnlinkedPath], None)
         else if \<not> le_listen env then
           ([OpenedSocket fd, BoundPath, ChangedMode, ClosedSocket fd, UnlinkedPath], None)
         else if le_get_flags env < 0 \<or> \<not> le_set_flags env then
           ([OpenedSocket fd, BoundPath, ChangedMode, StartedListening, ClosedSocket fd,
             UnlinkedPath], None)
         else ([OpenedSocket fd, BoundPath, ChangedMode, StartedListening], Some fd))"

text \<open>What \<open>run\<close> returns, when it returns.\<close>

definition run_result :: "string \<Rightarrow> listen_env \<Rightarrow> int" where
  "run_result path env = (case snd (server_listen path env) of None \<Rightarrow> - 1 | Some fd \<Rightarrow> 0)"

text \<open>
  The end of \<open>run\<close> and the destructor, each with the value of \<open>listen_fd_\<close> afterwards, \<open>None\<close> for
  -1. (The destructor also sets the stop flag, which no thread reads any more.)
\<close>

definition server_close :: "int \<Rightarrow> sock_call list \<times> int option" where
  "server_close fd = ([ClosedSocket fd, UnlinkedPath], None)"

definition server_destroy :: "int option \<Rightarrow> sock_call list \<times> int option" where
  "server_destroy listen_fd =
     (case listen_fd of None \<Rightarrow> ([], None) | Some fd \<Rightarrow> ([ClosedSocket fd], None))"

section \<open>What it leaves behind\<close>

fun leftovers :: "sock_call list \<Rightarrow> int set \<times> bool \<Rightarrow> int set \<times> bool" where
  "leftovers [] s = s"
| "leftovers (OpenedSocket fd # cs) (fds, bound) = leftovers cs (insert fd fds, bound)"
| "leftovers (ClosedSocket fd # cs) (fds, bound) = leftovers cs (fds - {fd}, bound)"
| "leftovers (BoundPath # cs) (fds, bound) = leftovers cs (fds, True)"
| "leftovers (UnlinkedPath # cs) (fds, bound) = leftovers cs (fds, False)"
| "leftovers (_ # cs) s = leftovers cs s"

text \<open>
  A server that does not start leaves neither a descriptor nor a socket file, and it never
  removes a file it did not make: \<open>unlink\<close> comes only after its own \<open>bind\<close>, and with a file
  in the way no call is made. A server that starts has restricted the file's mode before
  it listens.
\<close>

theorem failed_start_leaves_nothing:
  "case server_listen path env of
     (calls, None) \<Rightarrow> leftovers calls ({}, False) = ({}, False) \<and>
       (UnlinkedPath \<in> set calls \<longleftrightarrow> BoundPath \<in> set calls) \<and> (\<not> le_path_free env \<longrightarrow> calls = [])
   | (calls, Some fd) \<Rightarrow> leftovers calls ({}, False) = ({fd}, True) \<and> le_path_free env \<and>
       (\<exists>before. calls = before @ [StartedListening] \<and> ChangedMode \<in> set before)"
  by (simp add: server_listen_def Let_def)

text \<open>
  A server that ran to its end and is destroyed has closed its descriptor once and removed its
  file. One that is destroyed before \<open>run\<close> came to its end closes the descriptor, but the file
  stays, and it keeps the next server on the same path from starting.
\<close>

theorem stopped_server_leaves_nothing:
  assumes "server_listen path env = (calls, Some fd)"
  shows "leftovers (calls @ fst (server_close fd) @ fst (server_destroy (snd (server_close fd)))) ({}, False) =
      ({}, False)"
    and "count_list (calls @ fst (server_close fd) @ fst (server_destroy (snd (server_close fd)))) (ClosedSocket fd) = 1"
    and "leftovers (calls @ fst (server_destroy (Some fd))) ({}, False) = ({}, True)"
    and "le_path_free env' = False \<Longrightarrow> server_listen path env' = ([], None)"
  using assms
  by (auto simp: server_listen_def server_close_def server_destroy_def Let_def split: if_splits)

end
