(* ===== verification/ResponseFraming.thy ===== *)
theory ResponseFraming
  imports Client
begin

text \<open>
  Where a response ends. A response is one line, or a listing: a header, a line for each
  entry and a line \<open>END\<close>. A client's read loop stops at the right place when no proper
  prefix of the response passes its test.
\<close>

section \<open>Shapes\<close>

definition single_line :: "string \<Rightarrow> bool" where
  "single_line r \<longleftrightarrow> (\<exists>l. r = l @ newline \<and> no_newline l)"

definition listing :: "string \<Rightarrow> bool" where
  "listing r \<longleftrightarrow> (\<exists>h ls. r = unlines (h # ls @ [''END'']) \<and> starts_with ''OK '' h \<and>
     list_all (\<lambda>l. no_newline l \<and> \<not> ends_with ''END'' l) (h # ls))"

text \<open>The response a client that expects one line, or a listing, can be given.\<close>

definition framed :: "bool \<Rightarrow> string \<Rightarrow> bool" where
  "framed multiline r \<longleftrightarrow> (starts_with ''OK '' r \<or> starts_with ''ERR '' r) \<and>
     (if multiline \<and> \<not> starts_with ''ERR '' r then listing r else single_line r)"

lemma starts_with_take: "starts_with p s \<Longrightarrow> length p \<le> n \<Longrightarrow> starts_with p (take n s)"
  by (simp add: starts_with_def min_def)

lemma starts_with_append_iff:
  "length p \<le> length s \<Longrightarrow> starts_with p (s @ t) \<longleftrightarrow> starts_with p s"
  by (simp add: starts_with_def)

lemma starts_with_longer: "starts_with p s \<Longrightarrow> starts_with p (s @ t)"
  by (auto simp: starts_with_iff)

lemma single_line_prefix:
  assumes "single_line (p @ q)" and "q \<noteq> []"
  shows "no_newline p"
proof -
  from assms(1) obtain l where l: "p @ q = l @ newline" "no_newline l" by (auto simp: single_line_def)
  from assms(2) obtain q' c where "q = q' @ [c]" by (metis rev_exhaust)
  with l have "p @ q' = l" by (metis append_assoc butlast_snoc)
  with l(2) show ?thesis by (auto simp: no_newline_def)
qed

lemma listing_prefix:
  assumes "listing (p @ q)" and "q \<noteq> []"
  shows "\<not> ends_with (''END'' @ newline) p"
proof
  assume "ends_with (''END'' @ newline) p"
  then obtain u where p: "p = (u @ ''END'') @ newline" by (auto simp: ends_with_iff)
  from assms(1) obtain h ls where l: "p @ q = unlines (h # ls @ [''END''])"
    "list_all (\<lambda>l. no_newline l \<and> \<not> ends_with ''END'' l) (h # ls)"
    by (auto simp: listing_def)
  let ?ls = "h # ls @ [''END'']"
  have "list_all no_newline ?ls" using l(2) by (auto simp: list_all_iff)
  moreover have "(u @ ''END'') @ newline @ q = unlines ?ls" using p l(1) by simp
  ultimately obtain i where i: "i < length ?ls" "u @ ''END'' = unlines (take i ?ls) @ ?ls ! i"
    "q = unlines (drop (Suc i) ?ls)"
    using unlines_prefix [of ?ls "u @ ''END''" q] by blast
  have "Suc i < length ?ls"
  proof (rule ccontr)
    assume "\<not> Suc i < length ?ls"
    then have "drop (Suc i) ?ls = []" by simp
    with i(3) assms(2) show False by simp
  qed
  then have "?ls ! i \<in> set (h # ls)"
    using nth_mem [of i "h # ls"] nth_append [of "h # ls" "[''END'']" i] by simp
  with l(2) have line: "no_newline (?ls ! i)" "\<not> ends_with ''END'' (?ls ! i)"
    by (auto simp: list_all_iff)
  have "ends_with ''END'' (unlines (take i ?ls) @ ?ls ! i)"
    unfolding i(2) [symmetric] by (auto simp: ends_with_iff)
  with line(2) show False using ends_with_line [OF _ line(1), of "''END''"] by simp
qed

lemma framed_complete: "framed multiline r \<Longrightarrow> response_complete multiline r"
proof -
  assume f: "framed multiline r"
  then have "CHR 0x0A \<in> set r"
    by (auto simp: framed_def single_line_def listing_def split: if_splits)
  moreover have "ends_with (''END'' @ newline) r" if "listing r"
  proof -
    from that obtain h ls where "r = unlines (h # ls) @ ''END'' @ newline"
      by (auto simp: listing_def)
    then show ?thesis unfolding ends_with_iff by blast
  qed
  ultimately show ?thesis
    using f by (auto simp: framed_def response_complete_def split: if_splits)
qed

lemma framed_prefix:
  assumes "framed multiline (p @ q)" and "q \<noteq> []"
  shows "\<not> response_complete multiline p"
proof (cases "single_line (p @ q)")
  case True
  then have nl: "no_newline p" using assms(2) by (rule single_line_prefix)
  then have "\<not> ends_with (''END'' @ newline) p" by (auto simp: ends_with_iff)
  with nl show ?thesis by (simp add: response_complete_def no_newline_def)
next
  case False
  with assms(1) have m: "multiline" "listing (p @ q)" "\<not> starts_with ''ERR '' (p @ q)"
    by (auto simp: framed_def split: if_splits)
  then have "\<not> starts_with ''ERR '' p" using starts_with_longer by blast
  with m listing_prefix [OF m(2) assms(2)] show ?thesis by (simp add: response_complete_def)
qed

section \<open>The read loop\<close>

text \<open>Whatever the reads are cut into, the loop stops exactly at the end of a framed response.\<close>

lemma read_response_exact:
  assumes f: "framed multiline r" and "stream_of rs = Some body" and "r = acc @ body" and "body \<noteq> []"
  shows "read_response multiline rs acc = Some (True, r)"
  using assms(2,3,4)
proof (induction rs arbitrary: acc body rule: stream_of.induct)
  case (2 d rs)
  then obtain t where t: "d \<noteq> []" "stream_of rs = Some t" "body = d @ t"
    by (auto split: if_splits)
  show ?case
  proof (cases "t = []")
    case True
    with 2 t have "acc @ d = r" by simp
    with framed_complete [OF f] show ?thesis by simp
  next
    case False
    have "framed multiline ((acc @ d) @ t)" using f 2 t by simp
    then have "\<not> response_complete multiline (acc @ d)" using False by (rule framed_prefix)
    with 2 t False show ?thesis by simp
  qed
qed auto

section \<open>The responses\<close>

lemma ends_END: "last s \<noteq> CHR ''D'' \<Longrightarrow> \<not> ends_with ''END'' s"
  by (auto simp: ends_with_iff)

lemma last_digits: "list_all is_digit ds \<Longrightarrow> ds \<noteq> [] \<Longrightarrow> last ds \<noteq> CHR ''D''"
  by (metis digit_not_special last_in_set list_all_iff)

lemma last_show [simp]: "last (show_nat n) \<noteq> CHR ''D''" "last (show_u64 w) \<noteq> CHR ''D''"
  using last_digits [OF show_nat_digits show_nat_not_Nil] by (simp_all add: show_u64_def)

lemma show_u64_not_Nil [simp]: "show_u64 w \<noteq> []"
  by (simp add: show_u64_def)

text \<open>A line that ends in a number is not the end of a listing.\<close>

lemma number_line:
  "no_newline l \<Longrightarrow> no_newline (l @ show_nat n) \<and> \<not> ends_with ''END'' (l @ show_nat n)"
  "no_newline l \<Longrightarrow> no_newline (l @ show_u64 w) \<and> \<not> ends_with ''END'' (l @ show_u64 w)"
  by (simp_all add: ends_END)

lemma listingI:
  assumes "r = h @ newline @ concat (map (\<lambda>x. f x @ newline) xs) @ ''END'' @ newline"
    and "starts_with ''OK '' h" and "no_newline h \<and> \<not> ends_with ''END'' h"
    and "\<And>x. x \<in> set xs \<Longrightarrow> no_newline (f x) \<and> \<not> ends_with ''END'' (f x)"
  shows "listing r"
  unfolding listing_def
  by (rule exI [of _ h], rule exI [of _ "map f xs"])
    (use assms in \<open>auto simp: list_all_iff unlines_def comp_def\<close>)

lemma name_no_newline: "rm_valid_name k \<Longrightarrow> no_newline k"
  by (auto simp: rm_valid_name_def no_newline_def list_all_iff Let_def less_eq_char_def split: if_splits)

lemma framed_listing: "listing r \<Longrightarrow> framed True r"
proof -
  assume l: "listing r"
  then obtain h t where r: "r = h @ t" "starts_with ''OK '' h" by (auto simp: listing_def)
  then have ok: "starts_with ''OK '' r" by (simp add: starts_with_longer)
  then have "\<not> starts_with ''ERR '' r" by (auto simp: starts_with_iff)
  with l ok show ?thesis by (simp add: framed_def)
qed

lemma framed_line:
  "no_newline l \<Longrightarrow> framed False (''OK '' @ l @ newline)"
  "no_newline l \<Longrightarrow> framed m (''ERR '' @ l @ newline)"
  by (auto simp: framed_def single_line_def starts_with_def)

end
