(* ===== verification/Server.thy ===== *)
theory Server
  imports Protocol SocketIO
begin

text \<open>
  The daemon's server (server.hpp, unix_socket_server.cpp): the dispatch of parsed commands to the
  components, the session that each accepted connection runs in a thread of its own, and
  the life of the server as a whole.

  A handler runs to completion with two exceptions. A blocking \<open>acquire\<close> leaves the thread in
  the resource manager's wait; the session then remembers the request it waits for. A \<open>load\<close>
  that has put its model into the backend has not swapped the reservations yet; its thread
  holds the mutex of the residency manager meanwhile. What a request takes from outside (the
  clock, the time a load took, the files, whether the response could be written) is a
  \<open>request_env\<close>.
\<close>

section \<open>State\<close>

text \<open>The objects the server holds references to; two of them are pointers that may be null.\<close>

record 'b daemon =
  dm_world :: "'b residency_world"
  dm_metrics :: "metrics option"
  dm_nodes :: "node_registry option"

record request_env =
  re_now :: time
  re_elapsed :: millis
  re_files :: file_system
  re_delivered :: bool

text \<open>
  The threads: running their read loop, in \<open>condition_.wait\<close>, between the two halves of a
  \<open>load\<close>, or finished.
\<close>

datatype session_state = Reading | Blocked string req_ptr | Loading | Closed

record session =
  ss_input :: string
  ss_output :: string
  ss_state :: session_state

definition new_session :: session where
  "new_session = \<lparr>ss_input = [], ss_output = [], ss_state = Reading\<rparr>"

definition max_line_bytes :: nat where "max_line_bytes = 4096"

section \<open>Dispatch\<close>

datatype dispatch_outcome = Respond string | Waits string req_ptr

definition note_metrics :: "(metrics \<Rightarrow> metrics) \<Rightarrow> 'b daemon \<Rightarrow> 'b daemon" where
  "note_metrics f d = d\<lparr>dm_metrics := map_option f (dm_metrics d)\<rparr>"

abbreviation set_resources :: "resource_manager \<Rightarrow> 'b daemon \<Rightarrow> 'b daemon" where
  "set_resources rm d \<equiv> d\<lparr>dm_world := (dm_world d)\<lparr>rw_resources := rm\<rparr>\<rparr>"

abbreviation set_registry :: "model_registry \<Rightarrow> 'b daemon \<Rightarrow> 'b daemon" where
  "set_registry reg d \<equiv> d\<lparr>dm_world := (dm_world d)\<lparr>rw_registry := reg\<rparr>\<rparr>"

text \<open>What follows the return of \<open>manager.acquire\<close>.\<close>

definition finish_acquire ::
  "string \<Rightarrow> operation_result \<Rightarrow> 'b daemon \<Rightarrow> string \<times> 'b daemon" where
  "finish_acquire name result d =
     (format_operation_result ''acquired'' name result,
      note_metrics (mt_record_acquire (op_ok result) (op_amount result)) d)"

definition dispatch_acquire ::
  "request_env \<Rightarrow> command \<Rightarrow> 'b daemon \<Rightarrow> dispatch_outcome \<times> 'b daemon" where
  "dispatch_acquire e c d =
     (if cm_mode c = Try then
        (let (result, rm) = rm_try_acquire (re_now e) (cm_name c) (cm_bytes c)
               (rw_resources (dm_world d));
             (response, d') = finish_acquire (cm_name c) result (set_resources rm d)
         in (Respond response, d'))
      else
        (let (outcome, rm) = acquire_enter (re_now e) (cm_name c) (cm_bytes c) (cm_options c)
               (rw_resources (dm_world d))
         in case outcome of
              Waiting p \<Rightarrow> (Waits (cm_name c) p, set_resources rm d)
            | Returned result \<Rightarrow>
                (let (response, d') = finish_acquire (cm_name c) result (set_resources rm d)
                 in (Respond response, d'))))"

definition dispatch_release ::
  "request_env \<Rightarrow> command \<Rightarrow> 'b daemon \<Rightarrow> string \<times> 'b daemon" where
  "dispatch_release e c d =
     (let (result, rm) = rm_release (re_now e) (cm_name c) (rw_resources (dm_world d))
      in (format_operation_result ''released'' (cm_name c) result,
          note_metrics (mt_record_release (op_ok result) (op_amount result)) (set_resources rm d)))"

text \<open>The cases that call the model registry or the residency manager.\<close>

definition dispatch_model ::
  "(rat \<Rightarrow> rat) \<Rightarrow> 'b accelerator_backend \<Rightarrow> request_env \<Rightarrow> command \<Rightarrow> 'b daemon \<Rightarrow>
   string \<times> 'b daemon" where
  "dispatch_model rd B e c d =
     (let name = cm_name c; w = dm_world d
      in case cm_type c of
           command_type.RegisterModel \<Rightarrow>
             (let (r, reg) = mr_register_model name (cm_bytes c) (cm_metadata c) (rw_registry w)
              in (format_model_operation_result ''registered'' name r, set_registry reg d))
         | command_type.RegisterFile \<Rightarrow>
             (let (r, reg) = mr_register_file (re_files e) name (cm_path c) (cm_metadata c)
                    (rw_registry w)
              in (format_model_operation_result ''registered'' name r, set_registry reg d))
         | command_type.UnregisterModel \<Rightarrow>
             (let (r, w') = rz_unregister_model name w
              in (format_model_operation_result ''unregistered'' name r, d\<lparr>dm_world := w'\<rparr>))
         | command_type.RetainModel \<Rightarrow>
             (let (r, w') = rz_retain name w
              in (format_model_operation_result ''retained'' name r, d\<lparr>dm_world := w'\<rparr>))
         | command_type.ReleaseModel \<Rightarrow>
             (let (r, w') = rz_release_model name w
              in (format_model_operation_result ''released_model'' name r, d\<lparr>dm_world := w'\<rparr>))
         | command_type.LoadModel \<Rightarrow>
             (let (r, w') = rz_load rd B (re_files e) (re_now e) (re_elapsed e) name w
              in (format_residency_operation_result ''loaded'' name r,
                  note_metrics (mt_record_model_load (mo_ok r)) (d\<lparr>dm_world := w'\<rparr>)))
         | command_type.UnloadModel \<Rightarrow>
             (let (r, w') = rz_unload B (re_now e) name w
              in (format_residency_operation_result ''unloaded'' name r,
                  note_metrics (mt_record_model_unload (mo_ok r)) (d\<lparr>dm_world := w'\<rparr>)))
         | command_type.Share \<Rightarrow>
             (let (r, w') = rz_share B name w
              in (format_share_result name r, d\<lparr>dm_world := w'\<rparr>))
         | _ \<Rightarrow> (''ERR internal_error unknown command type'' @ newline, d))"

definition nodes_disabled :: string where
  "nodes_disabled = ''ERR nodes_unavailable node registry is disabled'' @ newline"

definition dispatch_register_node :: "command \<Rightarrow> 'b daemon \<Rightarrow> string \<times> 'b daemon" where
  "dispatch_register_node c d =
     (case dm_nodes d of
        None \<Rightarrow> (nodes_disabled, d)
      | Some nodes \<Rightarrow>
          (let (r, nodes') = nr_register_node (cm_name c) (cm_path c) (cm_bytes c) nodes
           in (format_node_operation_result ''node_registered'' (cm_name c) r,
               d\<lparr>dm_nodes := Some nodes'\<rparr>)))"

definition dispatch_unregister_node :: "command \<Rightarrow> 'b daemon \<Rightarrow> string \<times> 'b daemon" where
  "dispatch_unregister_node c d =
     (case dm_nodes d of
        None \<Rightarrow> (nodes_disabled, d)
      | Some nodes \<Rightarrow>
          (let (r, nodes') = nr_unregister_node (cm_name c) nodes
           in (format_node_operation_result ''node_removed'' (cm_name c) r,
               d\<lparr>dm_nodes := Some nodes'\<rparr>)))"

definition dispatch ::
  "(rat \<Rightarrow> rat) \<Rightarrow> 'b accelerator_backend \<Rightarrow> request_env \<Rightarrow> command \<Rightarrow> 'b daemon \<Rightarrow>
   dispatch_outcome \<times> 'b daemon" where
  "dispatch rd B e c d =
     (let respond = (\<lambda>(response, d'). (Respond response, d'))
      in case cm_type c of
           command_type.Acquire \<Rightarrow> dispatch_acquire e c d
         | command_type.Release \<Rightarrow> respond (dispatch_release e c d)
         | command_type.Status \<Rightarrow>
             respond (format_status (rm_status (rw_resources (dm_world d))), d)
         | command_type.Models \<Rightarrow>
             respond (format_models (mr_snapshot (rw_registry (dm_world d))), d)
         | command_type.Residency \<Rightarrow>
             respond (format_residency (rz_snapshot (rw_residency (dm_world d))), d)
         | command_type.Metrics \<Rightarrow>
             respond (case dm_metrics d of
                 None \<Rightarrow> ''ERR metrics_unavailable metrics are disabled'' @ newline
               | Some m \<Rightarrow> format_metrics (mt_read m), d)
         | command_type.RegisterNode \<Rightarrow> respond (dispatch_register_node c d)
         | command_type.UnregisterNode \<Rightarrow> respond (dispatch_unregister_node c d)
         | command_type.Nodes \<Rightarrow>
             respond (case dm_nodes d of
                 None \<Rightarrow> nodes_disabled
               | Some nodes \<Rightarrow> format_nodes (nr_snapshot nodes), d)
         | _ \<Rightarrow> respond (dispatch_model rd B e c d))"

section \<open>Sessions\<close>

text \<open>The framing of the input: the first line of the buffer and the rest.\<close>

datatype frame = NeedMore | TooLarge | Line string string

definition next_frame :: "string \<Rightarrow> frame" where
  "next_frame input =
     (let line = takeWhile (\<lambda>c. c \<noteq> CHR 0x0A) input
      in if line = input then (if length input \<ge> max_line_bytes then TooLarge else NeedMore)
         else if length line + 1 > max_line_bytes then TooLarge
         else Line line (drop (length line + 1) input))"

definition strip_cr :: "string \<Rightarrow> string" where
  "strip_cr line = (if line \<noteq> [] \<and> last line = CHR 0x0D then butlast line else line)"

definition request_too_large :: string where
  "request_too_large = ''ERR request_too_large request exceeds 4096 bytes'' @ newline"

text \<open>Parse and dispatch one line.\<close>

definition answer_line ::
  "(rat \<Rightarrow> rat) \<Rightarrow> 'b accelerator_backend \<Rightarrow> request_env \<Rightarrow> string \<Rightarrow> 'b daemon \<Rightarrow>
   dispatch_outcome \<times> 'b daemon" where
  "answer_line rd B e line d =
     (let parsed = parse_command (strip_cr line)
      in if pa_ok parsed then dispatch rd B e (pa_command parsed) d
         else (Respond (format_parse_error (pa_error parsed)), d))"

text \<open>Count the request and send its response; a failed send ends the session.\<close>

definition send_response ::
  "request_env \<Rightarrow> string \<Rightarrow> 'b daemon \<times> session \<Rightarrow> 'b daemon \<times> session" where
  "send_response e response =
     (\<lambda>(d, ss). (note_metrics (mt_record_request (starts_with ''OK'' response)) d,
        if re_delivered e then ss\<lparr>ss_output := ss_output ss @ response\<rparr>
        else ss\<lparr>ss_state := Closed\<rparr>))"

lemma next_frame_shorter: "next_frame input = Line line rest \<Longrightarrow> length rest < length input"
  by (cases input) (auto simp: next_frame_def Let_def split: if_splits)

text \<open>One turn of the loop of \<open>process_input\<close>.\<close>

definition serve_frame ::
  "(rat \<Rightarrow> rat) \<Rightarrow> 'b accelerator_backend \<Rightarrow> request_env \<Rightarrow> 'b daemon \<times> session \<Rightarrow>
   'b daemon \<times> session" where
  "serve_frame rd B e =
     (\<lambda>(d, ss). case next_frame (ss_input ss) of
        NeedMore \<Rightarrow> (d, ss)
      | TooLarge \<Rightarrow>
          (d, ss\<lparr>ss_output := ss_output ss @ (if re_delivered e then request_too_large else []),
                 ss_state := Closed\<rparr>)
      | Line line rest \<Rightarrow>
          (let ss1 = ss\<lparr>ss_input := rest\<rparr>;
               (outcome, d1) = answer_line rd B e line d
           in case outcome of
                Waits name p \<Rightarrow> (d1, ss1\<lparr>ss_state := Blocked name p\<rparr>)
              | Respond response \<Rightarrow> send_response e response (d1, ss1)))"

text \<open>
  The loop, undisturbed: it ends when the buffer holds no whole line, when a request
  blocks, or when the session is over. \<open>envs\<close> gives what each turn takes from outside.
\<close>

definition loop_done :: "session \<Rightarrow> bool" where
  "loop_done ss \<longleftrightarrow> ss_state ss \<noteq> Reading \<or> next_frame (ss_input ss) = NeedMore"

function process_input ::
  "(rat \<Rightarrow> rat) \<Rightarrow> 'b accelerator_backend \<Rightarrow> (nat \<Rightarrow> request_env) \<Rightarrow> nat \<Rightarrow>
   'b daemon \<times> session \<Rightarrow> nat \<times> 'b daemon \<times> session" where
  "process_input rd B envs n (d, ss) =
     (if loop_done ss then (n, d, ss)
      else process_input rd B envs (n + 1) (serve_frame rd B (envs n) (d, ss)))"
  by pat_completeness auto
termination
proof (relation "measure (\<lambda>(_, _, _, _, _, ss).
      length (ss_input ss) + (if ss_state ss = Reading then 1 else 0))", goal_cases)
  case (2 rd B envs n d ss)
  then show ?case
    by (auto simp: loop_done_def serve_frame_def send_response_def Let_def
        dest: next_frame_shorter split: frame.split dispatch_outcome.split prod.split)
qed simp

declare process_input.simps [simp del]

text \<open>
  A turn of the loop of \<open>client_session\<close>: the stop flag it looked at, and what \<open>read\<close>
  answered, into a buffer of 4096 bytes. The loop of \<open>process_input\<close> follows.
\<close>

datatype session_input = Received string | EndOfStream | TryAgain | ReadFailed

definition session_read :: "string \<Rightarrow> session \<Rightarrow> session" where
  "session_read chunk ss = ss\<lparr>ss_input := ss_input ss @ chunk\<rparr>"

definition session_eof :: "request_env \<Rightarrow> session \<Rightarrow> session" where
  "session_eof e ss =
     ss\<lparr>ss_output := ss_output ss @
          (if ss_input ss \<noteq> [] \<and> re_delivered e
           then ''ERR invalid_request unterminated command'' @ newline else []),
        ss_state := Closed\<rparr>"

definition session_turn :: "request_env \<Rightarrow> bool \<Rightarrow> session_input \<Rightarrow> session \<Rightarrow> session" where
  "session_turn e stop answer ss =
     (if stop then ss\<lparr>ss_state := Closed\<rparr>
      else case answer of
             Received chunk \<Rightarrow> session_read chunk ss
           | EndOfStream \<Rightarrow> session_eof e ss
           | TryAgain \<Rightarrow> ss
           | ReadFailed \<Rightarrow> ss\<lparr>ss_state := Closed\<rparr>)"

definition read_answer :: "session_input \<Rightarrow> bool" where
  "read_answer answer \<longleftrightarrow> (case answer of
     Received chunk \<Rightarrow> chunk \<noteq> [] \<and> length chunk \<le> 4096 | _ \<Rightarrow> True)"

text \<open>
  The blocked thread returns from \<open>manager.acquire\<close> with a result: the rest of the dispatch
  and the response. The loop of \<open>process_input\<close> then goes on with what is buffered.
\<close>

definition session_resume ::
  "request_env \<Rightarrow> string \<Rightarrow> operation_result \<Rightarrow> 'b daemon \<times> session \<Rightarrow> 'b daemon \<times> session" where
  "session_resume e name result =
     (\<lambda>(d, ss). let (response, d1) = finish_acquire name result d
        in send_response e response (d1, ss\<lparr>ss_state := Reading\<rparr>))"

text \<open>A wake-up of the blocked thread, and a wake-up at its deadline.\<close>

definition session_wake :: "request_env \<Rightarrow> 'b daemon \<times> session \<Rightarrow> 'b daemon \<times> session" where
  "session_wake e =
     (\<lambda>(d, ss). case ss_state ss of
        Blocked name p \<Rightarrow>
          (let (result, rm) = acquire_poll (re_now e) p (rw_resources (dm_world d));
               d1 = set_resources rm d
           in case result of
                None \<Rightarrow> (d1, ss)
              | Some r \<Rightarrow> session_resume e name r (d1, ss))
      | _ \<Rightarrow> (d, ss))"

definition session_time_out :: "request_env \<Rightarrow> 'b daemon \<times> session \<Rightarrow> 'b daemon \<times> session" where
  "session_time_out e =
     (\<lambda>(d, ss). case ss_state ss of
        Blocked name p \<Rightarrow>
          (let (r, rm) = acquire_expire p (rw_resources (dm_world d))
           in session_resume e name r (set_resources rm d, ss))
      | _ \<Rightarrow> (d, ss))"

section \<open>Loads\<close>

text \<open>The operations of the residency manager that take its mutex.\<close>

definition takes_residency :: "command_type \<Rightarrow> bool" where
  "takes_residency ty \<longleftrightarrow> ty \<in> {command_type.UnregisterModel, command_type.RetainModel,
     command_type.ReleaseModel, command_type.LoadModel, command_type.UnloadModel,
     command_type.Residency, command_type.Share}"

text \<open>The command of the next line, when it parses.\<close>

definition next_command :: "session \<Rightarrow> command option" where
  "next_command ss = (case next_frame (ss_input ss) of
       Line line rest \<Rightarrow>
         (let parsed = parse_command (strip_cr line)
          in if pa_ok parsed then Some (pa_command parsed) else None)
     | _ \<Rightarrow> None)"

definition residency_next :: "session \<Rightarrow> bool" where
  "residency_next ss \<longleftrightarrow> (case next_command ss of
     None \<Rightarrow> False | Some c \<Rightarrow> takes_residency (cm_type c))"

text \<open>
  The first half of a load: \<open>Some\<close> the plan and the backend with the new model in it, \<open>None\<close>
  when \<open>load\<close> returns before it comes to the reservations.
\<close>

definition load_prepared ::
  "(rat \<Rightarrow> rat) \<Rightarrow> 'b accelerator_backend \<Rightarrow> file_system \<Rightarrow> string \<Rightarrow> 'b residency_world \<Rightarrow>
   (model_record \<times> residency_record list \<times> 'b) option" where
  "load_prepared rd B fs ident w =
     (case load_plan rd ident (mr_snapshot (rw_registry w)) (rm_status (rw_resources w))
             (rw_residency w) of
        Inl result \<Rightarrow> None
      | Inr (model, evictions) \<Rightarrow>
          (case load_fetch B fs model (rw_backend w) of
             (Some err, b) \<Rightarrow> None
           | (None, b) \<Rightarrow> Some (model, evictions, b)))"

text \<open>The name, the plan and the backend, when the next line is such a load.\<close>

definition load_next ::
  "(rat \<Rightarrow> rat) \<Rightarrow> 'b accelerator_backend \<Rightarrow> request_env \<Rightarrow> 'b daemon \<times> session \<Rightarrow>
   (string \<times> model_record \<times> residency_record list \<times> 'b) option" where
  "load_next rd B e =
     (\<lambda>(d, ss). case next_command ss of
        None \<Rightarrow> None
      | Some c \<Rightarrow>
          if cm_type c = command_type.LoadModel
          then map_option (Pair (cm_name c)) (load_prepared rd B (re_files e) (cm_name c) (dm_world d))
          else None)"

definition rest_of_input :: "session \<Rightarrow> string" where
  "rest_of_input ss = (case next_frame (ss_input ss) of Line line rest \<Rightarrow> rest | _ \<Rightarrow> ss_input ss)"

abbreviation set_backend :: "'b \<Rightarrow> 'b daemon \<Rightarrow> 'b daemon" where
  "set_backend b d \<equiv> d\<lparr>dm_world := (dm_world d)\<lparr>rw_backend := b\<rparr>\<rparr>"

definition session_load ::
  "'b \<Rightarrow> 'b daemon \<times> session \<Rightarrow> 'b daemon \<times> session" where
  "session_load b = (\<lambda>(d, ss).
     (set_backend b d, ss\<lparr>ss_input := rest_of_input ss, ss_state := Loading\<rparr>))"

text \<open>The second half, the rest of the dispatch and the response.\<close>

definition session_loaded ::
  "'b accelerator_backend \<Rightarrow> request_env \<Rightarrow> string \<Rightarrow> model_record \<Rightarrow> residency_record list \<Rightarrow>
   'b daemon \<times> session \<Rightarrow> 'b daemon \<times> session" where
  "session_loaded B e name model evictions =
     (\<lambda>(d, ss).
        let (r, w) = load_commit B (re_now e) (re_elapsed e) model evictions (dm_world d)
        in send_response e (format_residency_operation_result ''loaded'' name r)
             (note_metrics (mt_record_model_load (mo_ok r)) (d\<lparr>dm_world := w\<rparr>),
              ss\<lparr>ss_state := Reading\<rparr>))"

text \<open>With nothing in between the two halves are what the loop of \<open>process_input\<close> does.\<close>

lemma rz_load_halves:
  "load_prepared rd B fs ident w = Some (m, es, b) \<Longrightarrow>
   rz_load rd B fs now elapsed ident w = load_commit B now elapsed m es (w\<lparr>rw_backend := b\<rparr>)"
  by (auto simp: load_prepared_def rz_load_def Let_def split: sum.splits prod.splits option.splits)

lemma serve_frame_load:
  assumes "load_next rd B e (d, ss) = Some (name, m, es, b)" and "ss_state ss = Reading"
  shows "serve_frame rd B e (d, ss) = session_loaded B e name m es (session_load b (d, ss))"
proof -
  obtain line rest where frame: "next_frame (ss_input ss) = Line line rest"
    using assms(1) by (auto simp: load_next_def next_command_def split: frame.splits)
  let ?p = "parse_command (strip_cr line)"
  have p: "pa_ok ?p" "cm_type (pa_command ?p) = command_type.LoadModel" "name = cm_name (pa_command ?p)"
    "load_prepared rd B (re_files e) name (dm_world d) = Some (m, es, b)"
    using assms(1) frame by (auto simp: load_next_def next_command_def Let_def split: if_splits)
  have "ss\<lparr>ss_input := rest, ss_state := Reading\<rparr> = ss\<lparr>ss_input := rest\<rparr>"
    using assms(2) by simp
  with frame p show ?thesis
    by (simp add: serve_frame_def answer_line_def dispatch_def dispatch_model_def Let_def
        rz_load_halves [OF p(4) [unfolded p(3)]] session_load_def session_loaded_def rest_of_input_def
        split: prod.split)
qed

section \<open>The server\<close>

text \<open>
  \<open>run\<close>: it accepts until it is told to stop (or \<open>poll\<close> fails), then cancels the waiters
  and joins the workers.
\<close>

datatype server_phase = Accepting | Joining | Finished

record 'b server =
  sv_daemon :: "'b daemon"
  sv_sessions :: "session list"
  sv_stop :: bool
  sv_phase :: server_phase
  sv_load :: "(nat \<times> string \<times> model_record \<times> residency_record list) option"

text \<open>\<open>sv_load\<close> is the load under way: the session that holds the mutex and what it has planned.\<close>

definition server_cancel :: "'b server \<Rightarrow> 'b server" where
  "server_cancel sv = sv\<lparr>sv_daemon := set_resources
       (rm_cancel_waiters (rw_resources (dm_world (sv_daemon sv)))) (sv_daemon sv),
     sv_phase := Joining\<rparr>"

definition put_session :: "nat \<Rightarrow> 'b daemon \<times> session \<Rightarrow> 'b server \<Rightarrow> 'b server" where
  "put_session i = (\<lambda>(d, ss) sv. sv\<lparr>sv_daemon := d, sv_sessions := (sv_sessions sv)[i := ss]\<rparr>)"

text \<open>
  The steps of the server's threads: each is one critical section or system call of one
  thread, so every interleaving of the sessions is an execution. A label names the step, the
  session and what the step takes from outside. A session whose next command takes the mutex
  of the residency manager does not go on while another one is between the halves of a load.
  The stop flag a thread acts on is the one it last looked at: the accepting thread may still
  take a client, and a session still read once, after the flag was set.
\<close>

datatype server_label =
    SvAccept
  | SvStop
  | SvShutDown
  | SvTurn nat request_env bool session_input
  | SvServe nat request_env
  | SvLoadBegin nat request_env
  | SvLoadEnd nat request_env
  | SvWake nat request_env
  | SvExpire nat request_env
  | SvJoin

inductive server_step ::
  "(rat \<Rightarrow> rat) \<Rightarrow> 'b accelerator_backend \<Rightarrow> 'b server \<Rightarrow> server_label \<Rightarrow> 'b server \<Rightarrow> bool"
  for rd :: "rat \<Rightarrow> rat" and B :: "'b accelerator_backend" where
  sv_accept: "sv_phase sv = Accepting \<Longrightarrow>
    server_step rd B sv SvAccept (sv\<lparr>sv_sessions := sv_sessions sv @ [new_session]\<rparr>)"
| sv_stopping: "server_step rd B sv SvStop (sv\<lparr>sv_stop := True\<rparr>)"
| sv_shut_down: "sv_phase sv = Accepting \<Longrightarrow> server_step rd B sv SvShutDown (server_cancel sv)"
| sv_turn: "i < length (sv_sessions sv) \<Longrightarrow> ss = sv_sessions sv ! i \<Longrightarrow>
    ss_state ss = Reading \<Longrightarrow> loop_done ss \<Longrightarrow> (stop \<Longrightarrow> sv_stop sv) \<Longrightarrow> read_answer answer \<Longrightarrow>
    server_step rd B sv (SvTurn i e stop answer)
      (put_session i (sv_daemon sv, session_turn e stop answer ss) sv)"
| sv_serve: "i < length (sv_sessions sv) \<Longrightarrow> ss = sv_sessions sv ! i \<Longrightarrow> \<not> loop_done ss \<Longrightarrow>
    (residency_next ss \<Longrightarrow> sv_load sv = None) \<Longrightarrow> load_next rd B e (sv_daemon sv, ss) = None \<Longrightarrow>
    server_step rd B sv (SvServe i e) (put_session i (serve_frame rd B e (sv_daemon sv, ss)) sv)"
| sv_load_begin: "i < length (sv_sessions sv) \<Longrightarrow> ss = sv_sessions sv ! i \<Longrightarrow> \<not> loop_done ss \<Longrightarrow>
    sv_load sv = None \<Longrightarrow> load_next rd B e (sv_daemon sv, ss) = Some (name, m, es, b) \<Longrightarrow>
    server_step rd B sv (SvLoadBegin i e)
      ((put_session i (session_load b (sv_daemon sv, ss)) sv)\<lparr>sv_load := Some (i, name, m, es)\<rparr>)"
| sv_load_end: "sv_load sv = Some (i, name, m, es) \<Longrightarrow> ss = sv_sessions sv ! i \<Longrightarrow>
    server_step rd B sv (SvLoadEnd i e)
      ((put_session i (session_loaded B e name m es (sv_daemon sv, ss)) sv)\<lparr>sv_load := None\<rparr>)"
| sv_wake: "i < length (sv_sessions sv) \<Longrightarrow> ss = sv_sessions sv ! i \<Longrightarrow>
    ss_state ss = Blocked name p \<Longrightarrow>
    server_step rd B sv (SvWake i e) (put_session i (session_wake e (sv_daemon sv, ss)) sv)"
| sv_expire: "i < length (sv_sessions sv) \<Longrightarrow> ss = sv_sessions sv ! i \<Longrightarrow>
    ss_state ss = Blocked name p \<Longrightarrow>
    expired (re_now e) (rm_requests (rw_resources (dm_world (sv_daemon sv))) p) \<Longrightarrow>
    server_step rd B sv (SvExpire i e) (put_session i (session_time_out e (sv_daemon sv, ss)) sv)"
| sv_join: "sv_phase sv = Joining \<Longrightarrow> list_all (\<lambda>ss. ss_state ss = Closed) (sv_sessions sv) \<Longrightarrow>
    server_step rd B sv SvJoin (sv\<lparr>sv_phase := Finished\<rparr>)"

text \<open>\<open>main\<close> of the daemon: the objects it makes, and \<open>None\<close> when a constructor throws.\<close>

definition server_new :: "bytes \<Rightarrow> scheduling_policy \<Rightarrow> 'b \<Rightarrow> 'b server option" where
  "server_new capacity policy b =
     (case rm_new capacity policy of
        None \<Rightarrow> None
      | Some rm \<Rightarrow> Some
          \<lparr>sv_daemon = \<lparr>dm_world = \<lparr>rw_registry = mr_new, rw_resources = rm, rw_backend = b,
               rw_residency = rz_new\<rparr>, dm_metrics = Some mt_new, dm_nodes = Some nr_new\<rparr>,
           sv_sessions = [], sv_stop = False, sv_phase = Accepting, sv_load = None\<rparr>)"

end
