(* ===== verification/ServerInvariant.thy ===== *)
theory ServerInvariant
  imports Server ResidencyProperties WaiterFate
begin

text \<open>
  What the server's threads do to the components is an execution of the residency
  machine, and every request queued in the resource manager belongs to one session that
  waits for it.
\<close>

section \<open>Dispatch runs the machine below\<close>

lemma note_metrics_simps [simp]:
  "dm_world (note_metrics f d) = dm_world d" "dm_nodes (note_metrics f d) = dm_nodes d"
  by (simp_all add: note_metrics_def)

abbreviation resources :: "'b daemon \<Rightarrow> resource_manager" where
  "resources d \<equiv> rw_resources (dm_world d)"

text \<open>One call on the resource manager at most.\<close>

definition one_call :: "resource_manager \<Rightarrow> resource_manager \<Rightarrow> bool" where
  "one_call s t \<longleftrightarrow> t = s \<or> (\<exists>l. rm_step s l t \<and> rm_next_ptr t = rm_next_ptr s)"

definition world_run ::
  "(rat \<Rightarrow> rat) \<Rightarrow> 'b accelerator_backend \<Rightarrow> (model_record \<times> residency_record list) option \<Rightarrow>
   'b residency_world \<Rightarrow> 'b residency_world \<Rightarrow> bool" where
  "world_run rd B l w w' \<longleftrightarrow> (\<exists>es. run (rz_step rd B) (w, l) es (w', l))"

lemma world_run_refl [simp]: "world_run rd B l w w"
  unfolding world_run_def by (rule exI [of _ "[]"]) simp

lemma world_run_trans: "world_run rd B l w w' \<Longrightarrow> world_run rd B l w' w'' \<Longrightarrow> world_run rd B l w w''"
  unfolding world_run_def by (blast intro: run_append)

lemma world_run_step: "rz_step rd B (w, l) e (w', l) \<Longrightarrow> world_run rd B l w w'"
  unfolding world_run_def by (rule exI [of _ "[e]"]) simp

lemma world_run_client:
  "rm_step (rw_resources w) lab rm \<Longrightarrow> client_label lab \<Longrightarrow> world_run rd B l w (w\<lparr>rw_resources := rm\<rparr>)"
  by (rule world_run_step [OF step_client])

lemma load_world_run: "rz_load rd B fs now elapsed k w = (r, w') \<Longrightarrow> world_run rd B None w w'"
  unfolding world_run_def by (rule load_run)

lemma one_call_refl [simp]: "one_call s s"
  by (simp add: one_call_def)

lemma call_keeps_ptr:
  "rm_try_acquire now k n s = (r, t) \<Longrightarrow> rm_next_ptr t = rm_next_ptr s"
  "rm_release now k s = (r, t) \<Longrightarrow> rm_next_ptr t = rm_next_ptr s"
  "rm_release_model now k s = (r, t) \<Longrightarrow> rm_next_ptr t = rm_next_ptr s"
  "rm_replace_model_reservations now es k n s = (r, t) \<Longrightarrow> rm_next_ptr t = rm_next_ptr s"
  "acquire_poll now p s = (r', t) \<Longrightarrow> rm_next_ptr t = rm_next_ptr s"
  "acquire_expire p s = (r, t) \<Longrightarrow> rm_next_ptr t = rm_next_ptr s"
  "acquire_enter now k n opts s = (Returned r, t) \<Longrightarrow> rm_next_ptr t = rm_next_ptr s"
  by (auto simp: rm_try_acquire_def acquire_enter_def acquire_poll_def acquire_expire_def
      rm_release_def rm_release_model_def rm_replace_model_reservations_def Let_def
      split: if_splits option.splits prod.splits)

lemma one_call_intros:
  "rm_try_acquire now k n s = (r, t) \<Longrightarrow> one_call s t"
  "rm_release now k s = (r, t) \<Longrightarrow> one_call s t"
  "rm_release_model now k s = (r, t) \<Longrightarrow> one_call s t"
  "rm_replace_model_reservations now es k n s = (r, t) \<Longrightarrow> one_call s t"
  "p < rm_next_ptr s \<Longrightarrow> acquire_poll now p s = (r', t) \<Longrightarrow> one_call s t"
  "p < rm_next_ptr s \<Longrightarrow> expired now (rm_requests s p) \<Longrightarrow> acquire_expire p s = (r, t) \<Longrightarrow> one_call s t"
  "acquire_enter now k n opts s = (Returned r, t) \<Longrightarrow> one_call s t"
  unfolding one_call_def by (blast intro: rm_step.intros call_keeps_ptr)+

lemma load_one_call:
  "rz_load rd B fs now elapsed k w = (r, w') \<Longrightarrow> one_call (rw_resources w) (rw_resources w')"
  unfolding rz_load_def load_commit_def
  by (auto simp: Let_def intro: one_call_intros split: sum.splits prod.splits option.splits if_splits)

lemma unload_one_call:
  "rz_unload B now k w = (r, w') \<Longrightarrow> one_call (rw_resources w) (rw_resources w')"
  unfolding rz_unload_def
  by (auto simp: Let_def intro: one_call_intros split: prod.splits option.splits if_splits)

lemma model_calls_none:
  "rz_share B k w = (sr, w') \<Longrightarrow> rw_resources w' = rw_resources w"
  "rz_retain k w = (r, w') \<Longrightarrow> rw_resources w' = rw_resources w"
  "rz_release_model k w = (r, w') \<Longrightarrow> rw_resources w' = rw_resources w"
  "rz_unregister_model k w = (r, w') \<Longrightarrow> rw_resources w' = rw_resources w"
  by (auto simp: rz_share_def rz_retain_def rz_release_model_def rz_unregister_model_def Let_def
      split: prod.splits option.splits if_splits)

definition nodes_ok :: "'b daemon \<Rightarrow> bool" where
  "nodes_ok d \<longleftrightarrow> (\<forall>nodes. dm_nodes d = Some nodes \<longrightarrow> nr_inv nodes)"

text \<open>What a handler that returned may have done.\<close>

definition handled ::
  "(rat \<Rightarrow> rat) \<Rightarrow> 'b accelerator_backend \<Rightarrow> (model_record \<times> residency_record list) option \<Rightarrow>
   'b daemon \<Rightarrow> 'b daemon \<Rightarrow> bool" where
  "handled rd B l d d' \<longleftrightarrow> world_run rd B l (dm_world d) (dm_world d') \<and>
     one_call (resources d) (resources d') \<and> (nodes_ok d \<longrightarrow> nodes_ok d')"

lemma handled_world:
  "dm_world d' = dm_world d \<Longrightarrow> dm_nodes d' = dm_nodes d \<Longrightarrow> handled rd B l d d'"
  by (simp add: handled_def nodes_ok_def)

lemma handled_refl [simp]: "handled rd B l d d"
  by (simp add: handled_world)

lemma handled_metrics [simp]: "handled rd B l d (note_metrics f d') \<longleftrightarrow> handled rd B l d d'"
  by (simp add: handled_def nodes_ok_def)

lemma handled_rm:
  "rm_step (resources d) lab rm \<Longrightarrow> client_label lab \<Longrightarrow> one_call (resources d) rm \<Longrightarrow>
   handled rd B l d (set_resources rm d)"
  by (simp add: handled_def nodes_ok_def world_run_client)

lemma handled_run:
  "world_run rd B l (dm_world d) w \<Longrightarrow> one_call (resources d) (rw_resources w) \<Longrightarrow>
   handled rd B l d (d\<lparr>dm_world := w\<rparr>)"
  by (simp add: handled_def nodes_ok_def)

lemma handled_register:
  "mr_register_model k n md (rw_registry (dm_world d)) = (r, reg) \<Longrightarrow>
   handled rd B l d (set_registry reg d)"
  "mr_register_file fs k path md (rw_registry (dm_world d)) = (r, reg) \<Longrightarrow>
   handled rd B l d (set_registry reg d)"
  by (rule handled_run, rule world_run_step, erule step_register step_register_file, simp)+

text \<open>A handler that takes the mutex of the residency manager runs when no load is under way.\<close>

lemma dispatch_model_residency:
  "dispatch_model rd B e c d = (resp, d') \<Longrightarrow> handled rd B None d d'"
  unfolding dispatch_model_def Let_def
  by (auto intro!: handled_run
      intro: handled_register load_world_run load_one_call unload_one_call
        world_run_step [OF step_register] world_run_step [OF step_register_file]
        world_run_step [OF step_unload] world_run_step [OF step_share] world_run_step [OF step_retain]
        world_run_step [OF step_release] world_run_step [OF step_unregister]
      simp: model_calls_none split: command_type.splits prod.splits)

lemma dispatch_model_registry:
  "dispatch_model rd B e c d = (resp, d') \<Longrightarrow> \<not> takes_residency (cm_type c) \<Longrightarrow> handled rd B l d d'"
  unfolding dispatch_model_def Let_def
  by (auto simp: takes_residency_def intro: handled_register split: command_type.splits prod.splits)

lemma dispatch_model_handled:
  "dispatch_model rd B e c d = (resp, d') \<Longrightarrow> takes_residency (cm_type c) \<longrightarrow> l = None \<Longrightarrow>
   handled rd B l d d'"
  using dispatch_model_residency dispatch_model_registry by blast

lemma handled_calls:
  "rm_try_acquire now k n (resources d) = (r, rm) \<Longrightarrow> handled rd B l d (set_resources rm d)"
  "rm_release now k (resources d) = (r, rm) \<Longrightarrow> handled rd B l d (set_resources rm d)"
  "acquire_enter now k n opts (resources d) = (Returned r, rm) \<Longrightarrow> handled rd B l d (set_resources rm d)"
  "p < rm_next_ptr (resources d) \<Longrightarrow> acquire_poll now p (resources d) = (r', rm) \<Longrightarrow>
   handled rd B l d (set_resources rm d)"
  "p < rm_next_ptr (resources d) \<Longrightarrow> expired now (rm_requests (resources d) p) \<Longrightarrow>
   acquire_expire p (resources d) = (r, rm) \<Longrightarrow> handled rd B l d (set_resources rm d)"
proof goal_cases
  case 1
  show ?case by (rule handled_rm [OF rm_step.intros(1) [OF 1]]) (simp_all add: one_call_intros(1) [OF 1])
next
  case 2
  show ?case by (rule handled_rm [OF rm_step.intros(5) [OF 2]]) (simp_all add: one_call_intros(2) [OF 2])
next
  case 3
  show ?case by (rule handled_rm [OF rm_step.intros(2) [OF 3]]) (simp_all add: one_call_intros(7) [OF 3])
next
  case 4
  show ?case by (rule handled_rm [OF rm_step.intros(3) [OF 4]]) (simp_all add: one_call_intros(5) [OF 4])
next
  case 5
  show ?case by (rule handled_rm [OF rm_step.intros(4) [OF 5]]) (simp_all add: one_call_intros(6) [OF 5])
qed

lemma dispatch_release_handled: "dispatch_release e c d = (resp, d') \<Longrightarrow> handled rd B l d d'"
  unfolding dispatch_release_def
  by (auto intro: handled_calls split: prod.splits)

lemma dispatch_acquire_handled:
  "dispatch_acquire e c d = (Respond resp, d') \<Longrightarrow> handled rd B l d d'"
  unfolding dispatch_acquire_def finish_acquire_def
  by (auto intro: handled_calls simp: Let_def split: prod.splits if_splits acquire_outcome.splits)

lemma dispatch_node_handled:
  "dispatch_register_node c d = (resp, d') \<Longrightarrow> handled rd B l d d'"
  "dispatch_unregister_node c d = (resp, d') \<Longrightarrow> handled rd B l d d'"
  using nr_register_inv nr_unregister_inv
  unfolding dispatch_register_node_def dispatch_unregister_node_def handled_def nodes_ok_def
  by (auto split: prod.splits option.splits) (metis snd_conv)+

lemma dispatch_handled:
  "dispatch rd B e c d = (Respond resp, d') \<Longrightarrow> takes_residency (cm_type c) \<longrightarrow> l = None \<Longrightarrow>
   handled rd B l d d'"
  unfolding dispatch_def
  by (auto simp: Let_def takes_residency_def
      intro: dispatch_model_handled [unfolded takes_residency_def] dispatch_release_handled
      dispatch_acquire_handled dispatch_node_handled split: command_type.splits prod.splits)

text \<open>A handler that did not return is an \<open>acquire\<close> that queued its request.\<close>

lemma dispatch_waits:
  assumes "dispatch rd B e c d = (Waits name p, d')"
  obtains rm where "acquire_enter (re_now e) name (cm_bytes c) (cm_options c) (resources d) =
      (Waiting p, rm)" "d' = set_resources rm d" "name = cm_name c"
  using assms
  by (auto simp: dispatch_def dispatch_acquire_def Let_def split: command_type.splits prod.splits
      if_splits acquire_outcome.splits)

section \<open>Sessions and the requests they wait for\<close>

definition waits_for :: "session \<Rightarrow> (string \<times> req_ptr) option" where
  "waits_for ss = (case ss_state ss of Blocked name p \<Rightarrow> Some (name, p) | _ \<Rightarrow> None)"

definition owners :: "resource_manager \<Rightarrow> session list \<Rightarrow> bool" where
  "owners rm sss \<longleftrightarrow>
     (\<forall>i < length sss. \<forall>name p. waits_for (sss ! i) = Some (name, p) \<longrightarrow>
        p < rm_next_ptr rm \<and> pr_name (rm_requests rm p) = name \<and>
        (\<forall>j < length sss. \<forall>name'. waits_for (sss ! j) = Some (name', p) \<longrightarrow> j = i)) \<and>
     (\<forall>p \<in> set (rm_pending rm). \<exists>i < length sss. \<exists>name. waits_for (sss ! i) = Some (name, p))"

text \<open>The state of the residency machine the server drives.\<close>

definition server_rz :: "'b server \<Rightarrow> 'b rz_state" where
  "server_rz sv = (dm_world (sv_daemon sv), map_option (\<lambda>(i, name, load). load) (sv_load sv))"

text \<open>The session between the halves of a load is the one that holds the mutex.\<close>

definition holder :: "(nat \<times> 'x) option \<Rightarrow> session list \<Rightarrow> bool" where
  "holder load sss \<longleftrightarrow> (\<forall>i < length sss. ss_state (sss ! i) = Loading \<longleftrightarrow> (\<exists>x. load = Some (i, x))) \<and>
     (\<forall>i x. load = Some (i, x) \<longrightarrow> i < length sss)"

definition server_inv ::
  "('b \<Rightarrow> bool) \<Rightarrow> ('b \<Rightarrow> string \<Rightarrow> bytes option) \<Rightarrow> 'b server \<Rightarrow> bool" where
  "server_inv binv held sv \<longleftrightarrow>
     rz_inv binv held (server_rz sv) \<and> nodes_ok (sv_daemon sv) \<and>
     owners (resources (sv_daemon sv)) (sv_sessions sv) \<and> holder (sv_load sv) (sv_sessions sv)"

text \<open>The requests are the same ones, under the same names, and none is queued anew.\<close>

definition no_new_waiter :: "resource_manager \<Rightarrow> resource_manager \<Rightarrow> bool" where
  "no_new_waiter s t \<longleftrightarrow> rm_next_ptr t = rm_next_ptr s \<and> set (rm_pending t) \<subseteq> set (rm_pending s) \<and>
     (\<forall>p < rm_next_ptr s. pr_name (rm_requests t p) = pr_name (rm_requests s p))"

lemma owner_request:
  "owners rm sss \<Longrightarrow> i < length sss \<Longrightarrow> waits_for (sss ! i) = Some (name, p) \<Longrightarrow>
   p < rm_next_ptr rm \<and> pr_name (rm_requests rm p) = name"
  by (simp add: owners_def)

lemma owner_unique:
  "owners rm sss \<Longrightarrow> i < length sss \<Longrightarrow> waits_for (sss ! i) = Some (name, p) \<Longrightarrow>
   j < length sss \<Longrightarrow> waits_for (sss ! j) = Some (name', p) \<Longrightarrow> j = i"
  unfolding owners_def by blast

lemma owner_exists:
  "owners rm sss \<Longrightarrow> p \<in> set (rm_pending rm) \<Longrightarrow>
   \<exists>i < length sss. \<exists>name. waits_for (sss ! i) = Some (name, p)"
  by (simp add: owners_def)

lemma ownersI:
  assumes "\<And>i name p. i < length sss \<Longrightarrow> waits_for (sss ! i) = Some (name, p) \<Longrightarrow>
      p < rm_next_ptr rm \<and> pr_name (rm_requests rm p) = name"
    and "\<And>i j name name' p. i < length sss \<Longrightarrow> waits_for (sss ! i) = Some (name, p) \<Longrightarrow>
      j < length sss \<Longrightarrow> waits_for (sss ! j) = Some (name', p) \<Longrightarrow> j = i"
    and "\<And>p. p \<in> set (rm_pending rm) \<Longrightarrow>
      \<exists>i < length sss. \<exists>name. waits_for (sss ! i) = Some (name, p)"
  shows "owners rm sss"
  unfolding owners_def using assms by blast

lemma fate_name: "waiter_fate s t p \<Longrightarrow> pr_name (rm_requests t p) = pr_name (rm_requests s p)"
  by (auto simp: waiter_fate_def Let_def complete_with_def split: if_splits)

lemma fate_pending: "waiter_fate s t p \<Longrightarrow> p \<in> set (rm_pending t) \<Longrightarrow> p \<in> set (rm_pending s)"
  by (auto simp: waiter_fate_def Let_def split: if_splits)

lemma pending_below: "rm_good s \<Longrightarrow> p \<in> set (rm_pending s) \<Longrightarrow> p < rm_next_ptr s"
  by (auto simp: rm_good_def rm_waiter_def dest: rm_inv_waiter)

lemma pending_open: "rm_good s \<Longrightarrow> p \<in> set (rm_pending s) \<Longrightarrow> \<not> pr_completed (rm_requests s p)"
  by (auto simp: rm_good_def rm_waiter_def dest: rm_inv_waiter)

lemma one_call_effect:
  assumes "one_call s t" and "rm_good s"
  shows "no_new_waiter s t"
proof (cases "t = s")
  case True
  then show ?thesis by (simp add: no_new_waiter_def)
next
  case False
  with assms(1) obtain l where l: "rm_step s l t" "rm_next_ptr t = rm_next_ptr s"
    by (auto simp: one_call_def)
  have good: "rm_good t" by (rule rm_step_good [OF l(1) assms(2)])
  have fate: "waiter_fate s t p" if "p < rm_next_ptr s" for p
    by (rule rm_step_fate [OF l(1) assms(2) that])
  have "set (rm_pending t) \<subseteq> set (rm_pending s)"
    using pending_below [OF good] fate l(2) by (auto intro: fate_pending)
  with fate l(2) show ?thesis by (simp add: no_new_waiter_def fate_name)
qed

lemma owners_keep:
  assumes own: "owners s sss" and no: "no_new_waiter s t" and i: "i < length sss"
    and w: "waits_for ss = waits_for (sss ! i) \<or> waits_for ss = None \<and>
      (\<forall>name p. waits_for (sss ! i) = Some (name, p) \<longrightarrow> p \<notin> set (rm_pending t))"
  shows "owners t (sss[i := ss])"
proof -
  have sub: "waits_for (sss[i := ss] ! j) = Some q \<Longrightarrow> waits_for (sss ! j) = Some q" for j q
    using w i by (cases "j = i") auto
  show ?thesis
  proof (rule ownersI, goal_cases)
    case (1 k name p)
    then have "k < length sss" by simp
    from owner_request [OF own this sub [OF 1(2)]] no show ?case by (simp add: no_new_waiter_def)
  next
    case (2 k j name name' p)
    then have "k < length sss" "j < length sss" by simp_all
    from owner_unique [OF own this(1) sub [OF 2(2)] this(2) sub [OF 2(4)]] show ?case .
  next
    case (3 p)
    then have "p \<in> set (rm_pending s)" using no by (auto simp: no_new_waiter_def)
    from owner_exists [OF own this]
    obtain j name where j: "j < length sss" "waits_for (sss ! j) = Some (name, p)" by blast
    with w 3 i have "waits_for (sss[i := ss] ! j) = Some (name, p)" by (cases "j = i") auto
    with j show ?case by auto
  qed
qed

text \<open>An \<open>acquire\<close> that waits: its session takes the request it queued.\<close>

lemma enter_waiting_effect:
  assumes "acquire_enter now name n opts s = (Waiting p, t)" and good: "rm_good s"
  shows "p = rm_next_ptr s" and "rm_next_ptr t = Suc p" and "pr_name (rm_requests t p) = name"
    and "set (rm_pending t) \<subseteq> insert p (set (rm_pending s))"
    and "\<And>q. q < p \<Longrightarrow> pr_name (rm_requests t q) = pr_name (rm_requests s q)"
proof -
  let ?u = "acquire_enqueue now name n opts s"
  from acquire_enter_waiting [OF assms(1)]
  have p: "p = rm_next_ptr s" and t: "t = grant_waiters_locked now ?u" by simp_all
  have ui: "rm_inv ?u"
    using assms by (auto simp: acquire_enter_def rm_good_def not_less split: if_splits prod.splits
        intro!: acquire_enqueue_inv)
  have fate: "waiter_fate ?u t q" for q
    unfolding t by (rule grant_waiters_fate [OF ui])
  show "p = rm_next_ptr s" by (rule p)
  show "rm_next_ptr t = Suc p" by (simp add: t p acquire_enqueue_def Let_def)
  show "pr_name (rm_requests t p) = name"
    using fate_name [OF fate, of p] by (simp add: p acquire_enqueue_def Let_def)
  show "set (rm_pending t) \<subseteq> insert p (set (rm_pending s))"
    using fate_pending [OF fate] by (auto simp: p acquire_enqueue_def Let_def)
  show "pr_name (rm_requests t q) = pr_name (rm_requests s q)" if "q < p" for q
    using fate_name [OF fate, of q] that by (simp add: p acquire_enqueue_def Let_def)
qed

lemma owners_wait:
  assumes own: "owners s sss" and enter: "acquire_enter now name n opts s = (Waiting p, t)"
    and good: "rm_good s" and i: "i < length sss" and idle: "waits_for (sss ! i) = None"
    and ss: "waits_for ss = Some (name, p)"
  shows "owners t (sss[i := ss])"
proof -
  note eff = enter_waiting_effect [OF enter good]
  have old: "waits_for (sss ! j) = Some (k, q) \<and> q < p"
    if "j < length sss" "waits_for (sss[i := ss] ! j) = Some (k, q)" "q \<noteq> p" for j k q
  proof -
    from that i ss have "waits_for (sss ! j) = Some (k, q)" by (cases "j = i") auto
    with owner_request [OF own that(1)] eff(1) show ?thesis by blast
  qed
  have new: "j = i \<and> k = name" if "j < length sss" "waits_for (sss[i := ss] ! j) = Some (k, p)" for j k
  proof (cases "j = i")
    case False
    with that(2) have "waits_for (sss ! j) = Some (k, p)" by simp
    with owner_request [OF own that(1)] eff(1) show ?thesis by blast
  next
    case True
    with that(2) i ss show ?thesis by simp
  qed
  show ?thesis
  proof (rule ownersI, goal_cases)
    case (1 h k q)
    then have h: "h < length sss" by simp
    show ?case
    proof (cases "q = p")
      case True
      with new [OF h] 1(2) eff(2,3) show ?thesis by simp
    next
      case False
      from old [OF h 1(2) False] have o: "waits_for (sss ! h) = Some (k, q)" "q < p" by simp_all
      with owner_request [OF own h o(1)] eff(2) eff(5) [OF o(2)] show ?thesis by simp
    qed
  next
    case (2 h j k k' q)
    then have h: "h < length sss" "j < length sss" by simp_all
    show ?case
    proof (cases "q = p")
      case True
      with new [OF h(1)] new [OF h(2)] 2 show ?thesis by blast
    next
      case False
      from owner_unique [OF own h(1) _ h(2)] old [OF h(1) 2(2) False] old [OF h(2) 2(4) False]
      show ?thesis by blast
    qed
  next
    case (3 q)
    show ?case
    proof (cases "q = p")
      case True
      have "waits_for (sss[i := ss] ! i) = Some (name, q)" using i ss True by simp
      with i show ?thesis by auto
    next
      case False
      with 3 eff(4) have "q \<in> set (rm_pending s)" by blast
      from owner_exists [OF own this]
      obtain j k where j: "j < length sss" "waits_for (sss ! j) = Some (k, q)" by blast
      with idle have "waits_for (sss[i := ss] ! j) = Some (k, q)" by (cases "j = i") auto
      with j show ?thesis by auto
    qed
  qed
qed

end
