(* ===== verification/ServerSteps.thy ===== *)
theory ServerSteps
  imports ServerInvariant
begin

text \<open>
  Every step of the server keeps its invariant and is an execution of the residency
  machine, for any backend that meets its contract.
\<close>

section \<open>The sessions after a step\<close>

lemma waits_for_simps [simp]:
  "waits_for (ss\<lparr>ss_state := Reading\<rparr>) = None" "waits_for (ss\<lparr>ss_state := Closed\<rparr>) = None"
  "waits_for (ss\<lparr>ss_state := Blocked name p\<rparr>) = Some (name, p)"
  "waits_for (ss\<lparr>ss_state := Loading\<rparr>) = None"
  "waits_for (ss\<lparr>ss_input := inp\<rparr>) = waits_for ss" "waits_for (ss\<lparr>ss_output := out\<rparr>) = waits_for ss"
  "waits_for (ss\<lparr>ss_output := out, ss_state := Closed\<rparr>) = None" "waits_for new_session = None"
  by (simp_all add: waits_for_def new_session_def)

lemma waits_for_Some: "waits_for ss = Some (name, p) \<longleftrightarrow> ss_state ss = Blocked name p"
  by (auto simp: waits_for_def split: session_state.splits)

lemma reading_waits: "ss_state ss = Reading \<Longrightarrow> waits_for ss = None"
  by (simp add: waits_for_def)

lemma send_response_effect:
  "send_response e response (d, ss) = (d', ss') \<Longrightarrow> dm_world d' = dm_world d \<and>
   dm_nodes d' = dm_nodes d \<and> (waits_for ss = None \<longrightarrow> waits_for ss' = None) \<and>
   (ss_state ss \<noteq> Loading \<longrightarrow> ss_state ss' \<noteq> Loading)"
  by (auto simp: send_response_def split: if_splits)

lemma handled_trans_world:
  "handled rd B l d d1 \<Longrightarrow> dm_world d' = dm_world d1 \<Longrightarrow> dm_nodes d' = dm_nodes d1 \<Longrightarrow> handled rd B l d d'"
  unfolding handled_def nodes_ok_def by metis

text \<open>One turn of a session's loop: it answers, it is over, or its request waits.\<close>

lemma serve_frame_effect:
  assumes "serve_frame rd B e (d, ss) = (d', ss')" and "\<not> loop_done ss"
    and "residency_next ss \<longrightarrow> l = None"
  obtains (answered) "handled rd B l d d'" "waits_for ss' = None" "ss_state ss' \<noteq> Loading"
  | (waiting) name n opts p rm where "acquire_enter (re_now e) name n opts (resources d) = (Waiting p, rm)"
      "d' = set_resources rm d" "waits_for ss' = Some (name, p)" "ss_state ss' \<noteq> Loading"
proof -
  have idle: "waits_for ss = None" "ss_state ss = Reading"
    using assms(2) by (simp_all add: loop_done_def reading_waits)
  show thesis
  proof (cases "next_frame (ss_input ss)")
    case NeedMore
    with assms(2) show thesis by (simp add: loop_done_def)
  next
    case TooLarge
    with assms(1) show thesis by (intro answered) (auto simp: serve_frame_def)
  next
    case (Line line rest)
    obtain out d1 where out: "answer_line rd B e line d = (out, d1)" by fastforce
    show thesis
    proof (cases out)
      case (Respond r)
      then have "handled rd B l d d1"
        using out assms(3) Line
        by (auto simp: answer_line_def Let_def residency_next_def next_command_def
            intro: dispatch_handled split: if_splits)
      moreover have "send_response e r (d1, ss\<lparr>ss_input := rest\<rparr>) = (d', ss')"
        using assms(1) Line out Respond by (simp add: serve_frame_def)
      from send_response_effect [OF this] idle
      have "dm_world d' = dm_world d1" "dm_nodes d' = dm_nodes d1" "waits_for ss' = None"
        "ss_state ss' \<noteq> Loading" by simp_all
      ultimately show thesis by (intro answered [OF handled_trans_world])
    next
      case (Waits name p)
      with out have "dispatch rd B e (pa_command (parse_command (strip_cr line))) d = (Waits name p, d1)"
        by (auto simp: answer_line_def Let_def split: if_splits)
      then obtain n opts rm where
        "acquire_enter (re_now e) name n opts (resources d) = (Waiting p, rm)" "d1 = set_resources rm d"
        by (rule dispatch_waits) blast
      moreover have "d' = d1" "ss' = ss\<lparr>ss_input := rest, ss_state := Blocked name p\<rparr>"
        using assms(1) Line out Waits by (simp_all add: serve_frame_def)
      ultimately show thesis by (intro waiting) auto
    qed
  qed
qed

text \<open>A wake-up goes back to sleep, or returns with the request completed.\<close>

lemma resume_effect:
  assumes "session_resume e name r (d, ss) = (d', ss')"
  shows "dm_world d' = dm_world d" and "dm_nodes d' = dm_nodes d" and "waits_for ss' = None"
    and "ss_state ss' \<noteq> Loading"
proof -
  have "send_response e (format_operation_result ''acquired'' name r)
      (note_metrics (mt_record_acquire (op_ok r) (op_amount r)) d, ss\<lparr>ss_state := Reading\<rparr>) = (d', ss')"
    using assms by (simp add: session_resume_def finish_acquire_def)
  from send_response_effect [OF this]
  show "dm_world d' = dm_world d" and "dm_nodes d' = dm_nodes d" and "waits_for ss' = None"
    and "ss_state ss' \<noteq> Loading" by simp_all
qed

lemma resume_handled:
  assumes "session_resume e name r (set_resources rm d, ss) = (d', ss')"
    and "handled rd B l d (set_resources rm d)"
  shows "handled rd B l d d'" and "resources d' = rm" and "waits_for ss' = None"
    and "ss_state ss' \<noteq> Loading"
  using resume_effect [OF assms(1)] handled_trans_world [OF assms(2)] by simp_all

lemma poll_done: "acquire_poll now p s = (Some r, t) \<Longrightarrow> pr_completed (rm_requests t p)"
  by (auto simp: acquire_poll_def Let_def split: if_splits)

lemma expire_done: "acquire_expire p s = (r, t) \<Longrightarrow> pr_completed (rm_requests t p)"
  by (auto simp: acquire_expire_def complete_with_def split: if_splits)

lemma wake_effect:
  assumes "session_wake e (d, ss) = (d', ss')" and "ss_state ss = Blocked name p"
    and "p < rm_next_ptr (resources d)"
  shows "handled rd B l d d'" and "ss_state ss' \<noteq> Loading"
    and "waits_for ss' = waits_for ss \<or> waits_for ss' = None \<and> pr_completed (rm_requests (resources d') p)"
proof -
  obtain r rm where r: "acquire_poll (re_now e) p (resources d) = (r, rm)" by fastforce
  note h = handled_calls(4) [OF assms(3) r, of rd B l]
  have "handled rd B l d d' \<and> ss_state ss' \<noteq> Loading \<and> (waits_for ss' = waits_for ss \<or>
      waits_for ss' = None \<and> pr_completed (rm_requests (resources d') p))"
  proof (cases r)
    case None
    with assms(1,2) r h show ?thesis by (auto simp: session_wake_def)
  next
    case (Some x)
    then have "session_resume e name x (set_resources rm d, ss) = (d', ss')"
      using assms(1,2) r by (simp add: session_wake_def)
    from resume_handled [OF this h] poll_done [OF r [unfolded Some]] show ?thesis by simp
  qed
  then show "handled rd B l d d'" and "ss_state ss' \<noteq> Loading" and "waits_for ss' = waits_for ss \<or>
      waits_for ss' = None \<and> pr_completed (rm_requests (resources d') p)" by simp_all
qed

lemma time_out_effect:
  assumes "session_time_out e (d, ss) = (d', ss')" and "ss_state ss = Blocked name p"
    and "p < rm_next_ptr (resources d)" and "expired (re_now e) (rm_requests (resources d) p)"
  shows "handled rd B l d d'" and "ss_state ss' \<noteq> Loading"
    and "waits_for ss' = None \<and> pr_completed (rm_requests (resources d') p)"
proof -
  obtain r rm where r: "acquire_expire p (resources d) = (r, rm)" by fastforce
  have "session_resume e name r (set_resources rm d, ss) = (d', ss')"
    using assms(1,2) r by (simp add: session_time_out_def)
  from resume_handled [OF this handled_calls(5) [OF assms(3,4) r]] expire_done [OF r]
  show "handled rd B l d d'" and "ss_state ss' \<noteq> Loading"
    and "waits_for ss' = None \<and> pr_completed (rm_requests (resources d') p)"
    by simp_all
qed

text \<open>The two halves of a load.\<close>

lemma load_next_step:
  assumes "load_next rd B e (d, ss) = Some (name, m, es, b)"
  shows "rz_step rd B (dm_world d, None) (RzLoadBegin name) (dm_world (set_backend b d), Some (m, es))"
    and "takes_residency command_type.LoadModel"
proof -
  obtain fs where "load_prepared rd B fs name (dm_world d) = Some (m, es, b)"
    using assms by (auto simp: load_next_def split: option.splits if_splits)
  then show "rz_step rd B (dm_world d, None) (RzLoadBegin name) (dm_world (set_backend b d), Some (m, es))"
    by (auto simp: load_prepared_def intro: step_load_begin split: sum.splits prod.splits option.splits)
qed (simp add: takes_residency_def)

lemma commit_one_call:
  "load_commit B now elapsed m es w = (r, w') \<Longrightarrow> one_call (rw_resources w) (rw_resources w')"
  by (auto simp: load_commit_def Let_def intro: one_call_intros split: prod.splits if_splits)

lemma loaded_effect:
  assumes "session_loaded B e name m es (d, ss) = (d', ss')"
  shows "\<exists>r. rz_step rd B (dm_world d, Some (m, es)) (RzLoadEnd (md_id m) r) (dm_world d', None)"
    and "one_call (resources d) (resources d')" and "dm_nodes d' = dm_nodes d"
    and "waits_for ss' = None" and "ss_state ss' \<noteq> Loading"
proof -
  obtain r w where c: "load_commit B (re_now e) (re_elapsed e) m es (dm_world d) = (r, w)" by fastforce
  have "send_response e (format_residency_operation_result ''loaded'' name r)
      (note_metrics (mt_record_model_load (mo_ok r)) (d\<lparr>dm_world := w\<rparr>), ss\<lparr>ss_state := Reading\<rparr>) = (d', ss')"
    using assms c by (simp add: session_loaded_def)
  from send_response_effect [OF this] have eff: "dm_world d' = w" "dm_nodes d' = dm_nodes d"
    "waits_for ss' = None" "ss_state ss' \<noteq> Loading" by simp_all
  show "\<exists>r. rz_step rd B (dm_world d, Some (m, es)) (RzLoadEnd (md_id m) r) (dm_world d', None)"
    using step_load_end [OF c] eff(1) by blast
  show "one_call (resources d) (resources d')"
    using commit_one_call [OF c] eff(1) by simp
  show "dm_nodes d' = dm_nodes d" and "waits_for ss' = None" and "ss_state ss' \<noteq> Loading"
    using eff by simp_all
qed

section \<open>The holder of the residency mutex\<close>

lemma holder_keep:
  "holder load sss \<Longrightarrow> i < length sss \<Longrightarrow> (ss_state ss = Loading \<longleftrightarrow> ss_state (sss ! i) = Loading) \<Longrightarrow>
   holder load (sss[i := ss])"
  by (auto simp: holder_def nth_list_update)

lemma holder_begin:
  "holder None sss \<Longrightarrow> i < length sss \<Longrightarrow> ss_state ss = Loading \<Longrightarrow> holder (Some (i, x)) (sss[i := ss])"
  by (auto simp: holder_def nth_list_update)

lemma holder_end:
  "holder (Some (i, x)) sss \<Longrightarrow> ss_state ss \<noteq> Loading \<Longrightarrow> holder None (sss[i := ss])"
  by (auto simp: holder_def nth_list_update)

lemma holder_accept: "holder load sss \<Longrightarrow> holder load (sss @ [new_session])"
  by (auto simp: holder_def nth_append new_session_def less_Suc_eq)

section \<open>The invariant\<close>

lemma put_session_simps [simp]:
  "sv_daemon (put_session i (d, ss) sv) = d"
  "sv_sessions (put_session i (d, ss) sv) = (sv_sessions sv)[i := ss]"
  "sv_load (put_session i (d, ss) sv) = sv_load sv"
  by (simp_all add: put_session_def)

abbreviation sv_planned :: "'b server \<Rightarrow> (model_record \<times> residency_record list) option" where
  "sv_planned sv \<equiv> snd (server_rz sv)"

lemma planned_None [simp]: "sv_planned sv = None \<longleftrightarrow> sv_load sv = None"
  by (simp add: server_rz_def)

lemma server_rz_put: "server_rz (put_session i (d, ss) sv) = (dm_world d, sv_planned sv)"
  by (simp add: server_rz_def)

context reliable_backend
begin

lemma server_inv_good: "server_inv binv held sv \<Longrightarrow> rm_good (resources (sv_daemon sv))"
  by (simp add: server_inv_def server_rz_def rz_inv_def rz_books_def)

lemma server_inv_parts:
  assumes "server_inv binv held sv"
  shows "rz_inv binv held (dm_world (sv_daemon sv), sv_planned sv)" and "nodes_ok (sv_daemon sv)"
    and "owners (resources (sv_daemon sv)) (sv_sessions sv)" and "holder (sv_load sv) (sv_sessions sv)"
  using assms by (simp_all add: server_inv_def server_rz_def)

text \<open>Any step keeps the invariant and is a run of the machine below.\<close>

definition step_sound where
  "step_sound rd sv sv' \<longleftrightarrow> server_inv binv held sv' \<and>
     (\<exists>es. run (rz_step rd B) (server_rz sv) es (server_rz sv'))"

lemma soundI:
  assumes inv: "server_inv binv held sv"
    and run: "run (rz_step rd B) (server_rz sv) es (server_rz sv')"
    and "nodes_ok (sv_daemon sv) \<Longrightarrow> nodes_ok (sv_daemon sv')"
    and "owners (resources (sv_daemon sv')) (sv_sessions sv')"
    and "holder (sv_load sv') (sv_sessions sv')"
  shows "step_sound rd sv sv'"
proof -
  have "rz_inv binv held (server_rz sv')"
    using machine.run_keeps_inv [OF run] inv by (simp add: server_inv_def)
  with assms show ?thesis by (auto simp: step_sound_def server_inv_def)
qed

text \<open>A session that waited and does not any more has its request completed.\<close>

lemma put_owners:
  assumes inv: "server_inv binv held sv" and i: "i < length (sv_sessions sv)"
    and call: "one_call (resources (sv_daemon sv)) (resources d')"
    and w: "waits_for ss' = waits_for (sv_sessions sv ! i) \<or> waits_for ss' = None \<and>
      (\<forall>name p. waits_for (sv_sessions sv ! i) = Some (name, p) \<longrightarrow>
         pr_completed (rm_requests (resources d') p))"
  shows "owners (resources d') ((sv_sessions sv)[i := ss'])"
proof -
  note good = server_inv_good [OF inv]
  have "rm_good (resources d')"
    using call good rm_step_good by (auto simp: one_call_def)
  from pending_open [OF this] w i show ?thesis
    by (intro owners_keep [OF server_inv_parts(3) [OF inv] one_call_effect [OF call good]]) blast+
qed

text \<open>A handler that returned, and a request that waits, in the session of its thread.\<close>

lemma handled_sound:
  assumes inv: "server_inv binv held sv" and i: "i < length (sv_sessions sv)"
    and h: "handled rd B (sv_planned sv) (sv_daemon sv) d'"
    and w: "waits_for ss' = waits_for (sv_sessions sv ! i) \<or> waits_for ss' = None \<and>
      (\<forall>name p. waits_for (sv_sessions sv ! i) = Some (name, p) \<longrightarrow>
         pr_completed (rm_requests (resources d') p))"
    and l: "ss_state ss' = Loading \<longleftrightarrow> ss_state (sv_sessions sv ! i) = Loading"
  shows "step_sound rd sv (put_session i (d', ss') sv)"
proof -
  from h obtain es where run: "run (rz_step rd B) (server_rz sv) es (dm_world d', sv_planned sv)"
    by (auto simp: handled_def world_run_def server_rz_def)
  have "owners (resources d') ((sv_sessions sv)[i := ss'])"
    using h by (intro put_owners [OF inv i _ w]) (simp add: handled_def)
  then show ?thesis
    using h holder_keep [OF server_inv_parts(4) [OF inv] i l]
    by (intro soundI [OF inv, of rd es]) (simp_all add: server_rz_put run handled_def)
qed

lemma waiting_sound:
  assumes inv: "server_inv binv held sv" and i: "i < length (sv_sessions sv)"
    and idle: "ss_state (sv_sessions sv ! i) = Reading"
    and enter: "acquire_enter now name n opts (resources (sv_daemon sv)) = (Waiting p, rm)"
    and ss: "waits_for ss' = Some (name, p)"
  shows "step_sound rd sv (put_session i (set_resources rm (sv_daemon sv), ss') sv)"
proof -
  have "rz_step rd B (server_rz sv) (RzClient (Acquire now name n opts (Waiting p)))
      (dm_world (set_resources rm (sv_daemon sv)), sv_planned sv)"
    using step_client [OF _ rm_step.intros(2) [OF enter], of rd B "sv_planned sv"]
    by (simp add: server_rz_def)
  then have run: "run (rz_step rd B) (server_rz sv) [RzClient (Acquire now name n opts (Waiting p))]
      (dm_world (set_resources rm (sv_daemon sv)), sv_planned sv)"
    by (rule run_cons [OF _ run_nil])
  have "ss_state ss' \<noteq> Loading" using ss by (auto simp: waits_for_def)
  with holder_keep [OF server_inv_parts(4) [OF inv] i, of ss'] idle
  have hold: "holder (sv_load sv) ((sv_sessions sv)[i := ss'])" by simp
  have own: "owners rm ((sv_sessions sv)[i := ss'])"
    by (rule owners_wait [OF server_inv_parts(3) [OF inv] enter server_inv_good [OF inv] i
        reading_waits [OF idle] ss])
  show ?thesis
    by (rule soundI [OF inv]) (unfold server_rz_put, rule run,
        use own hold in \<open>simp_all add: nodes_ok_def\<close>)
qed

lemma local_sound:
  assumes "server_inv binv held sv" and "i < length (sv_sessions sv)"
    and "ss_state (sv_sessions sv ! i) = Reading" and "waits_for ss' = None"
    and "ss_state ss' \<noteq> Loading"
  shows "step_sound rd sv (put_session i (sv_daemon sv, ss') sv)"
  using assms by (intro handled_sound) (simp_all add: reading_waits)

lemma serve_sound:
  assumes inv: "server_inv binv held sv" and i: "i < length (sv_sessions sv)"
    and busy: "\<not> loop_done (sv_sessions sv ! i)"
    and free: "residency_next (sv_sessions sv ! i) \<longrightarrow> sv_load sv = None"
  shows "step_sound rd sv (put_session i (serve_frame rd B e (sv_daemon sv, sv_sessions sv ! i)) sv)"
proof -
  obtain d' ss' where f: "serve_frame rd B e (sv_daemon sv, sv_sessions sv ! i) = (d', ss')" by fastforce
  have idle: "ss_state (sv_sessions sv ! i) = Reading" using busy by (simp add: loop_done_def)
  have "residency_next (sv_sessions sv ! i) \<longrightarrow> sv_planned sv = None" using free by simp
  from f busy this show ?thesis
  proof (cases rule: serve_frame_effect)
    case answered
    have "step_sound rd sv (put_session i (d', ss') sv)"
      by (rule handled_sound [OF inv i answered(1)])
        (use answered idle in \<open>simp_all add: reading_waits\<close>)
    with f show ?thesis by simp
  next
    case (waiting name n opts p rm)
    from waiting_sound [OF inv i idle waiting(1,3)] f waiting(2) show ?thesis by simp
  qed
qed

lemma blocked_sound:
  assumes inv: "server_inv binv held sv" and i: "i < length (sv_sessions sv)"
    and b: "ss_state (sv_sessions sv ! i) = Blocked name p"
  shows "step_sound rd sv (put_session i (session_wake e (sv_daemon sv, sv_sessions sv ! i)) sv)"
    and "expired (re_now e) (rm_requests (resources (sv_daemon sv)) p) \<Longrightarrow>
      step_sound rd sv (put_session i (session_time_out e (sv_daemon sv, sv_sessions sv ! i)) sv)"
proof -
  have w: "waits_for (sv_sessions sv ! i) = Some (name, p)" by (simp add: waits_for_Some b)
  have p: "p < rm_next_ptr (resources (sv_daemon sv))"
    using owner_request [OF server_inv_parts(3) [OF inv] i w] by simp
  obtain d' ss' where wk: "session_wake e (sv_daemon sv, sv_sessions sv ! i) = (d', ss')" by fastforce
  note eff = wake_effect [OF wk b p]
  show "step_sound rd sv (put_session i (session_wake e (sv_daemon sv, sv_sessions sv ! i)) sv)"
    unfolding wk by (rule handled_sound [OF inv i eff(1)]) (use eff(2,3) w b in auto)
  assume ex: "expired (re_now e) (rm_requests (resources (sv_daemon sv)) p)"
  obtain d2 ss2 where to: "session_time_out e (sv_daemon sv, sv_sessions sv ! i) = (d2, ss2)" by fastforce
  note eff2 = time_out_effect [OF to b p ex]
  show "step_sound rd sv (put_session i (session_time_out e (sv_daemon sv, sv_sessions sv ! i)) sv)"
    unfolding to by (rule handled_sound [OF inv i eff2(1)]) (use eff2(2,3) w b in auto)
qed

lemma load_begin_sound:
  assumes inv: "server_inv binv held sv" and i: "i < length (sv_sessions sv)"
    and busy: "\<not> loop_done (sv_sessions sv ! i)" and free: "sv_load sv = None"
    and load: "load_next rd B e (sv_daemon sv, sv_sessions sv ! i) = Some (name, m, es, b)"
  shows "step_sound rd sv ((put_session i (session_load b (sv_daemon sv, sv_sessions sv ! i)) sv)
    \<lparr>sv_load := Some (i, name, m, es)\<rparr>)"
    (is "step_sound rd sv ?sv'")
proof -
  have idle: "waits_for (sv_sessions sv ! i) = None"
    using busy by (simp add: loop_done_def reading_waits)
  have "rz_step rd B (server_rz sv) (RzLoadBegin name) (server_rz ?sv')"
    using load_next_step(1) [OF load] free by (simp add: server_rz_def session_load_def)
  then have run: "run (rz_step rd B) (server_rz sv) [RzLoadBegin name] (server_rz ?sv')"
    by (rule run_cons [OF _ run_nil])
  have own: "owners (resources (sv_daemon sv)) ((sv_sessions sv)[i := snd (session_load b
      (sv_daemon sv, sv_sessions sv ! i))])"
    by (rule put_owners [OF inv i one_call_refl]) (simp add: session_load_def idle)
  from holder_begin [OF server_inv_parts(4) [OF inv, unfolded free] i, of "snd (session_load b (sv_daemon sv, sv_sessions sv ! i))" "(name, m, es)"]
  have "holder (sv_load ?sv') (sv_sessions ?sv')" by (simp add: session_load_def)
  with own show ?thesis
    by (intro soundI [OF inv run]) (simp_all add: session_load_def nodes_ok_def)
qed

lemma load_end_sound:
  assumes inv: "server_inv binv held sv" and load: "sv_load sv = Some (i, name, m, es)"
  shows "step_sound rd sv ((put_session i (session_loaded B e name m es
    (sv_daemon sv, sv_sessions sv ! i)) sv)\<lparr>sv_load := None\<rparr>)"
    (is "step_sound rd sv ?sv'")
proof -
  have hold: "holder (Some (i, name, m, es)) (sv_sessions sv)"
    using server_inv_parts(4) [OF inv] load by simp
  then have i: "i < length (sv_sessions sv)" "ss_state (sv_sessions sv ! i) = Loading"
    by (auto simp: holder_def)
  obtain d' ss' where f: "session_loaded B e name m es (sv_daemon sv, sv_sessions sv ! i) = (d', ss')"
    by fastforce
  note eff = loaded_effect [OF f]
  obtain r where "rz_step rd B (server_rz sv) (RzLoadEnd (md_id m) r) (server_rz ?sv')"
    using eff(1) [of rd] f load by (auto simp: server_rz_def)
  then have run: "run (rz_step rd B) (server_rz sv) [RzLoadEnd (md_id m) r] (server_rz ?sv')"
    by (rule run_cons [OF _ run_nil])
  have own: "owners (resources d') ((sv_sessions sv)[i := ss'])"
    by (rule put_owners [OF inv i(1) eff(2)]) (simp add: eff(4), simp add: waits_for_def i(2))
  show ?thesis
    by (rule soundI [OF inv run])
      (use own f eff(3) holder_end [OF hold eff(5)] in \<open>simp_all add: nodes_ok_def\<close>)
qed

lemma daemon_same_sound:
  assumes inv: "server_inv binv held sv" and "sv_daemon sv' = sv_daemon sv" and "sv_load sv' = sv_load sv"
    and "owners (resources (sv_daemon sv)) (sv_sessions sv')" and "holder (sv_load sv) (sv_sessions sv')"
  shows "step_sound rd sv sv'"
proof -
  have "server_rz sv' = server_rz sv" using assms(2,3) by (simp add: server_rz_def)
  then show ?thesis
    using assms by (intro soundI [OF inv, of rd "[]"]) simp_all
qed

lemma owners_accept:
  assumes own: "owners rm sss"
  shows "owners rm (sss @ [new_session])"
proof (rule ownersI)
  have old: "i < length sss \<and> waits_for (sss ! i) = Some q"
    if "i < length (sss @ [new_session])" "waits_for ((sss @ [new_session]) ! i) = Some q" for i q
    using that by (cases "i < length sss") (simp_all add: nth_append)
  show "p < rm_next_ptr rm \<and> pr_name (rm_requests rm p) = name"
    if "i < length (sss @ [new_session])" "waits_for ((sss @ [new_session]) ! i) = Some (name, p)" for i name p
    using owner_request [OF own] old [OF that] by blast
  show "j = i"
    if "i < length (sss @ [new_session])" "waits_for ((sss @ [new_session]) ! i) = Some (name, p)"
      "j < length (sss @ [new_session])" "waits_for ((sss @ [new_session]) ! j) = Some (name', p)"
    for i j name name' p
    using owner_unique [OF own] old [OF that(1,2)] old [OF that(3,4)] by blast
  show "\<exists>i < length (sss @ [new_session]). \<exists>name. waits_for ((sss @ [new_session]) ! i) = Some (name, p)"
    if p: "p \<in> set (rm_pending rm)" for p
  proof -
    from owner_exists [OF own p] obtain i name
      where "i < length sss" "waits_for (sss ! i) = Some (name, p)" by blast
    then show ?thesis by (intro exI [of _ i]) (simp add: nth_append)
  qed
qed

lemma owners_fewer:
  assumes own: "owners s sss" and "no_new_waiter s t"
  shows "owners t sss"
proof (rule ownersI)
  show "p < rm_next_ptr t \<and> pr_name (rm_requests t p) = name"
    if "i < length sss" "waits_for (sss ! i) = Some (name, p)" for i name p
    using owner_request [OF own that] assms(2) by (simp add: no_new_waiter_def)
qed (use owner_unique [OF own] owner_exists [OF own] assms(2) in
    \<open>blast, auto simp: no_new_waiter_def\<close>)

lemma cancel_sound: "server_inv binv held sv \<Longrightarrow> step_sound rd sv (server_cancel sv)"
proof -
  assume inv: "server_inv binv held sv"
  let ?rm = "rm_cancel_waiters (resources (sv_daemon sv))"
  have step: "rm_step (resources (sv_daemon sv)) CancelWaiters ?rm" by (rule rm_step.intros)
  have "rz_step rd B (server_rz sv) (RzClient CancelWaiters) (server_rz (server_cancel sv))"
    using step_client [OF _ step, of rd B "sv_planned sv"] by (simp add: server_rz_def server_cancel_def)
  then have run: "run (rz_step rd B) (server_rz sv) [RzClient CancelWaiters] (server_rz (server_cancel sv))"
    by (rule run_cons [OF _ run_nil])
  have "one_call (resources (sv_daemon sv)) ?rm"
    using step by (auto simp: one_call_def rm_cancel_waiters_def)
  note no_new = one_call_effect [OF this server_inv_good [OF inv]]
  have own: "owners ?rm (sv_sessions sv)"
    by (rule owners_fewer [OF server_inv_parts(3) [OF inv] no_new])
  show ?thesis
    by (rule soundI [OF inv run])
      (use own server_inv_parts(4) [OF inv] in \<open>simp_all add: server_cancel_def nodes_ok_def\<close>)
qed

lemma turn_waits:
  "ss_state ss = Reading \<Longrightarrow> waits_for (session_turn e stop answer ss) = None"
  "ss_state ss = Reading \<Longrightarrow> ss_state (session_turn e stop answer ss) \<noteq> Loading"
  by (cases answer; simp add: session_turn_def session_read_def session_eof_def waits_for_def)+

lemma server_step_sound:
  "server_step rd B sv l sv' \<Longrightarrow> server_inv binv held sv \<Longrightarrow> step_sound rd sv sv'"
proof (induction rule: server_step.induct)
  case (sv_accept sv)
  then show ?case
    by (intro daemon_same_sound) (simp_all add: server_inv_def owners_accept holder_accept)
next
  case (sv_turn i sv ss stop answer e)
  then show ?case by (intro local_sound) (simp_all add: turn_waits)
next
  case (sv_serve i sv ss e)
  then show ?case using serve_sound by blast
next
  case (sv_load_begin i sv ss e name m es b)
  then show ?case using load_begin_sound by blast
next
  case (sv_load_end sv i name m es ss e)
  then show ?case using load_end_sound by blast
qed (auto intro: daemon_same_sound cancel_sound blocked_sound simp: server_inv_def)

lemma server_run_sound:
  "run (server_step rd B) sv ls sv' \<Longrightarrow> server_inv binv held sv \<Longrightarrow>
   server_inv binv held sv' \<and> (\<exists>es. run (rz_step rd B) (server_rz sv) es (server_rz sv'))"
proof (induction rule: run.induct)
  case (run_nil s)
  then show ?case by (auto intro: run.run_nil)
next
  case (run_cons s l t ls u)
  then have t: "server_inv binv held t" "\<exists>es. run (rz_step rd B) (server_rz s) es (server_rz t)"
    using server_step_sound [OF run_cons.hyps(1)] by (simp_all add: step_sound_def)
  with run_cons.IH [OF t(1)] show ?case by (blast intro: run_append)
qed

end

section \<open>The start\<close>

text \<open>The daemon as \<open>main\<close> starts it, on a backend that holds nothing yet.\<close>

definition server_start ::
  "('b \<Rightarrow> bool) \<Rightarrow> ('b \<Rightarrow> string \<Rightarrow> bytes option) \<Rightarrow> 'b server \<Rightarrow> bool" where
  "server_start binv held sv \<longleftrightarrow> (\<exists>capacity policy b. server_new capacity policy b = Some sv \<and>
     binv b \<and> held b = Map.empty)"

lemma server_start_rz: "server_start binv held sv \<Longrightarrow> rz_start binv held (server_rz sv)"
  by (auto simp: server_start_def server_new_def server_rz_def rz_start_def rm_start_def rm_new_def
      split: option.splits if_splits)

context reliable_backend
begin

lemma server_start_inv: "server_start binv held sv \<Longrightarrow> server_inv binv held sv"
proof -
  assume start: "server_start binv held sv"
  then have "rz_inv binv held (server_rz sv)"
    by (rule rz_start_inv [OF server_start_rz])
  moreover from start have "nodes_ok (sv_daemon sv)" "owners (resources (sv_daemon sv)) (sv_sessions sv)"
    "holder (sv_load sv) (sv_sessions sv)"
    by (auto simp: server_start_def server_new_def nodes_ok_def nr_new_def nr_inv_def owners_def
        holder_def rm_new_def split: option.splits if_splits)
  ultimately show ?thesis by (simp add: server_inv_def)
qed

lemma server_reachable:
  assumes "server_start binv held sv0" and "run (server_step rd B) sv0 ls sv"
  shows "server_inv binv held sv" and "rz_reachable B binv held rd (server_rz sv)"
  using server_run_sound [OF assms(2) server_start_inv [OF assms(1)]]
    rz_reachable_run [OF rz_reachable_start [OF server_start_rz [OF assms(1)]]] by blast+

end

sublocale reliable_backend \<subseteq> server: invariant_system "server_start binv held" "server_step rd B"
    "server_inv binv held" for rd
  using server_step_sound by unfold_locales (auto simp: step_sound_def server_start_inv)

section \<open>A daemon of 100 bytes\<close>

definition demo_server :: "mock_backend server" where
  "demo_server = \<lparr>sv_daemon = \<lparr>dm_world = demo_world, dm_metrics = Some mt_new,
       dm_nodes = Some nr_new\<rparr>,
     sv_sessions = [], sv_stop = False, sv_phase = Accepting, sv_load = None\<rparr>"

definition demo_env :: request_env where
  "demo_env = \<lparr>re_now = 0, re_elapsed = 0, re_files = demo_fs, re_delivered = True\<rparr>"

lemma demo_server_start: "server_start mk_inv mk_held demo_server"
  unfolding server_start_def
  by (rule exI [of _ 100], rule exI [of _ PriorityFifo], rule exI [of _ mk_new])
    (simp add: server_new_def rm_new_def demo_server_def demo_world_def mk_new_def mk_inv_def
      mk_held_def)

end
