(* ===== verification/ResponseShapes.thy ===== *)
theory ResponseShapes
  imports ResponseFraming ServerSteps ProtocolProperties
begin

text \<open>
  Every response the dispatcher makes has the shape its client waits for: the listings of
  status, residency, metrics and nodes, and one line for everything else. The names in
  them come from components whose invariants keep line breaks out.
\<close>

section \<open>One line\<close>

lemma framed_parse_error: "e \<noteq> parse_error.NoError \<Longrightarrow> framed m (format_parse_error e)"
  by (cases e) (auto simp: format_parse_error_def framed_def single_line_def starts_with_def)

lemma framed_operation:
  "no_newline action \<Longrightarrow> no_newline name \<Longrightarrow> framed False (format_operation_result action name r)"
  by (cases "op_error r")
    (auto simp: format_operation_result_def op_ok_def framed_def single_line_def starts_with_def)

lemma framed_model_operation:
  "no_newline action \<Longrightarrow> no_newline name \<Longrightarrow> framed False (format_model_operation_result action name r)"
  by (cases "mo_error r")
    (auto simp: format_model_operation_result_def mo_ok_def framed_def single_line_def starts_with_def)

lemma framed_node_operation:
  "no_newline action \<Longrightarrow> no_newline name \<Longrightarrow> framed False (format_node_operation_result action name r)"
  by (cases "nop_error r")
    (auto simp: format_node_operation_result_def nop_ok_def framed_def single_line_def starts_with_def)

lemma framed_share:
  "no_newline name \<Longrightarrow> no_newline (ms_token r) \<Longrightarrow> framed False (format_share_result name r)"
  by (cases "ms_error r")
    (auto simp: format_share_result_def framed_def single_line_def starts_with_def)

section \<open>Listings\<close>

lemma status_listing:
  assumes "\<And>r. r \<in> set (st_reservations s) \<Longrightarrow> no_newline (rs_name r)"
  shows "listing (format_status s)"
proof (rule listingI)
  let ?h = "''OK status '' @ show_u64 (st_capacity s) @ '' '' @ show_u64 (st_used s) @ '' '' @
     show_u64 (st_free s) @ '' '' @ show_nat (length (st_reservations s))"
  show "format_status s = ?h @ newline @
      concat (map (\<lambda>r. (''CLIENT '' @ rs_name r @ '' '' @ show_u64 (rs_bytes r)) @ newline) (st_reservations s)) @
      ''END'' @ newline"
    by (simp add: format_status_def)
  show "starts_with ''OK '' ?h" by (simp add: starts_with_def)
  show "no_newline ?h \<and> \<not> ends_with ''END'' ?h" by (simp add: ends_END)
  show "no_newline (''CLIENT '' @ rs_name r @ '' '' @ show_u64 (rs_bytes r)) \<and>
      \<not> ends_with ''END'' (''CLIENT '' @ rs_name r @ '' '' @ show_u64 (rs_bytes r))"
    if "r \<in> set (st_reservations s)" for r
    using assms [OF that] by (simp add: ends_END)
qed

lemma residency_listing:
  assumes "\<And>r. r \<in> set (rs_records s) \<Longrightarrow> no_newline (rr_id r)"
  shows "listing (format_residency s)"
proof (rule listingI)
  let ?h = "''OK residency '' @ show_nat (length (filter rr_resident (rs_records s)))"
  let ?f = "\<lambda>r. ''RESIDENT '' @ rr_id r @ '' '' @ show_u64 (rr_footprint r) @ '' '' @
         show_u64 (rr_ref_count r) @ '' '' @ show_u64 (rr_last_loaded r)"
  show "format_residency s = ?h @ newline @
      concat (map (\<lambda>r. ?f r @ newline) (filter rr_resident (rs_records s))) @ ''END'' @ newline"
    by (simp add: format_residency_def)
  show "starts_with ''OK '' ?h" by (simp add: starts_with_def)
  show "no_newline ?h \<and> \<not> ends_with ''END'' ?h" by (simp add: ends_END)
  show "no_newline (?f r) \<and> \<not> ends_with ''END'' (?f r)"
    if "r \<in> set (filter rr_resident (rs_records s))" for r
    using assms [of r] that by (simp add: ends_END)
qed

lemma nodes_listing:
  assumes "\<And>n. n \<in> set (ns_nodes s) \<Longrightarrow> no_newline (nd_id n) \<and> no_newline (nd_endpoint n)"
  shows "listing (format_nodes s)"
proof (rule listingI)
  let ?h = "''OK nodes '' @ show_nat (length (ns_nodes s))"
  let ?f = "\<lambda>n. ''NODE '' @ nd_id n @ '' '' @ nd_endpoint n @ '' '' @
         show_u64 (nd_capacity n) @ '' '' @ show_u64 (nd_used n) @ '' '' @
         (if nd_healthy n then ''healthy'' else ''unhealthy'')"
  show "format_nodes s = ?h @ newline @
      concat (map (\<lambda>n. ?f n @ newline) (ns_nodes s)) @ ''END'' @ newline"
    by (simp add: format_nodes_def cong: map_cong if_cong)
  show "starts_with ''OK '' ?h" by (simp add: starts_with_def)
  show "no_newline ?h \<and> \<not> ends_with ''END'' ?h" by (simp add: ends_END)
  show "no_newline (?f n) \<and> \<not> ends_with ''END'' (?f n)" if "n \<in> set (ns_nodes s)" for n
    using assms [OF that] by (simp add: ends_END)
qed

lemma metrics_listing: "listing (format_metrics s)"
  unfolding listing_def
  by (rule exI [of _ "''OK metrics''"],
      rule exI [of _ "[''requests '' @ show_u64 (mt_requests s), ''successes '' @ show_u64 (mt_successes s),
        ''failures '' @ show_u64 (mt_failures s), ''acquires '' @ show_u64 (mt_acquires s),
        ''releases '' @ show_u64 (mt_releases s), ''model_loads '' @ show_u64 (mt_model_loads s),
        ''model_unloads '' @ show_u64 (mt_model_unloads s),
        ''acquired_bytes '' @ show_u64 (mt_acquired_bytes s),
        ''released_bytes '' @ show_u64 (mt_released_bytes s)]"])
    (simp add: format_metrics_def ends_END starts_with_def)

section \<open>The components' names\<close>

lemma status_names_valid:
  assumes "rm_inv s" and "r \<in> set (st_reservations (rm_status s))"
  shows "no_newline (rs_name r)"
proof -
  have "\<And>k n. (k, n) \<in> set (rm_reservations s) \<Longrightarrow> no_newline k"
    and "\<And>k n. (k, n) \<in> set (rm_model_reservations s) \<Longrightarrow> no_newline k"
    using assms(1) by (auto simp: rm_inv_defs intro: name_no_newline)
  with assms(2) show ?thesis by (auto simp: rm_status_def)
qed

lemma residency_names_valid:
  assumes "rz_books w" and "r \<in> set (rs_records (rz_snapshot (rw_residency w)))"
  shows "no_newline (rr_id r)"
proof -
  from assms have wf: "um_wf (rz_records (rw_residency w))"
    and all: "um_all (record_matches (rw_registry w)) (rz_records (rw_residency w))"
    and reg: "mr_inv (rw_registry w)" by (simp_all add: rz_books_def)
  from assms(2) obtain k where "(k, r) \<in> set (rz_records (rw_residency w))"
    by (auto simp: rz_snapshot_def)
  with um_all_entry [OF all wf] obtain m where "rr_id r = k" "map_of (mr_models (rw_registry w)) k = Some m"
    by (auto simp: record_matches_def)
  with mr_inv_entry [OF reg] show ?thesis
    by (metis model_ok_def name_no_newline validators_agree(2))
qed

lemma node_names_valid:
  assumes "nr_inv s" and "n \<in> set (ns_nodes (nr_snapshot s))"
  shows "no_newline (nd_id n) \<and> no_newline (nd_endpoint n)"
proof -
  from assms(2) obtain k where k: "(k, n) \<in> set (nr_nodes s)" by (auto simp: nr_snapshot_def)
  have "um_wf (nr_nodes s)" "um_all (\<lambda>k node. nd_id node = k \<and> node_ok node) (nr_nodes s)"
    using assms(1) by (simp_all add: nr_inv_def)
  from um_all_entry [OF this(2,1) k] have "node_ok n" by simp
  then have "rm_valid_name (nd_id n)" "nr_valid_endpoint (nd_endpoint n)"
    by (simp_all add: node_ok_def node_validator_agrees)
  then have "no_newline (nd_id n)" "\<forall>c \<in> set (nd_endpoint n). c \<noteq> CHR 0x0A"
    by (simp_all only: name_no_newline nr_valid_endpoint_def list_all_iff split: if_splits) blast
  then show ?thesis unfolding no_newline_def by blast
qed

section \<open>Every answer\<close>

lemma framed_fixed:
  "framed m nodes_disabled" "framed m (''ERR metrics_unavailable metrics are disabled'' @ newline)"
  "framed m (''ERR internal_error unknown command type'' @ newline)" "framed m request_too_large"
  by (simp_all add: nodes_disabled_def request_too_large_def framed_def single_line_def starts_with_def)

definition lists_entries :: "command_type \<Rightarrow> bool" where
  "lists_entries ty \<longleftrightarrow> ty \<in> {command_type.Status, command_type.Residency, command_type.Metrics,
     command_type.Nodes}"

text \<open>A backend whose share tokens stay on the response's line.\<close>

definition token_lines :: "'b accelerator_backend \<Rightarrow> bool" where
  "token_lines B \<longleftrightarrow> (\<forall>k b. no_newline (sh_token (fst (bk_share B k b))))"

lemma mock_token_lines: "token_lines mock_ops"
  by (simp add: token_lines_def mk_share_def no_newline_def)

lemma share_token_line: "token_lines B \<Longrightarrow> rz_share B k w = (sr, w') \<Longrightarrow> no_newline (ms_token sr)"
  unfolding token_lines_def
  by (auto simp: rz_share_def Let_def no_newline_def split: if_splits option.splits prod.splits)
    (metis fst_conv)

lemma dispatch_model_framed:
  "token_lines B \<Longrightarrow> no_newline (cm_name c) \<Longrightarrow> dispatch_model rd B e c d = (r, d') \<Longrightarrow> framed False r"
  unfolding dispatch_model_def Let_def
  by (auto simp: format_residency_operation_result_def framed_model_operation framed_share
      framed_fixed(3) [simplified] dest: share_token_line
      split: command_type.splits prod.splits)

lemma dispatch_node_framed:
  "no_newline (cm_name c) \<Longrightarrow> dispatch_register_node c d = (r, d') \<Longrightarrow> framed False r"
  "no_newline (cm_name c) \<Longrightarrow> dispatch_unregister_node c d = (r, d') \<Longrightarrow> framed False r"
  unfolding dispatch_register_node_def dispatch_unregister_node_def
  by (auto simp: framed_node_operation framed_fixed split: option.splits prod.splits)

lemma dispatch_acquire_framed:
  "no_newline (cm_name c) \<Longrightarrow> dispatch_acquire e c d = (Respond r, d') \<Longrightarrow> framed False r"
  unfolding dispatch_acquire_def
  by (auto simp: framed_operation finish_acquire_def split: prod.splits if_splits acquire_outcome.splits)

lemma dispatch_release_framed:
  "no_newline (cm_name c) \<Longrightarrow> dispatch_release e c d = (r, d') \<Longrightarrow> framed False r"
  unfolding dispatch_release_def by (auto simp: framed_operation split: prod.splits)

lemma dispatch_listing_framed:
  assumes "rz_books (dm_world d)" and "nodes_ok d" and "lists_entries (cm_type c)"
    and "dispatch rd B e c d = (Respond r, d')"
  shows "framed True r"
proof -
  have "rm_inv (resources d)" using assms(1) by (simp add: rz_books_def rm_good_def)
  then have st: "framed True (format_status (rm_status (resources d)))"
    by (intro framed_listing status_listing status_names_valid)
  have rs: "framed True (format_residency (rz_snapshot (rw_residency (dm_world d))))"
    by (intro framed_listing residency_listing residency_names_valid [OF assms(1)])
  have nd: "framed True (format_nodes (nr_snapshot ns))" if "dm_nodes d = Some ns" for ns
    using assms(2) that by (intro framed_listing nodes_listing node_names_valid) (simp_all add: nodes_ok_def)
  have mt: "framed True (format_metrics (mt_read m))" for m
    by (intro framed_listing metrics_listing)
  from assms(3,4) st rs nd mt show ?thesis
    by (auto simp: lists_entries_def dispatch_def framed_fixed framed_fixed(2) [simplified]
        split: option.splits)
qed

lemma dispatch_framed:
  assumes "rz_books (dm_world d)" and "nodes_ok d" and tok: "token_lines B" and "no_newline (cm_name c)"
    and "cm_type c \<noteq> command_type.Models" and d: "dispatch rd B e c d = (Respond r, d')"
  shows "framed (lists_entries (cm_type c)) r"
proof (cases "lists_entries (cm_type c)")
  case True
  with dispatch_listing_framed [OF assms(1,2) True d] show ?thesis by simp
next
  case False
  with assms(3-) show ?thesis
    by (cases "cm_type c")
      (auto simp: lists_entries_def dispatch_def split: prod.splits
        intro: dispatch_acquire_framed dispatch_release_framed dispatch_model_framed dispatch_node_framed)
qed

lemma answer_framed:
  assumes "rz_books (dm_world d)" and "nodes_ok d" and tok: "token_lines B"
    and "pa_ok (parse_command (strip_cr line)) \<Longrightarrow>
      cm_type (pa_command (parse_command (strip_cr line))) \<noteq> command_type.Models"
    and "answer_line rd B e line d = (Respond r, d')"
  shows "framed (pa_ok (parse_command (strip_cr line)) \<and>
    lists_entries (cm_type (pa_command (parse_command (strip_cr line))))) r"
proof (cases "pa_ok (parse_command (strip_cr line))")
  case True
  let ?c = "pa_command (parse_command (strip_cr line))"
  have d: "dispatch rd B e ?c d = (Respond r, d')"
    using assms(5) True by (simp add: answer_line_def Let_def)
  show ?thesis
  proof (cases "lists_entries (cm_type ?c)")
    case lists: True
    with True dispatch_listing_framed [OF assms(1,2) lists d] show ?thesis by simp
  next
    case False
    have "well_formed_command ?c"
      using True parse_well_formed by (simp add: parse_command_def)
    then have "no_newline (cm_name ?c)"
      using False assms(4) [OF True]
      by (auto simp: well_formed_command_def lists_entries_def intro: name_no_newline)
    from dispatch_framed [OF assms(1,2) tok this assms(4) [OF True] d] True show ?thesis by simp
  qed
next
  case False
  with assms(5) show ?thesis
    using framed_parse_error [of "pa_error (parse_command (strip_cr line))" False]
    by (auto simp: answer_line_def Let_def pa_ok_def)
qed

end
