(* ===== verification/ServerSessions.thy ===== *)
theory ServerSessions
  imports Server
begin

text \<open>
  The framing of a session: how its answers depend on the bytes it receives and not on the
  reads that delivered them, and that the requests of its lines are answered once each, in
  order.
\<close>

section \<open>Frames\<close>

definition first_line :: "string \<Rightarrow> string" where
  "first_line inp = takeWhile (\<lambda>c. c \<noteq> CHR 0x0A) inp"

lemma first_line_simps [simp]:
  "first_line [] = []"
  "first_line (c # cs) = (if c = CHR 0x0A then [] else c # first_line cs)"
  by (simp_all add: first_line_def)

lemma next_frame_by_line:
  "next_frame inp = (if length (first_line inp) \<ge> max_line_bytes then TooLarge
     else if first_line inp = inp then NeedMore
     else Line (first_line inp) (drop (length (first_line inp) + 1) inp))"
  unfolding next_frame_def Let_def first_line_def [symmetric]
  by (cases "first_line inp = inp") (simp_all add: less_Suc_eq_le)

lemma first_line_append:
  "first_line (inp @ tail) =
     (if first_line inp = inp then inp @ first_line tail else first_line inp)"
  by (induction inp) auto

lemma first_line_shorter: "first_line inp \<noteq> inp \<Longrightarrow> length (first_line inp) < length inp"
  by (induction inp) (auto split: if_splits)

lemma next_frame_Line_append:
  assumes "next_frame inp = Line line rest"
  shows "next_frame (inp @ tail) = Line line (rest @ tail)"
proof -
  from assms have neq: "first_line inp \<noteq> inp" and len: "\<not> max_line_bytes \<le> length (first_line inp)"
    and frame: "line = first_line inp" "rest = drop (length (first_line inp) + 1) inp"
    by (auto simp: next_frame_by_line [of inp] split: if_splits)
  have short: "length (first_line inp) < length inp" by (rule first_line_shorter [OF neq])
  have "first_line inp \<noteq> inp @ tail"
  proof
    assume "first_line inp = inp @ tail"
    then have "length (first_line inp) = length inp + length tail" by (simp only: length_append)
    with short show False by linarith
  qed
  with len short show ?thesis
    by (simp add: next_frame_by_line [of "inp @ tail"] first_line_append neq frame)
qed

lemma next_frame_TooLarge_append:
  assumes "next_frame inp = TooLarge"
  shows "next_frame (inp @ tail) = TooLarge"
proof -
  have "max_line_bytes \<le> length (first_line inp)"
    using assms by (simp add: next_frame_by_line [of inp] split: if_splits)
  moreover have "length (first_line inp) \<le> length (first_line (inp @ tail))"
    by (simp add: first_line_append)
  ultimately show ?thesis by (simp add: next_frame_by_line [of "inp @ tail"])
qed

lemma first_line_no_newline: "no_newline line \<Longrightarrow> first_line line = line"
  by (induction line) auto

lemma next_frame_line:
  assumes "no_newline line" and "length line < max_line_bytes"
  shows "next_frame (line @ newline @ rest) = Line line rest"
  using assms by (simp add: next_frame_by_line first_line_append first_line_no_newline)

lemma next_frame_rest:
  "no_newline rest \<Longrightarrow> length rest < max_line_bytes \<Longrightarrow> next_frame rest = NeedMore"
  by (simp add: next_frame_by_line first_line_no_newline)

section \<open>Splitting the input\<close>

lemma session_read_simps [simp]:
  "ss_state (session_read b ss) = ss_state ss" "ss_output (session_read b ss) = ss_output ss"
  "ss_input (session_read b ss) = ss_input ss @ b"
  by (simp_all add: session_read_def)

lemma session_read_append: "session_read b (session_read a ss) = session_read (a @ b) ss"
  by (simp add: session_read_def)

lemma serve_frame_read:
  assumes "\<not> loop_done ss"
  shows "serve_frame rd B e (d, session_read b ss) =
    (fst (serve_frame rd B e (d, ss)), session_read b (snd (serve_frame rd B e (d, ss))))"
proof (cases "next_frame (ss_input ss)")
  case NeedMore
  with assms show ?thesis by (simp add: loop_done_def)
next
  case TooLarge
  then show ?thesis by (simp add: serve_frame_def next_frame_TooLarge_append session_read_def)
next
  case (Line line rest)
  obtain out d1 where "answer_line rd B e line d = (out, d1)" by fastforce
  with Line show ?thesis
    by (cases out) (simp_all add: serve_frame_def next_frame_Line_append send_response_def
        session_read_def Let_def)
qed

lemma loop_done_read: "\<not> loop_done ss \<Longrightarrow> \<not> loop_done (session_read b ss)"
  by (cases "next_frame (ss_input ss)")
    (simp_all add: loop_done_def next_frame_TooLarge_append next_frame_Line_append)

lemma process_input_read:
  "process_input rd B envs n (d, session_read b ss) =
   (let (n1, d1, ss1) = process_input rd B envs n (d, ss)
    in process_input rd B envs n1 (d1, session_read b ss1))"
proof (induction rd B envs n "(d, ss)" arbitrary: d ss rule: process_input.induct)
  case (1 rd B envs n d ss)
  show ?case
  proof (cases "loop_done ss")
    case True
    then show ?thesis by (simp add: process_input.simps [of rd B envs n d ss])
  next
    case False
    obtain d1 ss1 where f: "serve_frame rd B (envs n) (d, ss) = (d1, ss1)" by fastforce
    have "process_input rd B envs n (d, session_read b ss) =
        process_input rd B envs (n + 1) (d1, session_read b ss1)"
      using False f by (subst process_input.simps) (simp add: loop_done_read serve_frame_read)
    also have "\<dots> = (let (n2, d2, ss2) = process_input rd B envs (n + 1) (d1, ss1)
        in process_input rd B envs n2 (d2, session_read b ss2))"
      using 1 [OF False f] by simp
    also have "process_input rd B envs (n + 1) (d1, ss1) = process_input rd B envs n (d, ss)"
      using False f by (simp add: process_input.simps [of rd B envs n d ss])
    finally show ?thesis .
  qed
qed

text \<open>
  Successive reads of a session, each followed by \<open>process_input\<close>. A blocked or finished
  session no longer reads; what it has not read is kept in its buffer here.
\<close>

fun read_chunks ::
  "(rat \<Rightarrow> rat) \<Rightarrow> 'b accelerator_backend \<Rightarrow> (nat \<Rightarrow> request_env) \<Rightarrow> string list \<Rightarrow>
   nat \<times> 'b daemon \<times> session \<Rightarrow> nat \<times> 'b daemon \<times> session" where
  "read_chunks rd B envs [] s = s"
| "read_chunks rd B envs (c # cs) (n, d, ss) =
     read_chunks rd B envs cs (process_input rd B envs n (d, session_read c ss))"

text \<open>
  C16: only the bytes matter. However a client's bytes are cut into reads, the session ends
  up with the same answers, the same state and the same effect on the daemon as if they
  had arrived in one read: no request is lost, doubled or changed at a boundary, and the
  line limit falls in the same place.
\<close>

theorem reads_do_not_matter:
  "read_chunks rd B envs (c # cs) (n, d, ss) =
   process_input rd B envs n (d, session_read (concat (c # cs)) ss)"
proof (induction cs arbitrary: c n d ss)
  case (Cons c' cs)
  obtain n1 d1 ss1 where p: "process_input rd B envs n (d, session_read c ss) = (n1, d1, ss1)"
    by (metis prod.exhaust)
  have "read_chunks rd B envs (c # c' # cs) (n, d, ss) =
      read_chunks rd B envs (c' # cs) (n1, d1, ss1)"
    by (simp add: p)
  also have "\<dots> = process_input rd B envs n1 (d1, session_read (concat (c' # cs)) ss1)"
    by (rule Cons.IH)
  also have "\<dots> = process_input rd B envs n (d, session_read (concat (c # c' # cs)) ss)"
    using process_input_read [of rd B envs n d "concat (c' # cs)" "session_read c ss"]
    by (simp add: p session_read_append)
  finally show ?case .
qed simp

section \<open>One answer for each line\<close>

text \<open>The reference: answer the lines one after the other until one blocks.\<close>

fun answer_lines ::
  "(rat \<Rightarrow> rat) \<Rightarrow> 'b accelerator_backend \<Rightarrow> (nat \<Rightarrow> request_env) \<Rightarrow> nat \<Rightarrow> string list \<Rightarrow>
   'b daemon \<Rightarrow> string list \<times> nat \<times> 'b daemon \<times> session_state \<times> string list" where
  "answer_lines rd B envs n [] d = ([], n, d, Reading, [])"
| "answer_lines rd B envs n (l # ls) d =
     (case answer_line rd B (envs n) l d of
        (Waits name p, d1) \<Rightarrow> ([], n + 1, d1, Blocked name p, ls)
      | (Respond r, d1) \<Rightarrow>
          (let d2 = note_metrics (mt_record_request (starts_with ''OK'' r)) d1
           in if \<not> re_delivered (envs n) then ([], n + 1, d2, Closed, ls)
              else let (rs, s) = answer_lines rd B envs (n + 1) ls d2 in (r # rs, s)))"

text \<open>
  C14: every request is answered once and in order. A buffer of whole lines within the
  limit is served as the reference serves the list of its lines: the session's output grows
  by exactly one response for each, until one of them blocks or cannot be sent, and what
  follows stays in the buffer.
\<close>

theorem lines_answered_in_order:
  assumes "list_all (\<lambda>l. no_newline l \<and> length l < max_line_bytes) ls"
    and "no_newline rest" and "length rest < max_line_bytes" and "ss_state ss = Reading"
  shows "process_input rd B envs n (d, ss\<lparr>ss_input := unlines ls @ rest\<rparr>) =
    (let (rs, n', d', st, left) = answer_lines rd B envs n ls d
     in (n', d', ss\<lparr>ss_input := unlines left @ rest, ss_output := ss_output ss @ concat rs,
                   ss_state := st\<rparr>))"
  using assms(1,4)
proof (induction ls arbitrary: n d ss)
  case Nil
  then show ?case
    using next_frame_rest [OF assms(2,3)] by (subst process_input.simps) (simp add: loop_done_def)
next
  case (Cons l ls)
  let ?ss = "ss\<lparr>ss_input := unlines (l # ls) @ rest\<rparr>"
  have swap: "ss\<lparr>ss_input := a, ss_output := b\<rparr> = ss\<lparr>ss_output := b, ss_input := a\<rparr>" for a b by simp
  have frame: "next_frame (l @ newline @ unlines ls @ rest) = Line l (unlines ls @ rest)"
    using Cons.prems by (intro next_frame_line) simp_all
  then have busy: "\<not> loop_done ?ss" using Cons.prems by (simp add: loop_done_def)
  obtain out d1 where out: "answer_line rd B (envs n) l d = (out, d1)" by fastforce
  let ?d2 = "\<lambda>r. note_metrics (mt_record_request (starts_with ''OK'' r)) d1"
  have step: "process_input rd B envs n (d, ?ss) = process_input rd B envs (n + 1)
      (case out of Waits name p \<Rightarrow> (d1, ss\<lparr>ss_input := unlines ls @ rest, ss_state := Blocked name p\<rparr>)
       | Respond r \<Rightarrow> (?d2 r, if re_delivered (envs n)
           then ss\<lparr>ss_input := unlines ls @ rest, ss_output := ss_output ss @ r\<rparr>
           else ss\<lparr>ss_input := unlines ls @ rest, ss_state := Closed\<rparr>))"
    using busy frame out
    by (subst process_input.simps) (simp add: serve_frame_def send_response_def
        split: dispatch_outcome.split)
  show ?case
  proof (cases out)
    case (Waits name p)
    with step out show ?thesis
      by (simp add: process_input.simps [of rd B envs "Suc n"] loop_done_def)
  next
    case (Respond r)
    show ?thesis
    proof (cases "re_delivered (envs n)")
      case True
      have "process_input rd B envs (n + 1)
          (?d2 r, ss\<lparr>ss_output := ss_output ss @ r, ss_input := unlines ls @ rest\<rparr>) =
        (let (rs, n', d', st, left) = answer_lines rd B envs (n + 1) ls (?d2 r)
         in (n', d', ss\<lparr>ss_input := unlines left @ rest,
            ss_output := ss_output ss @ r @ concat rs, ss_state := st\<rparr>))"
        using Cons.IH [of "ss\<lparr>ss_output := ss_output ss @ r\<rparr>" "n + 1" "?d2 r"] Cons.prems by simp
      with step out Respond True show ?thesis
        by (cases "answer_lines rd B envs (n + 1) ls (?d2 r)") (simp add: Let_def swap)
    next
      case False
      with step out Respond show ?thesis
        by (simp add: process_input.simps [of rd B envs "Suc n"] loop_done_def Let_def)
    qed
  qed
qed

theorem lines_answered_in_order_witness:
  "\<forall>e d. process_input id mock_ops (\<lambda>_. e) 0 (d, new_session\<lparr>ss_input := unlines [''bogus''] @ ''st''\<rparr>) =
    (let (rs, n', d', st, left) = answer_lines id mock_ops (\<lambda>_. e) 0 [''bogus''] d
     in (n', d', new_session\<lparr>ss_input := unlines left @ ''st'', ss_output := [] @ concat rs,
                   ss_state := st\<rparr>))"
  using lines_answered_in_order [of "[''bogus'']" "''st''" new_session id mock_ops]
  by (simp add: max_line_bytes_def new_session_def)

section \<open>The loop ends\<close>

definition turns_left :: "session \<Rightarrow> nat" where
  "turns_left ss = (if ss_state ss = Reading then length (ss_input ss) + 1 else 0)"

lemma serve_frame_turns:
  "\<not> loop_done ss \<Longrightarrow> turns_left (snd (serve_frame rd B e (d, ss))) < turns_left ss"
  by (auto simp: turns_left_def loop_done_def serve_frame_def send_response_def Let_def
      dest: next_frame_shorter split: frame.split dispatch_outcome.split prod.split)

text \<open>
  C37: serving ends. From any state of the daemon and of the session, the loop over the
  buffer stops, with the session over, blocked, or out of whole lines, after at most one
  turn for each buffered byte and one more.
\<close>

theorem process_input_stops:
  "\<exists>n' d' ss'. process_input rd B envs n (d, ss) = (n', d', ss') \<and> loop_done ss' \<and>
     n' \<le> n + length (ss_input ss) + 1"
proof -
  have ends: "\<exists>n' d' ss'. process_input rd B envs n (d, ss) = (n', d', ss') \<and> loop_done ss' \<and>
      n' \<le> n + turns_left ss"
  proof (induction rd B envs n "(d, ss)" arbitrary: d ss rule: process_input.induct)
    case (1 rd B envs n d ss)
    show ?case
    proof (cases "loop_done ss")
      case True
      then show ?thesis by (simp add: process_input.simps [of rd B envs n d ss])
    next
      case False
      obtain d1 ss1 where f: "serve_frame rd B (envs n) (d, ss) = (d1, ss1)" by fastforce
      from 1 [OF False f] obtain n' d' ss' where
        "process_input rd B envs (n + 1) (d1, ss1) = (n', d', ss')" "loop_done ss'"
        "n' \<le> n + 1 + turns_left ss1" by blast
      moreover have "turns_left ss1 < turns_left ss"
        using serve_frame_turns [OF False, of rd B "envs n" d] f by simp
      ultimately show ?thesis
        using False f by (simp add: process_input.simps [of rd B envs n d ss])
    qed
  qed
  have "turns_left ss \<le> length (ss_input ss) + 1" by (simp add: turns_left_def)
  then have "n + turns_left ss \<le> n + length (ss_input ss) + 1" by linarith
  with ends show ?thesis using le_trans by blast
qed

end
