(* ===== verification/ClientProperties.thy ===== *)
theory ClientProperties
  imports ResponseShapes ServerSessions
begin

text \<open>
  The properties of the client library and of gpumemctl: what the server understands of
  the commands they send, and which responses they deliver whole.
\<close>

section \<open>Commands\<close>

lemma show_nat_length: "k < 10 ^ j \<Longrightarrow> 0 < j \<Longrightarrow> length (show_nat k) \<le> j"
proof (induction k arbitrary: j rule: show_nat.induct)
  case (1 k)
  show ?case
  proof (cases "k < 10")
    case True
    with 1 show ?thesis by (subst show_nat.simps) simp
  next
    case False
    with 1(2) obtain i where j: "j = Suc i" "0 < i" by (cases j; cases "j - 1") auto
    with 1(2) have "k div 10 < 10 ^ i" by (simp add: less_mult_imp_div_less mult.commute)
    with 1(1) [OF False this j(2)] j False show ?thesis by (subst show_nat.simps) simp
  qed
qed

lemma parse_join: "list_all (is_token is_blank) ts \<Longrightarrow> parse_command (join_tokens ts) = parse_tokens ts"
  by (simp add: parse_command_def tokenize_join)

lemma acquire_command_tokens:
  "acquire_command name n opts = join_tokens
     ([''acquire'', name, show_u64 n, show_int (ao_priority opts)] @
      (if ao_timeout opts \<noteq> ms_max then
         show_int (ao_timeout opts) # (if ao_cost opts \<noteq> 0 then [show_int (ao_cost opts)] else [])
       else []))"
  by (simp add: acquire_command_def)

lemma verb_token [simp]:
  "is_token is_blank ''acquire''" "is_token is_blank ''try_acquire''" "is_token is_blank ''release''"
  "is_token is_blank ''load''" "is_token is_blank ''unload''" "is_token is_blank ''share''"
  "is_token is_blank ''nodes''" "is_token is_blank ''status''"
  by (simp_all add: is_token_def is_blank_def)

text \<open>
  C29: what the server understands of a client's acquire. The request arrives with its
  name, size and priority; its timeout and its estimated cost arrive together only when one
  of them is the default: with both given the server takes the timeout for unbounded, and
  with an unbounded timeout the cost is not sent.
\<close>

theorem acquire_options_received:
  assumes "rm_valid_name name" and "n \<noteq> 0"
    and "- (2 ^ 31) \<le> ao_priority opts" and "ao_priority opts < 2 ^ 31"
    and "0 \<le> ao_timeout opts" and "ao_timeout opts \<le> ms_max"
    and "0 \<le> ao_cost opts" and "ao_cost opts \<le> ms_max"
  shows "parse_command (acquire_command name n opts) = parsed (empty_command\<lparr>
    cm_type := command_type.Acquire, cm_name := name, cm_bytes := n, cm_mode := Wait,
    cm_options := opts\<lparr>
      ao_timeout := (if ao_timeout opts \<noteq> ms_max \<and> ao_cost opts \<noteq> 0 then ms_max else ao_timeout opts),
      ao_cost := (if ao_timeout opts = ms_max then 0 else ao_cost opts)\<rparr>\<rparr>)"
proof -
  let ?args = "[name, show_u64 n, show_int (ao_priority opts)] @
      (if ao_timeout opts \<noteq> ms_max then
         show_int (ao_timeout opts) # (if ao_cost opts \<noteq> 0 then [show_int (ao_cost opts)] else [])
       else [])"
  have "parse_command (acquire_command name n opts) = parse_tokens (''acquire'' # ?args)"
    unfolding acquire_command_tokens append_Cons append_Nil
    by (rule parse_join) (simp add: name_blank_token [OF assms(1)])
  also have "\<dots> = parse_acquire ?args" by (simp add: parse_tokens_def)
  also have "parse_acquire_options ?args = Some (opts\<lparr>
      ao_timeout := (if ao_timeout opts \<noteq> ms_max \<and> ao_cost opts \<noteq> 0 then ms_max else ao_timeout opts),
      ao_cost := (if ao_timeout opts = ms_max then 0 else ao_cost opts)\<rparr>)"
    using assms(3-) by (simp add: parse_acquire_options_def parse_priority_show parse_timeout_show)
  then have "parse_acquire ?args = parsed (empty_command\<lparr>
      cm_type := command_type.Acquire, cm_name := name, cm_bytes := n, cm_mode := Wait,
      cm_options := opts\<lparr>
        ao_timeout := (if ao_timeout opts \<noteq> ms_max \<and> ao_cost opts \<noteq> 0 then ms_max else ao_timeout opts),
        ao_cost := (if ao_timeout opts = ms_max then 0 else ao_cost opts)\<rparr>\<rparr>)"
    using assms(1,2) by (simp add: parse_acquire_def validators_agree parse_size_show)
  finally show ?thesis .
qed

theorem acquire_options_received_witness:
  "ao_timeout (cm_options (pa_command (parse_command
     (acquire_command ''a'' 5 \<lparr>ao_priority = 1, ao_timeout = 0, ao_cost = 7\<rparr>)))) = ms_max"
  using acquire_options_received [of "''a''" 5 "\<lparr>ao_priority = 1, ao_timeout = 0, ao_cost = 7\<rparr>"]
  by (simp add: rm_valid_name_def ms_max_def)

text \<open>
  The other commands of the library are understood as they were meant, for every valid
  name and size.
\<close>

theorem client_commands_understood:
  assumes "rm_valid_name name" and "n \<noteq> 0"
  shows "parse_command (try_acquire_command name n) = parsed (empty_command\<lparr>
      cm_type := command_type.Acquire, cm_name := name, cm_bytes := n, cm_mode := Try,
      cm_options := default_options\<lparr>ao_priority := 0, ao_timeout := 0\<rparr>\<rparr>) \<and>
    parse_command (release_command name) =
      parsed (empty_command\<lparr>cm_type := command_type.Release, cm_name := name\<rparr>) \<and>
    parse_command (load_command name) =
      parsed (empty_command\<lparr>cm_type := command_type.LoadModel, cm_name := name\<rparr>) \<and>
    parse_command (unload_command name) =
      parsed (empty_command\<lparr>cm_type := command_type.UnloadModel, cm_name := name\<rparr>) \<and>
    parse_command (share_command name) =
      parsed (empty_command\<lparr>cm_type := command_type.Share, cm_name := name\<rparr>)"
proof -
  note tok = name_blank_token [OF assms(1)]
  have named: "parse_command (verb @ '' '' @ name) = parse_tokens [verb, name]"
    if "is_token is_blank verb" for verb
    using parse_join [of "[verb, name]"] that tok by simp
  have "parse_command (try_acquire_command name n) = parse_tokens [''try_acquire'', name, show_u64 n]"
    using parse_join [of "[''try_acquire'', name, show_u64 n]"] tok
    by (simp add: try_acquire_command_def)
  then show ?thesis
    using assms named [of "''release''"] named [of "''load''"] named [of "''unload''"]
      named [of "''share''"]
    by (simp add: release_command_def load_command_def unload_command_def share_command_def
        parse_tokens_def parse_try_acquire_def parse_named_def validators_agree parse_size_show)
qed

theorem client_commands_understood_witness:
  "cm_bytes (pa_command (parse_command (try_acquire_command ''a'' 5))) = 5"
  using client_commands_understood [of "''a''" 5] by (simp add: rm_valid_name_def)

lemma stream_words_line: "list_all (is_token is_space) ts \<Longrightarrow> stream_words (join_tokens ts @ newline) = ts"
proof -
  have sp: "is_space (CHR '' '')" "is_space (CHR 0x0A)" by (simp_all add: is_space_def)
  show "list_all (is_token is_space) ts \<Longrightarrow> stream_words (join_tokens ts @ newline) = ts"
    unfolding stream_words_def
  proof (induction ts rule: join_tokens.induct)
    case (2 t)
    then show ?case using split_on_token [of is_space t newline] sp by (simp add: split_on_separator)
  next
    case (3 t u ts)
    then show ?case
      using split_on_token [of is_space t "'' '' @ join_tokens (u # ts) @ newline"] sp
      by (simp add: split_on_separator)
  qed (simp add: split_on_separator sp)
qed

text \<open>
  A share token survives the wire: what the daemon answers to \<open>share\<close> for a hexadecimal
  token is read back by the client with the same bytes and the same token.
\<close>

theorem share_response_roundtrip:
  assumes "rm_valid_name name" and "ms_error r = model_error.NoError"
    and "ms_token r \<noteq> []" and "list_all is_xdigit (ms_token r)"
  shows "parse_share_response (format_share_result name r) =
    Some \<lparr>sd_bytes = ms_amount r, sd_token = ms_token r\<rparr>"
proof -
  have x: "\<not> is_space c" if "is_xdigit c" for c
    using that by (auto simp: is_xdigit_def is_space_def less_eq_char_def)
  have tok: "is_token is_space (ms_token r)"
    using assms(3,4) x by (auto simp: is_token_def list_all_iff)
  have "format_share_result name r =
      join_tokens [''OK'', ''shared'', name, show_u64 (ms_amount r), ms_token r] @ newline"
    using assms(2) by (simp add: format_share_result_def)
  moreover have "list_all (is_token is_space) [''OK'', ''shared'', name, show_u64 (ms_amount r), ms_token r]"
    using tok name_token [OF assms(1)] show_token by (simp add: is_token_def is_space_def)
  ultimately have words: "stream_words (format_share_result name r) =
      [''OK'', ''shared'', name, show_u64 (ms_amount r), ms_token r]" by (simp only: stream_words_line)
  show ?thesis
    using assms(3,4) by (simp add: parse_share_response_def words from_chars_show)
qed

theorem share_response_roundtrip_witness:
  "parse_share_response (format_share_result ''m''
     \<lparr>ms_error = model_error.NoError, ms_amount = 12, ms_token = ''0aF''\<rparr>) =
   Some \<lparr>sd_bytes = 12, sd_token = ''0aF''\<rparr>"
  using share_response_roundtrip [of "''m''" "\<lparr>ms_error = model_error.NoError, ms_amount = 12, ms_token = ''0aF''\<rparr>"]
  by (simp add: rm_valid_name_def is_xdigit_def)

section \<open>Responses\<close>

text \<open>The listing verbs, and what the parser makes of them.\<close>

definition listing_verbs :: "string set" where
  "listing_verbs = {''status'', ''residency'', ''metrics'', ''nodes''}"

lemma branch_types:
  "pa_ok (parse_plain ty args) \<Longrightarrow> cm_type (pa_command (parse_plain ty args)) = ty"
  "pa_ok (parse_named ty e args) \<Longrightarrow> e \<noteq> parse_error.NoError \<Longrightarrow>
     cm_type (pa_command (parse_named ty e args)) = ty"
  "pa_ok (parse_node_register args) \<Longrightarrow>
     cm_type (pa_command (parse_node_register args)) = command_type.RegisterNode"
  "pa_ok (parse_register args) \<Longrightarrow>
     cm_type (pa_command (parse_register args)) = command_type.RegisterModel"
  "pa_ok (parse_register_file args) \<Longrightarrow>
     cm_type (pa_command (parse_register_file args)) = command_type.RegisterFile"
  "pa_ok (parse_try_acquire args) \<Longrightarrow>
     cm_type (pa_command (parse_try_acquire args)) = command_type.Acquire"
  "pa_ok (parse_acquire args) \<Longrightarrow> cm_type (pa_command (parse_acquire args)) = command_type.Acquire"
  by (auto simp: parse_branch_defs pa_ok_def parse_fail_def empty_command_def
      split: if_splits option.splits)

definition verb_type_ok :: "string \<Rightarrow> parse_result \<Rightarrow> bool" where
  "verb_type_ok verb r \<longleftrightarrow> (pa_ok r \<longrightarrow>
     (lists_entries (cm_type (pa_command r)) \<longleftrightarrow> verb \<in> listing_verbs) \<and>
     (cm_type (pa_command r) = command_type.Models \<longleftrightarrow> verb = ''models'') \<and>
     (cm_type (pa_command r) = command_type.Nodes \<longleftrightarrow> verb = ''nodes''))"

lemma verb_type: "verb_type_ok verb (parse_tokens (verb # args))"
proof -
  have fail: "verb_type_ok verb (parse_fail parse_error.InvalidRequest)"
    by (simp add: verb_type_ok_def pa_ok_def parse_fail_def)
  have step: "verb_type_ok verb (if verb = v then r else r')"
    if "verb = v \<Longrightarrow> verb_type_ok v r" "verb_type_ok verb r'" for v r r'
    using that by simp
  have branch: "verb_type_ok v r"
    if "pa_ok r \<Longrightarrow> cm_type (pa_command r) = ty" "lists_entries ty \<longleftrightarrow> v \<in> listing_verbs"
      "ty = command_type.Models \<longleftrightarrow> v = ''models''" "ty = command_type.Nodes \<longleftrightarrow> v = ''nodes''" for v r ty
    using that by (simp add: verb_type_ok_def)
  show ?thesis
    unfolding parse_tokens_def list.case
    by (intro step fail; rule branch, erule branch_types)
      (simp_all add: lists_entries_def listing_verbs_def)
qed

lemma is_multiline_tokens:
  assumes "is_token is_blank verb" and "rest = [] \<or> is_blank (hd rest)"
  shows "is_multiline (verb @ rest) \<longleftrightarrow> verb \<in> listing_verbs \<or> verb = ''models''"
  using token_split(1) [OF assms] by (auto simp: is_multiline_def listing_verbs_def)

lemma join_tokens_Cons: "join_tokens (t # ts) = t @ (if ts = [] then [] else '' '' @ join_tokens ts)"
  by (cases ts) simp_all

lemma is_multiline_join:
  assumes "list_all (is_token is_blank) (verb # args)"
  shows "is_multiline (join_tokens (verb # args)) \<longleftrightarrow> verb \<in> listing_verbs \<or> verb = ''models''"
  using is_multiline_tokens [of verb "if args = [] then [] else '' '' @ join_tokens args"] assms
  by (simp add: join_tokens_Cons is_blank_def split: if_splits)

lemma joined_tokens_line:
  assumes "list_all (is_token is_space) ts" and "ts \<noteq> []"
  shows "no_newline (join_tokens ts)" and "strip_cr (join_tokens ts) = join_tokens ts"
    and "join_tokens ts \<noteq> []"
proof -
  have sp: "is_space (CHR 0x0A)" "is_space (CHR 0x0D)" by (simp_all add: is_space_def)
  have tok: "no_newline t \<and> last t \<noteq> CHR 0x0D \<and> t \<noteq> []" if "is_token is_space t" for t
  proof -
    have t: "t \<noteq> []" "\<And>c. c \<in> set t \<Longrightarrow> \<not> is_space c" using that by (simp_all add: is_token_def list_all_iff)
    with sp last_in_set [OF t(1)] show ?thesis unfolding no_newline_def by metis
  qed
  show "no_newline (join_tokens ts)" using assms(1)
    by (induction ts rule: join_tokens.induct) (simp_all add: tok)
  have "join_tokens ts \<noteq> [] \<and> last (join_tokens ts) \<noteq> CHR 0x0D" using assms
    by (induction ts rule: join_tokens.induct) (simp_all add: tok)
  then show "strip_cr (join_tokens ts) = join_tokens ts" and "join_tokens ts \<noteq> []"
    by (simp_all add: strip_cr_def)
qed

lemma answer_framed_for_client:
  assumes books: "rz_books (dm_world d)" "nodes_ok d" and tok: "token_lines B"
    and ts: "list_all (is_token is_space) ts" "ts = verb # args" "verb \<noteq> ''models''"
    and ans: "answer_line rd B e (join_tokens ts) d = (Respond r, d')"
  shows "framed (is_multiline (join_tokens ts)) r"
proof -
  have blank: "list_all (is_token is_blank) ts"
    using ts(1) by (auto simp: list_all_iff dest: space_token_blank)
  have parse: "parse_command (strip_cr (join_tokens ts)) = parse_tokens (verb # args)"
    using joined_tokens_line(2) [OF ts(1)] parse_join [OF blank] ts(2) by simp
  have multi: "is_multiline (join_tokens ts) \<longleftrightarrow> verb \<in> listing_verbs"
    using is_multiline_join [of verb args] blank ts(2,3) by simp
  show ?thesis
  proof (cases "pa_ok (parse_tokens (verb # args))")
    case True
    then have "lists_entries (cm_type (pa_command (parse_tokens (verb # args)))) \<longleftrightarrow> verb \<in> listing_verbs"
      "cm_type (pa_command (parse_tokens (verb # args))) \<noteq> command_type.Models"
      using verb_type [of verb args] ts(3) by (simp_all add: verb_type_ok_def)
    with answer_framed [OF books tok _ ans] True show ?thesis by (simp add: parse multi)
  next
    case False
    then have "r = format_parse_error (pa_error (parse_tokens (verb # args)))"
      using ans by (simp add: answer_line_def Let_def parse)
    with False show ?thesis by (simp add: framed_parse_error pa_ok_def)
  qed
qed

lemma framed_not_Nil: "framed m r \<Longrightarrow> r \<noteq> []"
  by (auto simp: framed_def single_line_def starts_with_def split: if_splits)

lemma request_delivers:
  assumes "connect_socket path conn" and "no_newline command" and "command \<noteq> []"
    and "snd (write_all (cn_writes conn) (command @ newline)) = Some True"
    and "stream_of (cn_reads conn) = Some r" and "framed (is_multiline command) r"
  shows "client_request path conn command = (command @ newline, Some
    \<lparr>cr_error = (if starts_with ''OK '' r then client_error.NoError else client_error.BrokerRejected),
     cr_payload = r\<rparr>)"
proof -
  obtain sent where w: "write_all (cn_writes conn) (command @ newline) = (sent, Some True)"
    using assms(4) by (metis prod.collapse)
  then have sent: "sent = command @ newline"
    using write_all_prefix [of "command @ newline" "cn_writes conn"] by simp
  have rd: "read_response (is_multiline command) (cn_reads conn) [] = Some (True, r)"
    using read_response_exact [OF assms(6,5), of "[]"] framed_not_Nil [OF assms(6)] by simp
  have "\<not> starts_with ''ERR '' r" if "starts_with ''OK '' r"
    using that by (auto simp: starts_with_iff)
  moreover have "starts_with ''OK '' r \<or> starts_with ''ERR '' r" using assms(6) by (simp add: framed_def)
  ultimately show ?thesis
    using assms(1-3) w rd sent by (auto simp: client_request_def no_newline_def)
qed

text \<open>
  A listing of models can be cut short. A model's line ends with the path of its file;
  when a path ends in END, the line looks like the end of the listing, and a client whose
  read ends there returns the part before it as the whole.
\<close>

theorem models_listing_cut_short:
  assumes "ms_models s = xs @ m # ys" and "ends_with ''END'' (md_source_path m)"
  shows "\<exists>p q. format_models s = p @ q \<and> q \<noteq> [] \<and>
    read_response True [Chunk p, Chunk q] [] = Some (True, p)"
proof -
  let ?f = "\<lambda>m. ''MODEL '' @ md_id m @ '' '' @ md_metadata m @ '' '' @
         show_u64 (md_footprint m) @ '' '' @ show_u64 (md_ref_count m) @ '' '' @
         show_u64 (md_last_access m) @
         (if md_source_path m \<noteq> [] then '' '' @ md_source_path m else []) @ newline"
  let ?h = "''OK models '' @ show_nat (length (ms_models s)) @ newline"
  let ?p = "?h @ concat (map ?f xs) @ ?f m" and ?q = "concat (map ?f ys) @ ''END'' @ newline"
  from assms(2) obtain u where u: "md_source_path m = u @ ''END''" by (auto simp: ends_with_iff)
  have "format_models s = ?h @ concat (map ?f (xs @ m # ys)) @ ''END'' @ newline"
    unfolding format_models_def assms(1) append_assoc by (rule refl)
  also have "\<dots> = ?p @ ?q" by simp
  finally have split: "format_models s = ?p @ ?q" .
  have "\<exists>v. ?p = v @ ''END'' @ newline" by (simp add: u)
  then have "ends_with (''END'' @ newline) ?p" unfolding ends_with_iff .
  then have "read_response True [Chunk ?p, Chunk ?q] [] = Some (True, ?p)"
    by (simp add: response_complete_def)
  with split show ?thesis by (intro exI [of _ ?p] exI [of _ ?q]) simp
qed

theorem models_listing_cut_short_witness:
  "\<exists>p q. format_models (mr_snapshot \<lparr>mr_models = [(''a'', \<lparr>md_id = ''a'', md_metadata = ''x'',
      md_footprint = 1, md_ref_count = 0, md_last_access = 0, md_source_path = ''/END''\<rparr>)],
      mr_next_access = 0\<rparr>) = p @ q \<and> q \<noteq> [] \<and>
    read_response True [Chunk p, Chunk q] [] = Some (True, p)"
  by (rule models_listing_cut_short [of _ "[]" _ "[]"], simp add: mr_snapshot_def,
      simp add: ends_with_def)

text \<open>
  Gpumemctl prints the listing of nodes only as far as its first read goes. It does not
  count \<open>nodes\<close> among the listings, so it stops at the first chunk that holds a line break
  and reports success, whatever the daemon still sends.
\<close>

theorem ctl_nodes_stops_early:
  assumes "starts_with ''OK '' first_read" and "CHR 0x0A \<in> set first_read"
  shows "ctl_main \<lparr>cn_accepted = True, cn_writes = [Wrote 6], cn_reads = Chunk first_read # rest\<rparr>
      [''--socket'', ''/s'', ''nodes''] =
    (''nodes'' @ newline, Some \<lparr>co_status = 0, co_stdout = first_read, co_stderr = []\<rparr>)"
proof -
  have "parse_command ''nodes'' = parsed (empty_command\<lparr>cm_type := command_type.Nodes\<rparr>)"
    using parse_join [of "[''nodes'']"] by (simp add: parse_tokens_def parse_plain_def)
  with assms show ?thesis
    by (simp add: ctl_main_def ctl_join_def ctl_connect_socket_def sun_path_size_def pa_ok_def
        ctl_multiline_def response_complete_def)
qed

theorem ctl_nodes_stops_early_witness:
  "ctl_main \<lparr>cn_accepted = True, cn_writes = [Wrote 6],
        cn_reads = [Chunk (''OK nodes 1'' @ newline), Chunk (''NODE a b 1 0 healthy'' @ newline)]\<rparr>
      [''--socket'', ''/s'', ''nodes''] =
    (''nodes'' @ newline, Some \<lparr>co_status = 0, co_stdout = ''OK nodes 1'' @ newline, co_stderr = []\<rparr>)"
  by (rule ctl_nodes_stops_early) (simp_all add: starts_with_def)

end
