(* ===== verification/ServerProperties.thy ===== *)
theory ServerProperties
  imports ClientProperties ResourceProperties
begin

text \<open>
  The properties of the server as a whole: it drives the components only through their own
  steps, blocked sessions and queued requests belong together, and what shutting down does
  to the sessions that wait.
\<close>

section \<open>The server and the components\<close>

text \<open>
  C21: the daemon adds nothing to its components. Whatever clients connect, send, wait for
  and leave, in any interleaving of their sessions and of the halves of a load, the
  components have gone through an execution of the residency machine from its start; so
  what holds of its executions holds of the daemon.
\<close>

theorem server_runs_components:
  assumes "reliable_backend B binv held" and "server_start binv held sv"
    and "run (server_step rd B) sv ls sv'"
  shows "rz_reachable B binv held rd (server_rz sv')"
  by (rule reliable_backend.server_reachable(2) [OF assms])

theorem server_runs_components_witness:
  "mock_reachable id (server_rz (demo_server\<lparr>sv_sessions := [new_session]\<rparr>))"
proof -
  have "server_step id mock_ops demo_server SvAccept
      (demo_server\<lparr>sv_sessions := sv_sessions demo_server @ [new_session]\<rparr>)"
    by (rule sv_accept) (simp_all add: demo_server_def)
  then have "run (server_step id mock_ops) demo_server [SvAccept]
      (demo_server\<lparr>sv_sessions := [new_session]\<rparr>)"
    by (auto simp: demo_server_def)
  from server_runs_components [OF mock_contract demo_server_start this] show ?thesis .
qed

lemma waiting_session:
  assumes "owners (resources d) ss" and "rm_good (resources d)"
    and "i < length ss" and "ss_state (ss ! i) = Blocked name p"
  shows "pr_name (rm_requests (resources d) p) = name \<and>
    (p \<in> set (rm_pending (resources d)) \<longleftrightarrow> \<not> pr_completed (rm_requests (resources d) p))"
proof -
  have "p < rm_next_ptr (resources d) \<and> pr_name (rm_requests (resources d) p) = name"
    using owner_request [OF assms(1,3)] assms(4) by (simp add: waits_for_Some)
  moreover from this have "p \<notin> set (rm_pending (resources d)) \<longrightarrow>
      pr_completed (rm_requests (resources d) p)"
    using assms(2) by (simp add: rm_good_def rm_inv_def rm_queue_def)
  ultimately show ?thesis using pending_open [OF assms(2), of p] by blast
qed

text \<open>A wake-up of a request that is no longer queued returns with its result, whatever the clock shows.\<close>

lemma unqueued_wake:
  assumes "owners (resources d) sss" and "rm_good (resources d)" and "i < length sss"
    and "ss_state (sss ! i) = Blocked name p" and "p \<notin> set (rm_pending (resources d))"
  shows "session_wake e (d, sss ! i) =
    session_resume e name (pr_result (rm_requests (resources d) p)) (d, sss ! i)"
proof -
  have "pr_completed (rm_requests (resources d) p)"
    using waiting_session [OF assms(1-4)] assms(5) by blast
  then have "acquire_poll (re_now e) p (resources d) =
      (Some (pr_result (rm_requests (resources d) p)), resources d)"
    by (simp add: acquire_poll_def)
  with assms(4) show ?thesis by (simp add: session_wake_def)
qed

text \<open>
  C12: waiting sessions and queued requests match. In every reachable state each queued
  request has exactly one session blocked on it, under the name the session asked for, and
  a blocked session's request is still queued or has its result ready, so no grant goes to
  a request nobody waits for.
\<close>

theorem queued_requests_have_sessions:
  assumes "reliable_backend B binv held" and "server_start binv held sv0"
    and "run (server_step rd B) sv0 ls sv"
  shows "(\<forall>p \<in> set (rm_pending (resources (sv_daemon sv))). \<exists>!i. i < length (sv_sessions sv) \<and>
      ss_state (sv_sessions sv ! i) =
        Blocked (pr_name (rm_requests (resources (sv_daemon sv)) p)) p) \<and>
    (\<forall>i < length (sv_sessions sv). \<forall>name p. ss_state (sv_sessions sv ! i) = Blocked name p \<longrightarrow>
      pr_name (rm_requests (resources (sv_daemon sv)) p) = name \<and>
      (p \<in> set (rm_pending (resources (sv_daemon sv))) \<longleftrightarrow>
        \<not> pr_completed (rm_requests (resources (sv_daemon sv)) p)))"
proof -
  let ?rm = "resources (sv_daemon sv)" and ?ss = "sv_sessions sv"
  note inv = reliable_backend.server_reachable(1) [OF assms]
  note own = reliable_backend.server_inv_parts(3) [OF assms(1) inv]
    and good = reliable_backend.server_inv_good [OF assms(1) inv]
  have one: "\<exists>!i. i < length ?ss \<and> ss_state (?ss ! i) = Blocked (pr_name (rm_requests ?rm p)) p"
    if p: "p \<in> set (rm_pending ?rm)" for p
  proof -
    from owner_exists [OF own p] obtain i name
      where i: "i < length ?ss" "waits_for (?ss ! i) = Some (name, p)" by blast
    then have "ss_state (?ss ! i) = Blocked (pr_name (rm_requests ?rm p)) p"
      using owner_request [OF own i] by (simp add: waits_for_Some)
    moreover have "j = i" if "j < length ?ss" "ss_state (?ss ! j) = Blocked name' p" for j name'
      using owner_unique [OF own i that(1)] that(2) by (simp add: waits_for_Some)
    ultimately show ?thesis using i(1) by blast
  qed
  have "pr_name (rm_requests ?rm p) = name \<and>
      (p \<in> set (rm_pending ?rm) \<longleftrightarrow> \<not> pr_completed (rm_requests ?rm p))"
    if "i < length ?ss" "ss_state (?ss ! i) = Blocked name p" for i name p
    using waiting_session [OF own good that] .
  with one show ?thesis by blast
qed

section \<open>Shutting down\<close>

text \<open>
  Shutting down releases every session that waits. After the waiters are cancelled the
  next wake-up of a session that was blocked returns: the session stops waiting, whatever
  the clock shows.
\<close>

theorem shutdown_releases_waiters:
  assumes "reliable_backend B binv held" and "server_start binv held sv0"
    and "run (server_step rd B) sv0 ls sv"
    and "sv_phase sv = Accepting" and "server_step rd B sv SvShutDown sv'"
    and "i < length (sv_sessions sv')" and "ss_state (sv_sessions sv' ! i) = Blocked name p"
  shows "\<exists>d. session_wake e (sv_daemon sv', sv_sessions sv' ! i) =
    session_resume e name (pr_result (rm_requests (resources (sv_daemon sv')) p))
      (d, sv_sessions sv' ! i) \<and> dm_world d = dm_world (sv_daemon sv')"
proof -
  let ?rm = "resources (sv_daemon sv')"
  have sv': "sv' = server_cancel sv" using assms(5) by cases simp
  have "run (server_step rd B) sv0 (ls @ [SvShutDown]) sv'"
    by (rule run_snoc [OF assms(3,5)])
  note inv = reliable_backend.server_reachable(1) [OF assms(1,2) this]
  note own = reliable_backend.server_inv_parts(3) [OF assms(1) inv]
    and good = reliable_backend.server_inv_good [OF assms(1) inv]
  have "p \<notin> set (rm_pending ?rm)" by (simp add: sv' server_cancel_def rm_cancel_waiters_def)
  from unqueued_wake [OF own good assms(6,7) this] show ?thesis by blast
qed

section \<open>A shutdown that does not end\<close>

text \<open>
  One session has sent three acquires at once to a daemon of 100 bytes. \<open>rm_c\<close> is the
  resource manager when the first holds everything, the second has been cancelled and the
  third is queued.
\<close>

definition hang_request :: "string \<Rightarrow> 64 word \<Rightarrow> pending_request" where
  "hang_request name seq = empty_request\<lparr>pr_name := name, pr_bytes := 50, pr_sequence := seq\<rparr>"

definition rm_a :: resource_manager where
  "rm_a = (rw_resources demo_world)\<lparr>rm_reservations := [(''a'', 100)], rm_used := 100\<rparr>"

definition rm_b :: resource_manager where
  "rm_b = rm_a\<lparr>rm_pending := [0], rm_next_sequence := 1, rm_next_ptr := 1,
     rm_requests := (\<lambda>_. empty_request)(0 := hang_request ''b'' 0)\<rparr>"

definition rm_c :: resource_manager where
  "rm_c = rm_a\<lparr>rm_pending := [1], rm_next_sequence := 2, rm_next_ptr := 2,
     rm_requests := (\<lambda>_. empty_request)
       (0 := complete_with (op_fail error_code.Timeout) (hang_request ''b'' 0),
        1 := hang_request ''c'' 1)\<rparr>"

definition hang_state ::
  "resource_manager \<Rightarrow> metrics \<Rightarrow> session \<Rightarrow> bool \<Rightarrow> server_phase \<Rightarrow> mock_backend server" where
  "hang_state rm m ss stop phase = \<lparr>sv_daemon = \<lparr>dm_world = demo_world\<lparr>rw_resources := rm\<rparr>,
       dm_metrics = Some m, dm_nodes = Some nr_new\<rparr>,
     sv_sessions = [ss], sv_stop = stop, sv_phase = phase, sv_load = None\<rparr>"

definition hang_line :: "string \<Rightarrow> bytes \<Rightarrow> string" where
  "hang_line name n = acquire_command name n default_options"

lemma hang_line_tokens:
  assumes "rm_valid_name name"
  shows "hang_line name n = join_tokens [''acquire'', name, show_u64 n, show_int 0]"
    and "list_all (is_token is_space) [''acquire'', name, show_u64 n, show_int 0]"
  using name_token [OF assms] show_token show_int_token
  by (simp_all add: hang_line_def acquire_command_tokens default_options_def is_token_def is_space_def)

lemma hang_line_length:
  assumes "rm_valid_name name"
  shows "length (hang_line name n) < 100"
proof -
  note h = hang_line_tokens [OF assms, of n]
  have "unat n < 10 ^ 20" using unat_le_u64_max [of n] by (simp add: u64_max_def)
  then have "length (show_u64 n) \<le> 20" "length (show_int 0) \<le> 1"
    by (simp_all add: show_u64_def show_int_def show_nat_length)
  moreover have "length name \<le> 64" using assms by (simp add: rm_valid_name_def split: if_splits)
  ultimately show ?thesis by (simp add: h(1))
qed

lemma hang_frame:
  assumes "rm_valid_name name"
  shows "next_frame (hang_line name n @ newline @ rest) = Line (hang_line name n) rest"
proof -
  note h = hang_line_tokens [OF assms, of n]
  have "no_newline (hang_line name n)"
    unfolding h(1) by (rule joined_tokens_line(1) [OF h(2)]) simp
  then show ?thesis
    using hang_line_length [OF assms, of n] by (intro next_frame_line) (simp_all add: max_line_bytes_def)
qed

lemma hang_parse:
  assumes "rm_valid_name name" and "n \<noteq> 0"
  shows "parse_command (strip_cr (hang_line name n)) = parsed (empty_command\<lparr>
      cm_type := command_type.Acquire, cm_name := name, cm_bytes := n, cm_mode := Wait,
      cm_options := default_options\<rparr>)"
proof -
  note h = hang_line_tokens [OF assms(1), of n]
  have "strip_cr (hang_line name n) = hang_line name n"
    unfolding h(1) by (rule joined_tokens_line(2) [OF h(2)]) simp
  then show ?thesis
    using assms parse_join [of "[''acquire'', name, show_u64 n, show_int 0]"] name_blank_token
    by (simp add: h(1) parse_tokens_def parse_acquire_def parse_acquire_options_def validators_agree
        parse_size_show parse_priority_show default_options_def)
qed

lemma hang_answer:
  assumes "rm_valid_name name" and "n \<noteq> 0"
  shows "answer_line rd B e (hang_line name n) d = dispatch_acquire e (empty_command\<lparr>
      cm_type := command_type.Acquire, cm_name := name, cm_bytes := n, cm_mode := Wait,
      cm_options := default_options\<rparr>) d"
  by (simp add: answer_line_def hang_parse [OF assms] pa_ok_def dispatch_def)

text \<open>The server with the session at a line \<open>acquire\<close>: the request waits, or is granted.\<close>

lemma hang_serve:
  assumes "rm_valid_name name" and "n \<noteq> 0"
    and ss: "ss = \<lparr>ss_input = hang_line name n @ newline @ rest, ss_output = out, ss_state = Reading\<rparr>"
  shows "acquire_enter 0 name n default_options rm = (Waiting p, rm') \<Longrightarrow>
      server_step id mock_ops (hang_state rm m ss stop phase) (SvServe 0 demo_env)
        (hang_state rm' m \<lparr>ss_input = rest, ss_output = out, ss_state = Blocked name p\<rparr> stop phase)"
    and "acquire_enter 0 name n default_options rm = (Returned r, rm') \<Longrightarrow> \<exists>m' out'.
      server_step id mock_ops (hang_state rm m ss stop phase) (SvServe 0 demo_env)
        (hang_state rm' m' \<lparr>ss_input = rest, ss_output = out', ss_state = Reading\<rparr> stop phase)"
proof -
  let ?sv = "hang_state rm m ss stop phase"
  have frame: "next_frame (ss_input ss) = Line (hang_line name n) rest"
    using hang_frame [OF assms(1)] by (simp add: ss)
  then have step: "server_step id mock_ops ?sv (SvServe 0 demo_env)
      (put_session 0 (serve_frame id mock_ops demo_env (sv_daemon ?sv, ss)) ?sv)"
    by (intro sv_serve)
      (simp_all add: hang_state_def loop_done_def load_next_def next_command_def Let_def
        hang_parse [OF assms(1,2)] ss pa_ok_def)
  show "server_step id mock_ops ?sv (SvServe 0 demo_env)
      (hang_state rm' m \<lparr>ss_input = rest, ss_output = out, ss_state = Blocked name p\<rparr> stop phase)"
    if "acquire_enter 0 name n default_options rm = (Waiting p, rm')"
  proof -
    have "put_session 0 (serve_frame id mock_ops demo_env (sv_daemon ?sv, ss)) ?sv =
        hang_state rm' m \<lparr>ss_input = rest, ss_output = out, ss_state = Blocked name p\<rparr> stop phase"
      using frame that by (simp add: serve_frame_def Let_def hang_answer [OF assms(1,2)] hang_state_def
          dispatch_acquire_def demo_env_def put_session_def ss)
    with step show ?thesis by simp
  qed
  show "\<exists>m' out'. server_step id mock_ops ?sv (SvServe 0 demo_env)
      (hang_state rm' m' \<lparr>ss_input = rest, ss_output = out', ss_state = Reading\<rparr> stop phase)"
    if "acquire_enter 0 name n default_options rm = (Returned r, rm')"
  proof -
    have "\<exists>m' out'. put_session 0 (serve_frame id mock_ops demo_env (sv_daemon ?sv, ss)) ?sv =
        hang_state rm' m' \<lparr>ss_input = rest, ss_output = out', ss_state = Reading\<rparr> stop phase"
      using frame that by (simp add: serve_frame_def Let_def hang_answer [OF assms(1,2)] hang_state_def
          dispatch_acquire_def demo_env_def put_session_def send_response_def finish_acquire_def
          note_metrics_def ss) 
    with step show ?thesis by metis
  qed
qed

definition rm_b_cancelled :: resource_manager where
  "rm_b_cancelled = rm_cancel_waiters rm_b"

lemma hang_valid: "rm_valid_name ''a''" "rm_valid_name ''b''" "rm_valid_name ''c''"
  by (simp_all add: rm_valid_name_def)

text \<open>No pass of the scheduler, at any time, changes anything while nothing fits.\<close>

lemma hang_idle:
  "grant_waiters_locked now rm_b = rm_b" "grant_waiters_locked now rm_c = rm_c"
proof -
  have "expire_waiters now rm_b = rm_b" "expire_waiters now rm_c = rm_c"
    by (simp_all add: expire_waiters_def rm_b_def rm_c_def expired_def hang_request_def empty_request_def)
  moreover have "rm_settled rm_b" "rm_settled rm_c"
    by (simp_all add: rm_settled_def rm_b_def rm_c_def rm_a_def demo_world_def hang_request_def)
  ultimately show "grant_waiters_locked now rm_b = rm_b" "grant_waiters_locked now rm_c = rm_c"
    by (simp_all add: grant_waiters_locked_def settled_grant_loop)
qed

lemma hang_a: "acquire_enter 0 ''a'' 100 default_options (rw_resources demo_world) =
    (Returned (op_done 100), rm_a)"
  by (simp add: acquire_enter_def hang_valid default_options_def ms_max_def demo_world_def rm_a_def
      has_name_locked_def um_contains_def um_emplace_def)

lemma hang_b: "acquire_enter 0 ''b'' 50 default_options rm_a = (Waiting 0, rm_b)"
proof -
  have "acquire_enqueue 0 ''b'' 50 default_options rm_a = rm_b"
    by (simp add: acquire_enqueue_def Let_def rm_a_def rm_b_def demo_world_def hang_request_def
        empty_request_def default_options_def acquire_deadline_def)
  moreover have "acquire_enter 0 ''b'' 50 default_options rm_a =
      (Waiting 0, grant_waiters_locked 0 (acquire_enqueue 0 ''b'' 50 default_options rm_a))"
    by (simp add: acquire_enter_def hang_valid default_options_def ms_max_def demo_world_def rm_a_def
        has_name_locked_def um_contains_def)
  ultimately show ?thesis by (simp add: hang_idle)
qed

lemma hang_c: "acquire_enter 0 ''c'' 50 default_options rm_b_cancelled = (Waiting (Suc 0), rm_c)"
proof -
  have "acquire_enqueue 0 ''c'' 50 default_options rm_b_cancelled = rm_c"
    by (simp add: acquire_enqueue_def Let_def rm_b_cancelled_def rm_cancel_waiters_def rm_b_def rm_c_def
        rm_a_def demo_world_def hang_request_def empty_request_def default_options_def acquire_deadline_def)
  moreover have "acquire_enter 0 ''c'' 50 default_options rm_b_cancelled =
      (Waiting (Suc 0), grant_waiters_locked 0 (acquire_enqueue 0 ''c'' 50 default_options rm_b_cancelled))"
    by (simp add: acquire_enter_def hang_valid default_options_def ms_max_def rm_b_cancelled_def
        rm_cancel_waiters_def rm_b_def rm_a_def demo_world_def has_name_locked_def um_contains_def)
  ultimately show ?thesis by (simp add: hang_idle)
qed

lemma hang_wake: "\<exists>m' out'. server_step id mock_ops
    (hang_state rm_b_cancelled m \<lparr>ss_input = rest, ss_output = out, ss_state = Blocked ''b'' 0\<rparr> stop phase)
    (SvWake 0 demo_env)
    (hang_state rm_b_cancelled m' \<lparr>ss_input = rest, ss_output = out', ss_state = Reading\<rparr> stop phase)"
proof -
  let ?ss = "\<lparr>ss_input = rest, ss_output = out, ss_state = Blocked ''b'' 0\<rparr>"
  let ?sv = "hang_state rm_b_cancelled m ?ss stop phase"
  have "acquire_poll 0 0 rm_b_cancelled = (Some (op_fail error_code.Timeout), rm_b_cancelled)"
    by (simp add: acquire_poll_def rm_b_cancelled_def rm_cancel_waiters_def rm_b_def complete_with_def)
  then have "\<exists>m' out'. put_session 0 (session_wake demo_env (sv_daemon ?sv, ?ss)) ?sv =
      hang_state rm_b_cancelled m' \<lparr>ss_input = rest, ss_output = out', ss_state = Reading\<rparr> stop phase"
    by (simp add: session_wake_def session_resume_def finish_acquire_def send_response_def
        note_metrics_def put_session_def hang_state_def demo_env_def)
  moreover have "server_step id mock_ops ?sv (SvWake 0 demo_env)
      (put_session 0 (session_wake demo_env (sv_daemon ?sv, ?ss)) ?sv)"
    by (rule sv_wake [where name = "''b''" and p = 0]) (simp_all add: hang_state_def)
  ultimately show ?thesis by metis
qed

text \<open>A state in which the server has not finished and no step of any thread changes anything.\<close>

definition server_stuck :: "(rat \<Rightarrow> rat) \<Rightarrow> mock_backend server \<Rightarrow> bool" where
  "server_stuck rd sv \<longleftrightarrow> sv_phase sv \<noteq> Finished \<and> (\<forall>l sv'. server_step rd mock_ops sv l sv' \<longrightarrow> sv' = sv)"

lemma hang_stuck:
  "server_stuck rd (hang_state rm_c m \<lparr>ss_input = inp, ss_output = out, ss_state = Blocked ''c'' (Suc 0)\<rparr> True Joining)"
    (is "server_stuck rd ?sv")
proof -
  let ?ss = "\<lparr>ss_input = inp, ss_output = out, ss_state = Blocked ''c'' (Suc 0)\<rparr>"
  have poll: "acquire_poll now (Suc 0) rm_c = (None, rm_c)" for now
    by (simp add: acquire_poll_def hang_idle) (simp add: rm_c_def hang_request_def empty_request_def)
  have wake: "put_session 0 (session_wake e (sv_daemon ?sv, ?ss)) ?sv = ?sv" for e
    by (simp add: session_wake_def hang_state_def put_session_def poll)
  have never: "\<not> expired now (rm_requests rm_c (Suc 0))" for now
    by (simp add: expired_def rm_c_def hang_request_def empty_request_def)
  have sel: "sv_sessions ?sv = [?ss]" "resources (sv_daemon ?sv) = rm_c" "sv_phase ?sv = Joining" "sv_stop ?sv"
    "sv_load ?sv = None"
    by (simp_all add: hang_state_def)
  have "sv' = ?sv" if "server_step rd mock_ops ?sv l sv'" for l sv'
    using that
  proof (cases rule: server_step.cases)
    case sv_stopping
    then show ?thesis by (simp add: hang_state_def)
  next
    case (sv_wake i ss name p e)
    with sel wake show ?thesis by simp
  next
    case (sv_expire i ss name p e)
    with sel never show ?thesis by simp
  qed (simp_all add: sel loop_done_def)
  with sel show ?thesis by (simp add: server_stuck_def)
qed

text \<open>The execution up to the signal: the first acquire granted, the second one waiting.\<close>

abbreviation hang_rest :: string where
  "hang_rest \<equiv> hang_line ''c'' 50 @ newline @ []"

abbreviation hang_b_session :: "string \<Rightarrow> session" where
  "hang_b_session out \<equiv> \<lparr>ss_input = hang_rest, ss_output = out, ss_state = Blocked ''b'' 0\<rparr>"

lemma hang_run:
  "\<exists>ls m out. run (server_step id mock_ops) demo_server ls
     (hang_state rm_b m (hang_b_session out) True Accepting)"
proof -
  let ?mid = "hang_line ''b'' 50 @ newline @ hang_rest"
  let ?inp = "hang_line ''a'' 100 @ newline @ ?mid"
  let ?s0 = "\<lambda>inp. \<lparr>ss_input = inp, ss_output = [], ss_state = Reading\<rparr>"
  let ?step = "server_step id mock_ops" and ?rm0 = "rw_resources demo_world"
  let ?rd = "\<lambda>inp. SvTurn 0 demo_env False (Received inp)"
  have len: "length ?inp \<le> 4096"
    using hang_line_length [OF hang_valid(1), of 100] hang_line_length [OF hang_valid(2), of 50]
      hang_line_length [OF hang_valid(3), of 50] by simp
  have s1: "?step demo_server SvAccept (hang_state ?rm0 mt_new (?s0 []) False Accepting)"
    using server_step.sv_accept [of demo_server id mock_ops]
    by (simp add: demo_server_def hang_state_def new_session_def)
  have s2: "?step (hang_state ?rm0 mt_new (?s0 []) False Accepting) (?rd ?inp)
      (hang_state ?rm0 mt_new (?s0 ?inp) False Accepting)"
    using server_step.sv_turn [of 0 "hang_state ?rm0 mt_new (?s0 []) False Accepting" "?s0 []" False
        "Received ?inp" id mock_ops demo_env] len
    by (simp add: hang_state_def loop_done_def next_frame_def max_line_bytes_def put_session_def
        session_turn_def session_read_def read_answer_def)
  have n100: "(100 :: bytes) \<noteq> 0" by simp
  obtain m out where s3: "?step (hang_state ?rm0 mt_new (?s0 ?inp) False Accepting) (SvServe 0 demo_env)
      (hang_state rm_a m \<lparr>ss_input = ?mid, ss_output = out, ss_state = Reading\<rparr> False Accepting)"
    using hang_serve(2) [OF hang_valid(1) n100 refl hang_a, where rest = ?mid and out = "[]"
      and m = mt_new and stop = False and phase = Accepting] by (elim exE)
  have s4: "?step (hang_state rm_a m \<lparr>ss_input = ?mid, ss_output = out, ss_state = Reading\<rparr> False Accepting)
      (SvServe 0 demo_env) (hang_state rm_b m (hang_b_session out) False Accepting)"
    by (rule hang_serve(1) [OF hang_valid(2) _ refl hang_b]) simp
  have s5: "?step (hang_state rm_b m ss False Accepting) SvStop (hang_state rm_b m ss True Accepting)" for ss
    using server_step.sv_stopping [of id mock_ops "hang_state rm_b m ss False Accepting"]
    by (simp add: hang_state_def)
  have "run ?step demo_server [SvAccept, ?rd ?inp, SvServe 0 demo_env, SvServe 0 demo_env, SvStop]
      (hang_state rm_b m (hang_b_session out) True Accepting)"
    by (rule run_cons, rule s1, rule run_cons, rule s2, rule run_cons, rule s3, rule run_cons, rule s4,
        rule run_cons, rule s5, rule run_nil)
  then show ?thesis by blast
qed

lemma hang_cancel: "server_step id mock_ops (hang_state rm_b m ss True Accepting) SvShutDown
    (hang_state rm_b_cancelled m ss True Joining)"
  using server_step.sv_shut_down [of "hang_state rm_b m ss True Accepting" id mock_ops]
  by (simp add: hang_state_def server_cancel_def rm_b_cancelled_def)

theorem queued_requests_have_sessions_witness:
  "\<exists>ls sv. run (server_step id mock_ops) demo_server ls sv \<and> rm_pending (resources (sv_daemon sv)) = [0] \<and>
     (\<exists>!i. i < length (sv_sessions sv) \<and> ss_state (sv_sessions sv ! i) = Blocked ''b'' 0)"
proof -
  obtain ls m out where r: "run (server_step id mock_ops) demo_server ls
      (hang_state rm_b m (hang_b_session out) True Accepting)" using hang_run by blast
  let ?sv = "hang_state rm_b m (hang_b_session out) True Accepting"
  have p: "rm_pending (resources (sv_daemon ?sv)) = [0]"
    "pr_name (rm_requests (resources (sv_daemon ?sv)) 0) = ''b''"
    by (simp_all add: hang_state_def rm_b_def hang_request_def)
  from conjunct1 [OF queued_requests_have_sessions [OF mock_contract demo_server_start r]]
  have "\<exists>!i. i < length (sv_sessions ?sv) \<and> ss_state (sv_sessions ?sv ! i) = Blocked ''b'' 0"
    unfolding p by (simp only: list.set ball_simps p)
  with r p(1) show ?thesis by blast
qed

theorem shutdown_releases_waiters_witness:
  "\<exists>m out d. session_wake demo_env
     (sv_daemon (hang_state rm_b_cancelled m (hang_b_session out) True Joining), hang_b_session out) =
   session_resume demo_env ''b'' (op_fail error_code.Timeout) (d, hang_b_session out)"
proof -
  obtain ls m out where r: "run (server_step id mock_ops) demo_server ls
      (hang_state rm_b m (hang_b_session out) True Accepting)" using hang_run by blast
  let ?sv' = "hang_state rm_b_cancelled m (hang_b_session out) True Joining"
  have sel: "sv_sessions ?sv' = [hang_b_session out]"
    "pr_result (rm_requests (resources (sv_daemon ?sv')) 0) = op_fail error_code.Timeout"
    by (simp_all add: hang_state_def rm_b_cancelled_def rm_cancel_waiters_def rm_b_def complete_with_def)
  have "\<exists>d. session_wake demo_env (sv_daemon ?sv', sv_sessions ?sv' ! 0) =
      session_resume demo_env ''b'' (pr_result (rm_requests (resources (sv_daemon ?sv')) 0))
        (d, sv_sessions ?sv' ! 0) \<and> dm_world d = dm_world (sv_daemon ?sv')"
    by (rule shutdown_releases_waiters [OF mock_contract demo_server_start r _ hang_cancel])
      (simp_all add: hang_state_def)
  then show ?thesis unfolding sel nth_Cons_0 by blast
qed

text \<open>
  C31: a shutdown may never end. A session that has sent several acquires at once goes on to
  the next one when its first is cancelled; a request that begins to wait after the waiters
  were cancelled is never cancelled, so the thread that joins the sessions waits for ever.
  The daemon reaches a state in which it has been told to stop and nothing can happen.
\<close>

theorem shutdown_can_hang:
  "\<exists>ls sv. run (server_step id mock_ops) demo_server (ls @ [SvShutDown, SvWake 0 demo_env,
     SvServe 0 demo_env]) sv \<and> server_stuck id sv"
proof -
  let ?step = "server_step id mock_ops"
  obtain ls m out where r: "run ?step demo_server ls
      (hang_state rm_b m (hang_b_session out) True Accepting)" using hang_run by blast
  obtain m' out' where wake: "?step (hang_state rm_b_cancelled m (hang_b_session out) True Joining)
      (SvWake 0 demo_env)
      (hang_state rm_b_cancelled m' \<lparr>ss_input = hang_rest, ss_output = out', ss_state = Reading\<rparr> True Joining)"
    using hang_wake by blast
  let ?final = "hang_state rm_c m' \<lparr>ss_input = [], ss_output = out', ss_state = Blocked ''c'' (Suc 0)\<rparr> True Joining"
  have serve: "?step (hang_state rm_b_cancelled m'
        \<lparr>ss_input = hang_rest, ss_output = out', ss_state = Reading\<rparr> True Joining) (SvServe 0 demo_env) ?final"
    by (rule hang_serve(1) [OF hang_valid(3) _ refl hang_c]) simp
  have "run ?step (hang_state rm_b m (hang_b_session out) True Accepting)
      [SvShutDown, SvWake 0 demo_env, SvServe 0 demo_env] ?final"
    by (rule run_cons, rule hang_cancel, rule run_cons, rule wake, rule run_cons, rule serve, rule run_nil)
  from run_append [OF r this] hang_stuck show ?thesis by blast
qed

end
