(* ===== verification/ServerShutdown.thy ===== *)
theory ServerShutdown
  imports ServerProperties
begin

text \<open>
  When a shutdown ends: once the waiters are cancelled, no request is queued and no session
  has a whole command buffered, the threads that see the stop flag return after a bounded
  number of steps and the server can always finish.
\<close>

section \<open>The steps that are left\<close>

text \<open>
  The steps in which nothing more is read or served: a load ends, a blocked thread wakes, a
  session looks at the stop flag and sees it, the workers are joined. A session that looked
  before the flag was set may still read once; that step is not among these.
\<close>

definition closing :: "server_label \<Rightarrow> bool" where
  "closing l \<longleftrightarrow> (case l of SvTurn i e stop answer \<Rightarrow> stop | SvLoadEnd i e \<Rightarrow> True
     | SvWake i e \<Rightarrow> True | SvJoin \<Rightarrow> True | _ \<Rightarrow> False)"

definition session_work :: "session \<Rightarrow> nat" where
  "session_work ss = (case ss_state ss of Closed \<Rightarrow> 0 | Reading \<Rightarrow> 1 | _ \<Rightarrow> 2)"

definition shutdown_work :: "'b server \<Rightarrow> nat" where
  "shutdown_work sv = sum_list (map session_work (sv_sessions sv)) +
     (if sv_phase sv = Joining then 1 else 0)"

lemma session_work_le: "session_work ss \<le> 2"
  by (simp add: session_work_def split: session_state.split)

lemma shutdown_work_le: "shutdown_work sv \<le> 2 * length (sv_sessions sv) + 1"
proof -
  have "sum_list (map session_work sss) \<le> 2 * length sss" for sss
  proof (induction sss)
    case (Cons ss sss)
    then show ?case using session_work_le [of ss] by simp
  qed simp
  from this [of "sv_sessions sv"] show ?thesis by (simp add: shutdown_work_def)
qed

lemma less_session_work:
  assumes "i < length sss" and "session_work ss < session_work (sss ! i)"
  shows "sum_list (map session_work (sss[i := ss])) < sum_list (map session_work sss)"
proof -
  have "session_work (sss ! i) \<le> sum_list (map session_work sss)"
    using member_le_sum_list [of "session_work (sss ! i)" "map session_work sss"] assms(1) by simp
  with assms show ?thesis by (simp add: map_update sum_list_update)
qed

definition draining :: "('b \<Rightarrow> bool) \<Rightarrow> ('b \<Rightarrow> string \<Rightarrow> bytes option) \<Rightarrow> 'b server \<Rightarrow> bool" where
  "draining binv held sv \<longleftrightarrow> server_inv binv held sv \<and> sv_phase sv \<noteq> Accepting \<and> sv_stop sv \<and>
     rm_pending (resources (sv_daemon sv)) = [] \<and>
     (\<forall>ss \<in> set (sv_sessions sv). ss_state ss = Closed \<or> next_frame (ss_input ss) = NeedMore)"

lemma sent_work:
  "send_response e r (d, ss\<lparr>ss_state := Reading\<rparr>) = (d', ss') \<Longrightarrow>
   ss_input ss' = ss_input ss \<and> session_work ss' \<le> 1"
  by (auto simp: send_response_def session_work_def split: if_splits)

section \<open>A bounded number of steps\<close>

context reliable_backend
begin

lemma draining_session:
  assumes dr: "draining binv held sv" and i: "i < length (sv_sessions sv)"
    and inv: "server_inv binv held sv'"
    and sv': "sv_daemon sv' = d'" "sv_sessions sv' = (sv_sessions sv)[i := ss']"
      "sv_phase sv' = sv_phase sv" "sv_stop sv' = sv_stop sv"
    and call: "one_call (resources (sv_daemon sv)) (resources d')"
    and ss': "ss_input ss' = ss_input (sv_sessions sv ! i)"
      "session_work ss' < session_work (sv_sessions sv ! i)"
  shows "draining binv held sv' \<and> shutdown_work sv' < shutdown_work sv"
proof -
  have "no_new_waiter (resources (sv_daemon sv)) (resources d')"
    using dr call by (intro one_call_effect server_inv_good) (simp_all add: draining_def)
  then have "rm_pending (resources d') = []"
    using dr by (simp add: draining_def no_new_waiter_def)
  moreover have "ss_state ss = Closed \<or> next_frame (ss_input ss) = NeedMore"
    if "ss \<in> set (sv_sessions sv')" for ss
  proof -
    have "ss_state (sv_sessions sv ! i) \<noteq> Closed" using ss'(2) by (auto simp: session_work_def)
    moreover have "ss = ss' \<or> ss \<in> set (sv_sessions sv)"
      using that set_update_subset_insert [of "sv_sessions sv" i ss'] by (auto simp: sv'(2))
    ultimately show ?thesis using dr i ss'(1) nth_mem [OF i] by (auto simp: draining_def)
  qed
  ultimately have "draining binv held sv'" using dr inv sv' by (simp add: draining_def)
  with less_session_work [OF i ss'(2)] sv' show ?thesis by (simp add: shutdown_work_def)
qed

lemma draining_step:
  assumes step: "server_step rd B sv l sv'" and dr: "draining binv held sv" and cl: "closing l"
  shows "draining binv held sv' \<and> shutdown_work sv' < shutdown_work sv"
proof -
  have inv: "server_inv binv held sv" using dr by (simp add: draining_def)
  have inv': "server_inv binv held sv'"
    using server_step_sound [OF step inv] by (simp add: step_sound_def)
  note owner = server_inv_parts(3) [OF inv] and hold = server_inv_parts(4) [OF inv]
  from step cl show ?thesis
  proof cases
    case (sv_turn i ss stop answer e)
    with cl have "stop" by (simp add: closing_def)
    with sv_turn show ?thesis
      by (intro draining_session [OF dr _ inv', where i = i and d' = "sv_daemon sv" and
            ss' = "session_turn e stop answer ss"])
        (simp_all add: session_turn_def session_work_def put_session_def)
  next
    case (sv_load_end i name m es ss e)
    obtain d' ss' where f: "session_loaded B e name m es (sv_daemon sv, ss) = (d', ss')" by fastforce
    have i: "i < length (sv_sessions sv)" "ss_state ss = Loading"
      using hold sv_load_end by (auto simp: holder_def)
    obtain r d1 where "send_response e r (d1, ss\<lparr>ss_state := Reading\<rparr>) = (d', ss')"
      using f by (auto simp: session_loaded_def split: prod.splits)
    from sent_work [OF this] i(2) have w: "ss_input ss' = ss_input ss" "session_work ss' < session_work ss"
      by (simp_all add: session_work_def)
    show ?thesis
      by (rule draining_session [OF dr i(1) inv', where d' = d' and ss' = ss'])
        (use sv_load_end f w loaded_effect(2) [OF f] in \<open>simp_all add: put_session_def\<close>)
  next
    case (sv_wake i ss name p e)
    let ?d = "sv_daemon sv"
    obtain d' ss' where f: "session_wake e (?d, ss) = (d', ss')" by fastforce
    have "p \<notin> set (rm_pending (resources ?d))" using dr by (simp add: draining_def)
    with unqueued_wake [OF owner server_inv_good [OF inv] _ _ this, of i name e] sv_wake f
    have r: "session_resume e name (pr_result (rm_requests (resources ?d) p)) (?d, ss) = (d', ss')" by simp
    then obtain x d1 where "send_response e x (d1, ss\<lparr>ss_state := Reading\<rparr>) = (d', ss')"
      by (auto simp: session_resume_def split: prod.splits)
    from sent_work [OF this] sv_wake have w: "ss_input ss' = ss_input ss" "session_work ss' < session_work ss"
      by (simp_all add: session_work_def)
    show ?thesis
      by (rule draining_session [OF dr _ inv', where d' = d' and ss' = ss'])
        (use sv_wake f w resume_effect(1) [OF r] in \<open>simp_all add: put_session_def\<close>)
  next
    case sv_join
    with dr inv' show ?thesis by (simp add: draining_def shutdown_work_def)
  qed (simp_all add: closing_def)
qed

lemma draining_run:
  "run (server_step rd B) sv ls sv' \<Longrightarrow> draining binv held sv \<Longrightarrow> list_all closing ls \<Longrightarrow>
   draining binv held sv' \<and> length ls + shutdown_work sv' \<le> shutdown_work sv"
proof (induction rule: run.induct)
  case (run_cons s l t ls u)
  from draining_step [OF run_cons.hyps(1)] run_cons.prems
  have "draining binv held t" "shutdown_work t < shutdown_work s" by simp_all
  with run_cons.IH run_cons.prems(2) show ?case by simp
qed simp

text \<open>While the workers are being joined, some thread can go on.\<close>

lemma draining_progress:
  assumes dr: "draining binv held sv" and join: "sv_phase sv = Joining"
  shows "\<exists>l sv'. closing l \<and> server_step rd B sv l sv'"
proof (cases "list_all (\<lambda>ss. ss_state ss = Closed) (sv_sessions sv)")
  case True
  from sv_join [OF join this] show ?thesis by (intro exI conjI) (auto simp: closing_def)
next
  case False
  then obtain i where i: "i < length (sv_sessions sv)" "ss_state (sv_sessions sv ! i) \<noteq> Closed"
    by (auto simp: list_all_length)
  have hold: "holder (sv_load sv) (sv_sessions sv)"
    using dr by (intro server_inv_parts(4)) (simp add: draining_def)
  fix e :: request_env
  show ?thesis
  proof (cases "ss_state (sv_sessions sv ! i)")
    case Reading
    moreover have "loop_done (sv_sessions sv ! i)" using dr i by (auto simp: draining_def loop_done_def)
    ultimately have "server_step rd B sv (SvTurn i e True EndOfStream)
        (put_session i (sv_daemon sv, session_turn e True EndOfStream (sv_sessions sv ! i)) sv)"
      using dr i(1) by (intro sv_turn) (simp_all add: draining_def read_answer_def)
    then show ?thesis by (intro exI conjI) (auto simp: closing_def)
  next
    case (Blocked name p)
    from sv_wake [OF i(1) refl this] show ?thesis by (intro exI conjI) (auto simp: closing_def)
  next
    case Loading
    with hold i(1) obtain name m es where "sv_load sv = Some (i, name, m, es)"
      by (auto simp: holder_def)
    from sv_load_end [OF this refl] show ?thesis by (intro exI conjI) (auto simp: closing_def)
  qed (use i(2) in simp)
qed

lemma draining_finishes:
  "draining binv held sv \<Longrightarrow>
   \<exists>ls sv'. list_all closing ls \<and> run (server_step rd B) sv ls sv' \<and> sv_phase sv' = Finished"
proof (induction "shutdown_work sv" arbitrary: sv rule: less_induct)
  case less
  show ?case
  proof (cases "sv_phase sv = Finished")
    case True
    have "run (server_step rd B) sv [] sv" by (rule run_nil)
    with True show ?thesis by (intro exI [of _ "[]"] exI [of _ sv]) simp
  next
    case False
    with less.prems have "sv_phase sv = Joining" by (cases "sv_phase sv") (simp_all add: draining_def)
    from draining_progress [OF less.prems this] obtain l t
      where l: "closing l" "server_step rd B sv l t" by blast
    from draining_step [OF l(2) less.prems l(1)] less.hyps obtain ls sv'
      where "list_all closing ls" "run (server_step rd B) t ls sv'" "sv_phase sv' = Finished" by blast
    with l show ?thesis by (intro exI [of _ "l # ls"] exI [of _ sv']) auto
  qed
qed

end



end
