(* ===== verification/ServerLoop.thy ===== *)
theory ServerLoop
  imports ServerListen ServerShutdown
begin

text \<open>
  The loop of \<open>UnixSocketServer::run\<close> (unix_socket_server.cpp) that accepts connections, with the
  answers of \<open>poll\<close>, \<open>accept\<close> and \<open>external_stop\<close> as arguments and nothing in between; the steps
  of \<open>server_step\<close> are its turns among those of the sessions.
\<close>

section \<open>The loop\<close>

datatype poll_result = PollReady | PollTimeout | PollInterrupted | PollFailed

text \<open>The two breaks of the inner loop, \<open>EAGAIN\<close> and any other error, are \<open>AcceptFailed\<close>.\<close>

datatype accept_result = Accepted | AcceptInterrupted | AcceptFailed

record listen_turn =
  lt_external_stop :: bool
  lt_poll :: poll_result
  lt_accepts :: "accept_result list"

definition request_shutdown :: "'b server \<Rightarrow> 'b server" where
  "request_shutdown sv = sv\<lparr>sv_stop := True\<rparr>"

definition start_worker :: "'b server \<Rightarrow> 'b server" where
  "start_worker sv = sv\<lparr>sv_sessions := sv_sessions sv @ [new_session]\<rparr>"

text \<open>The inner loop; \<open>None\<close> when the answers run out before it is left.\<close>

fun accept_clients :: "accept_result list \<Rightarrow> 'b server \<Rightarrow> 'b server option" where
  "accept_clients answers sv =
     (if sv_stop sv then Some sv
      else case answers of
             [] \<Rightarrow> None
           | Accepted # rest \<Rightarrow> accept_clients rest (start_worker sv)
           | AcceptInterrupted # rest \<Rightarrow> accept_clients rest sv
           | AcceptFailed # rest \<Rightarrow> Some sv)"

fun accept_loop :: "listen_turn list \<Rightarrow> 'b server \<Rightarrow> 'b server option" where
  "accept_loop turns sv =
     (if sv_stop sv then Some sv
      else case turns of
             [] \<Rightarrow> None
           | t # rest \<Rightarrow>
               if lt_external_stop t then Some (request_shutdown sv)
               else (case lt_poll t of
                       PollInterrupted \<Rightarrow> accept_loop rest sv
                     | PollFailed \<Rightarrow> Some sv
                     | PollTimeout \<Rightarrow> accept_loop rest sv
                     | PollReady \<Rightarrow>
                         (case accept_clients (lt_accepts t) sv of
                            None \<Rightarrow> None
                          | Some sv' \<Rightarrow> accept_loop rest sv')))"

declare accept_clients.simps [simp del] accept_loop.simps [simp del]

text \<open>\<open>run\<close> up to the join: \<open>Inl\<close> what it returned, or the server that joins its workers.\<close>

definition server_run ::
  "string \<Rightarrow> listen_env \<Rightarrow> listen_turn list \<Rightarrow> 'b server \<Rightarrow> (int + 'b server) option" where
  "server_run path env turns sv =
     (case snd (server_listen path env) of
        None \<Rightarrow> Some (Inl (- 1))
      | Some fd \<Rightarrow>
          map_option (\<lambda>sv'. Inr (server_cancel sv')) (accept_loop turns (sv\<lparr>sv_stop := False\<rparr>)))"

section \<open>Its turns are steps of the server\<close>

definition listener_run :: "(rat \<Rightarrow> rat) \<Rightarrow> 'b accelerator_backend \<Rightarrow> 'b server \<Rightarrow> 'b server \<Rightarrow> bool" where
  "listener_run rd B sv sv' \<longleftrightarrow> (\<exists>ls. run (server_step rd B) sv ls sv' \<and> set ls \<subseteq> {SvAccept, SvStop})"

lemma listener_refl: "listener_run rd B sv sv"
  unfolding listener_run_def by (rule exI [of _ "[]"]) simp

lemma listener_step:
  assumes "server_step rd B s l t" and "l \<in> {SvAccept, SvStop}" and "listener_run rd B t u"
  shows "listener_run rd B s u"
proof -
  from assms(3) obtain ls where "run (server_step rd B) t ls u" "set ls \<subseteq> {SvAccept, SvStop}"
    by (auto simp: listener_run_def)
  with assms(1,2) have "run (server_step rd B) s (l # ls) u" "set (l # ls) \<subseteq> {SvAccept, SvStop}" by auto
  then show ?thesis unfolding listener_run_def by blast
qed

lemma listener_trans: "listener_run rd B s t \<Longrightarrow> listener_run rd B t u \<Longrightarrow> listener_run rd B s u"
  unfolding listener_run_def by (metis run_append set_append Un_subset_iff)

lemma accept_clients_run:
  "accept_clients answers sv = Some sv' \<Longrightarrow> sv_phase sv = Accepting \<Longrightarrow>
   listener_run rd B sv sv' \<and> sv_phase sv' = Accepting"
proof (induction answers sv rule: accept_clients.induct)
  case (1 answers sv)
  show ?case
  proof (cases "sv_stop sv")
    case True
    with 1 show ?thesis by (subst (asm) accept_clients.simps) (simp add: listener_refl)
  next
    case False
    note step = server_step.sv_accept [OF 1(4), of rd B]
    have "accept_clients rest (start_worker sv) = Some sv' \<Longrightarrow>
        listener_run rd B sv sv' \<and> sv_phase sv' = Accepting"
      if "answers = Accepted # rest" for rest
      using 1(1) [OF False that refl] 1(4) listener_step [OF step]
      by (simp add: start_worker_def)
    with 1 False show ?thesis
      by (subst (asm) accept_clients.simps)
        (auto simp: listener_refl split: list.splits accept_result.splits)
  qed
qed

lemma accept_loop_run:
  "accept_loop turns sv = Some sv' \<Longrightarrow> sv_phase sv = Accepting \<Longrightarrow>
   listener_run rd B sv sv' \<and> sv_phase sv' = Accepting \<and>
   (sv_stop sv' \<or> (\<exists>t \<in> set turns. lt_poll t = PollFailed))"
proof (induction turns arbitrary: sv)
  case Nil
  then show ?case by (subst (asm) accept_loop.simps) (simp add: listener_refl split: if_splits)
next
  case (Cons t turns)
  show ?case
  proof (cases "sv_stop sv \<or> lt_external_stop t")
    case True
    have "listener_run rd B sv (request_shutdown sv)"
      unfolding request_shutdown_def by (rule listener_step [OF sv_stopping _ listener_refl]) simp
    with True Cons.prems show ?thesis
      by (subst (asm) accept_loop.simps)
        (auto simp: listener_refl request_shutdown_def split: if_splits)
  next
    case False
    have ready: "listener_run rd B sv sv' \<and> sv_phase sv' = Accepting \<and>
        (sv_stop sv' \<or> (\<exists>t \<in> set turns. lt_poll t = PollFailed))"
      if "accept_clients (lt_accepts t) sv = Some s1" "accept_loop turns s1 = Some sv'" for s1
      using accept_clients_run [OF that(1) Cons.prems(2)] Cons.IH [OF that(2)]
      by (blast intro: listener_trans)
    show ?thesis
      using False Cons.prems Cons.IH ready
      by (subst (asm) accept_loop.simps)
        (auto simp: listener_refl split: poll_result.splits option.splits)
  qed
qed

text \<open>
  What \<open>run\<close> does to the server before it joins its workers is an execution of
  \<open>server_step\<close>: some accepted connections and a stop, then the cancellation of the waiters. It
  gets there with the stop flag set, or because \<open>poll\<close> failed.
\<close>

theorem server_run_is_steps:
  assumes "server_run path env turns sv = Some (Inr sv')" and "sv_phase sv = Accepting"
  shows "\<exists>ls. run (server_step rd B) (sv\<lparr>sv_stop := False\<rparr>) (ls @ [SvShutDown]) sv' \<and>
    set ls \<subseteq> {SvAccept, SvStop} \<and> (sv_stop sv' \<or> (\<exists>t \<in> set turns. lt_poll t = PollFailed))"
proof -
  from assms(1) obtain s where s: "accept_loop turns (sv\<lparr>sv_stop := False\<rparr>) = Some s"
    "sv' = server_cancel s"
    by (auto simp: server_run_def split: option.splits)
  from accept_loop_run [OF s(1), of rd B] assms(2) obtain ls
    where "run (server_step rd B) (sv\<lparr>sv_stop := False\<rparr>) ls s" "set ls \<subseteq> {SvAccept, SvStop}"
      "sv_phase s = Accepting" "sv_stop s \<or> (\<exists>t \<in> set turns. lt_poll t = PollFailed)"
    by (auto simp: listener_run_def)
  with s(2) show ?thesis
    using run_snoc [of "server_step rd B" _ ls s SvShutDown "server_cancel s"] sv_shut_down [of s rd B]
    by (intro exI [of _ ls]) (simp add: server_cancel_def)
qed

theorem server_run_is_steps_witness:
  "\<exists>ls sv'. run (server_step id mock_ops) (demo_server\<lparr>sv_stop := False\<rparr>) (ls @ [SvShutDown]) sv' \<and>
     sv_sessions sv' = [new_session, new_session] \<and> sv_stop sv'"
proof -
  let ?env = "\<lparr>le_path_free = True, le_socket = 3, le_bind = True, le_chmod = True, le_listen = True,
    le_get_flags = 2, le_set_flags = True\<rparr>"
  let ?turn = "\<lambda>stop poll answers. \<lparr>lt_external_stop = stop, lt_poll = poll, lt_accepts = answers\<rparr>"
  let ?turns = "[?turn False PollInterrupted [], ?turn False PollReady [Accepted, AcceptInterrupted, Accepted, AcceptFailed],
    ?turn False PollTimeout [], ?turn True PollReady []]"
  obtain sv' where r: "server_run ''/s'' ?env ?turns demo_server = Some (Inr sv')"
    and sv': "sv_sessions sv' = [new_session, new_session]" "sv_stop sv'"
    by (simp add: server_run_def server_listen_def sun_path_size_def accept_loop.simps accept_clients.simps
        demo_server_def start_worker_def request_shutdown_def server_cancel_def)
  with server_run_is_steps [OF r, of id mock_ops] show ?thesis by (auto simp: demo_server_def)
qed

section \<open>Leaving the loop\<close>

text \<open>An answer list in which \<open>accept\<close> says at some point that no client is left.\<close>

lemma accept_clients_returns: "AcceptFailed \<in> set answers \<Longrightarrow> \<exists>sv'. accept_clients answers sv = Some sv'"
proof (induction answers arbitrary: sv)
  case (Cons a answers)
  then show ?case by (subst accept_clients.simps) (cases a; simp)
qed simp

text \<open>
  The daemon notices that it is told to stop: whatever \<open>poll\<close> and \<open>accept\<close> answer, as long as the
  inner loop runs out of clients, \<open>external_stop\<close> returning true ends the loop.
\<close>

theorem stop_ends_accepting:
  assumes "\<exists>t \<in> set turns. lt_external_stop t"
    and "\<forall>t \<in> set turns. lt_poll t = PollReady \<longrightarrow> AcceptFailed \<in> set (lt_accepts t)"
  shows "\<exists>sv'. accept_loop turns sv = Some sv'"
  using assms
proof (induction turns arbitrary: sv)
  case (Cons t turns)
  show ?case
  proof (cases "sv_stop sv \<or> lt_external_stop t")
    case True
    then show ?thesis by (subst accept_loop.simps) auto
  next
    case False
    then have rest: "\<exists>sv'. accept_loop turns s = Some sv'" for s :: "'a server"
      using Cons.IH [of s] Cons.prems by simp
    obtain s1 where "lt_poll t = PollReady \<Longrightarrow> accept_clients (lt_accepts t) sv = Some s1"
      using accept_clients_returns [of "lt_accepts t" sv] Cons.prems(2) by auto
    with False rest show ?thesis
      by (subst accept_loop.simps) (cases "lt_poll t"; simp)
  qed
qed simp

theorem stop_ends_accepting_witness:
  "\<exists>sv'. accept_loop [\<lparr>lt_external_stop = True, lt_poll = PollFailed, lt_accepts = []\<rparr>] demo_server = Some sv'"
  using stop_ends_accepting [of "[\<lparr>lt_external_stop = True, lt_poll = PollFailed, lt_accepts = []\<rparr>]" demo_server]
  by simp

section \<open>A failed poll\<close>

text \<open>
  When \<open>poll\<close> fails the loop is left without the stop flag: no session is told to stop and
  nobody asks \<open>external_stop\<close> again. A client that stays connected and sends nothing then keeps
  the daemon from ending, whatever else happens.
\<close>

definition idle_client :: "nat \<Rightarrow> server_label \<Rightarrow> bool" where
  "idle_client i l \<longleftrightarrow> l \<noteq> SvStop \<and> (\<forall>e stop answer. l = SvTurn i e stop answer \<longrightarrow> answer = TryAgain)"

lemma idle_step:
  assumes "server_step rd B sv l sv'" and "idle_client i l" and "i < length (sv_sessions sv)"
    and "sv_sessions sv ! i = new_session" and "\<not> sv_stop sv" and "sv_phase sv = Joining"
    and "holder (sv_load sv) (sv_sessions sv)"
  shows "i < length (sv_sessions sv') \<and> sv_sessions sv' ! i = new_session \<and> \<not> sv_stop sv' \<and>
    sv_phase sv' = Joining"
proof -
  have idle: "next_frame [] = NeedMore" by (simp add: next_frame_def max_line_bytes_def)
  have turn: "session_turn e False TryAgain new_session = new_session" for e
    by (simp add: session_turn_def)
  have new: "loop_done new_session" "ss_state new_session = Reading"
    by (simp_all add: loop_done_def new_session_def idle)
  have put: "i < length (sv_sessions (put_session j (d, ss) sv)) \<and>
      sv_sessions (put_session j (d, ss) sv) ! i = new_session \<and>
      sv_stop (put_session j (d, ss) sv) = sv_stop sv \<and> sv_phase (put_session j (d, ss) sv) = Joining"
    if "j = i \<Longrightarrow> ss = new_session" for j d ss
    using that assms(3,4,6) by (simp_all add: put_session_def) (cases "j = i"; simp)
  from assms(1) show ?thesis
  proof cases
    case (sv_turn j ss stop answer e)
    with assms(2,5) have "j = i \<Longrightarrow> session_turn e stop answer ss = new_session"
      using turn assms(4) by (cases stop) (auto simp: idle_client_def)
    with put [of j "session_turn e stop answer ss" "sv_daemon sv"] sv_turn(2) assms(5) show ?thesis by simp
  next
    case (sv_serve j ss e)
    then have "j \<noteq> i" using new assms(4) by auto
    then show ?thesis
      using put [of j] sv_serve(2) assms(5) by (cases "serve_frame rd B e (sv_daemon sv, ss)") simp
  next
    case (sv_load_begin j ss e name m es b)
    then have "j \<noteq> i" using new assms(4) by auto
    then show ?thesis
      using put [of j] sv_load_begin(2) assms(5) by (cases "session_load b (sv_daemon sv, ss)") simp
  next
    case (sv_load_end j name m es ss e)
    then have "j \<noteq> i" using new assms(4,7) by (auto simp: holder_def)
    then show ?thesis
      using put [of j] sv_load_end(2) assms(5)
      by (cases "session_loaded B e name m es (sv_daemon sv, ss)") simp
  next
    case (sv_wake j ss name p e)
    then have "j \<noteq> i" using new assms(4) by auto
    then show ?thesis
      using put [of j] sv_wake(2) assms(5) by (cases "session_wake e (sv_daemon sv, ss)") simp
  next
    case (sv_expire j ss name p e)
    then have "j \<noteq> i" using new assms(4) by auto
    then show ?thesis
      using put [of j] sv_expire(2) assms(5) by (cases "session_time_out e (sv_daemon sv, ss)") simp
  next
    case sv_join
    then have "ss_state (sv_sessions sv ! i) = Closed" using assms(3) by (simp add: list_all_length)
    with new assms(4) show ?thesis by simp
  qed (use assms(2,6) in \<open>simp_all add: idle_client_def\<close>)
qed

context reliable_backend
begin

lemma idle_run:
  "run (server_step rd B) sv ls sv' \<Longrightarrow> server_inv binv held sv \<Longrightarrow> list_all (idle_client i) ls \<Longrightarrow>
   i < length (sv_sessions sv) \<Longrightarrow> sv_sessions sv ! i = new_session \<Longrightarrow> \<not> sv_stop sv \<Longrightarrow>
   sv_phase sv = Joining \<Longrightarrow> sv_sessions sv' ! i = new_session \<and> sv_phase sv' = Joining"
proof (induction rule: run.induct)
  case (run_cons s l t ls u)
  have "server_inv binv held t"
    using server_step_sound [OF run_cons.hyps(1)] run_cons.prems(1) by (simp add: step_sound_def)
  moreover have "i < length (sv_sessions t) \<and> sv_sessions t ! i = new_session \<and> \<not> sv_stop t \<and>
      sv_phase t = Joining"
    using run_cons.prems by (intro idle_step [OF run_cons.hyps(1)] server_inv_parts(4)) simp_all
  ultimately show ?case using run_cons.IH run_cons.prems(2) by simp
qed simp

end

theorem failed_poll_never_ends:
  assumes "reliable_backend B binv held" and "server_start binv held sv0"
    and "server_run path env turns sv0 = Some (Inr sv)" and "\<not> sv_stop sv"
    and "i < length (sv_sessions sv)" and "sv_sessions sv ! i = new_session"
    and "run (server_step rd B) sv ls sv'" and "list_all (idle_client i) ls"
  shows "(\<exists>t \<in> set turns. lt_poll t = PollFailed) \<and> sv_phase sv' = Joining \<and>
    sv_sessions sv' ! i = new_session"
proof -
  have start: "sv_phase sv0 = Accepting" "sv0\<lparr>sv_stop := False\<rparr> = sv0"
    using assms(2) by (auto simp: server_start_def server_new_def split: option.splits)
  from server_run_is_steps [OF assms(3) start(1), of rd B] obtain ks
    where r: "run (server_step rd B) sv0 (ks @ [SvShutDown]) sv"
      and f: "sv_stop sv \<or> (\<exists>t \<in> set turns. lt_poll t = PollFailed)"
    unfolding start(2) by blast
  from assms(3) have "sv_phase sv = Joining"
    by (auto simp: server_run_def server_cancel_def split: option.splits)
  from reliable_backend.idle_run [OF assms(1,7) reliable_backend.server_reachable(1) [OF assms(1,2) r]
      assms(8,5,6,4) this] f assms(4)
  show ?thesis by blast
qed

theorem failed_poll_never_ends_witness:
  "\<exists>turns sv. server_run ''/s'' \<lparr>le_path_free = True, le_socket = 3, le_bind = True, le_chmod = True,
      le_listen = True, le_get_flags = 2, le_set_flags = True\<rparr> turns demo_server = Some (Inr sv) \<and>
    (\<exists>t \<in> set turns. lt_poll t = PollFailed) \<and> sv_phase sv = Joining"
proof -
  let ?env = "\<lparr>le_path_free = True, le_socket = 3, le_bind = True, le_chmod = True, le_listen = True,
    le_get_flags = 2, le_set_flags = True\<rparr>"
  let ?turns = "[\<lparr>lt_external_stop = False, lt_poll = PollReady, lt_accepts = [Accepted, AcceptFailed]\<rparr>,
    \<lparr>lt_external_stop = False, lt_poll = PollFailed, lt_accepts = []\<rparr>]"
  obtain sv where r: "server_run ''/s'' ?env ?turns demo_server = Some (Inr sv)"
    and sv: "sv_sessions sv = [new_session]" "\<not> sv_stop sv"
    by (simp add: server_run_def server_listen_def sun_path_size_def accept_loop.simps accept_clients.simps
        demo_server_def start_worker_def server_cancel_def)
  have "(\<exists>t \<in> set ?turns. lt_poll t = PollFailed) \<and> sv_phase sv = Joining \<and> sv_sessions sv ! 0 = new_session"
    by (rule failed_poll_never_ends [OF mock_contract demo_server_start r, where ls = "[]" and rd = id])
      (simp_all add: sv)
  with r show ?thesis by blast
qed

end
