(* ===== verification/ClientServer.thy ===== *)
theory ClientServer
  imports ClientProperties
begin

text \<open>
  A client's request through the whole daemon: from the accepted connection over any cutting
  of the bytes, any waiting and loading and any interleaving with the other sessions, to
  the response the client returns.
\<close>

section \<open>What a session receives\<close>

definition label_bytes :: "nat \<Rightarrow> server_label \<Rightarrow> string" where
  "label_bytes i l = (case l of
     SvTurn j e stop answer \<Rightarrow>
       (case answer of Received chunk \<Rightarrow> if j = i \<and> \<not> stop then chunk else [] | _ \<Rightarrow> [])
   | _ \<Rightarrow> [])"

definition received :: "nat \<Rightarrow> server_label list \<Rightarrow> string" where
  "received i ls = concat (map (label_bytes i) ls)"

lemma received_simps [simp]:
  "received i [] = []" "received i (l # ls) = label_bytes i l @ received i ls"
  by (simp_all add: received_def)

section \<open>A line and its answer\<close>

text \<open>What the life of a request needs of its line.\<close>

definition sound_line :: "(rat \<Rightarrow> rat) \<Rightarrow> 'b accelerator_backend \<Rightarrow> string \<Rightarrow> bool" where
  "sound_line rd B c \<longleftrightarrow> no_newline c \<and> length c < max_line_bytes \<and>
     (\<forall>e d r d'. rz_books (dm_world d) \<longrightarrow> nodes_ok d \<longrightarrow> answer_line rd B e c d = (Respond r, d') \<longrightarrow>
        framed (is_multiline c) r) \<and>
     (let p = parse_command (strip_cr c)
      in pa_ok p \<longrightarrow> cm_type (pa_command p) \<in> {command_type.Acquire, command_type.LoadModel} \<longrightarrow>
         \<not> is_multiline c \<and> no_newline (cm_name (pa_command p)))"

lemma tokens_sound_line:
  assumes tok: "token_lines B" and ts: "list_all (is_token is_space) ts" "ts = verb # args" "verb \<noteq> ''models''"
    and len: "length (join_tokens ts) < max_line_bytes"
  shows "sound_line rd B (join_tokens ts)"
proof -
  let ?c = "join_tokens ts" and ?p = "parse_command (strip_cr (join_tokens ts))"
  have verbs: "\<not> is_multiline ?c \<and> no_newline (cm_name (pa_command ?p))"
    if ok: "pa_ok ?p" and ty: "cm_type (pa_command ?p) \<in> {command_type.Acquire, command_type.LoadModel}"
  proof -
    have blank: "list_all (is_token is_blank) ts"
      using ts(1) by (auto simp: list_all_iff dest: space_token_blank)
    have parse: "?p = parse_tokens (verb # args)"
      using joined_tokens_line(2) [OF ts(1)] parse_join [OF blank] ts(2) by simp
    have "\<not> lists_entries (cm_type (pa_command ?p))" using ty by (auto simp: lists_entries_def)
    then have "verb \<notin> listing_verbs"
      using verb_type [of verb args] ok by (simp add: verb_type_ok_def parse)
    moreover have "is_multiline ?c \<longleftrightarrow> verb \<in> listing_verbs"
      using is_multiline_join [of verb args] blank ts(2,3) by simp
    moreover have "well_formed_command (pa_command ?p)"
      using ok parse_well_formed by (simp add: parse_command_def)
    then have "rm_valid_name (cm_name (pa_command ?p))"
      using ty unfolding well_formed_command_def by (elim conjE insertE emptyE) (simp_all only: simp_thms, simp_all)
    then have "no_newline (cm_name (pa_command ?p))" by (rule name_no_newline)
    ultimately show ?thesis by blast
  qed
  have framed: "framed (is_multiline ?c) r"
    if "rz_books (dm_world d)" "nodes_ok d" "answer_line rd B e ?c d = (Respond r, d')" for e d r d'
    by (rule answer_framed_for_client [OF that(1,2) tok ts that(3)])
  show ?thesis
    unfolding sound_line_def Let_def
  proof (intro conjI allI impI, goal_cases)
    case 1
    show ?case using joined_tokens_line(1) [OF ts(1)] ts(2) by simp
  next
    case 2
    show ?case by (rule len)
  next
    case (3 e d r d')
    then show ?case by (rule framed)
  next
    case 4
    then show ?case by (rule verbs [THEN conjunct1])
  next
    case 5
    then show ?case by (rule verbs [THEN conjunct2])
  qed
qed

lemma line_prefix_frame:
  assumes "c @ newline = recv @ tail" and "no_newline c" and "length c < max_line_bytes"
  shows "next_frame recv = (if recv = c @ newline then Line c [] else NeedMore)"
proof (cases "recv = c @ newline")
  case True
  with next_frame_line [OF assms(2,3), of "[]"] show ?thesis by simp
next
  case False
  then have "tail \<noteq> []" using assms(1) by auto
  then obtain t x where t: "tail = t @ [x]" by (metis rev_exhaust)
  with assms(1) have "c = recv @ t" by simp
  with assms(2,3) have "no_newline recv" "length recv < max_line_bytes" by simp_all
  with next_frame_rest False show ?thesis by simp
qed

section \<open>The life of a session with one request\<close>

definition served :: "string \<Rightarrow> string \<Rightarrow> nat \<Rightarrow> 'b server \<Rightarrow> bool" where
  "served c recv i sv \<longleftrightarrow> i < length (sv_sessions sv) \<and>
     (let ss = sv_sessions sv ! i; all = (recv = c @ newline \<and> ss_input ss = [])
      in case ss_state ss of
           Reading \<Rightarrow> ss_input ss = recv \<and> ss_output ss = [] \<or> all \<and> framed (is_multiline c) (ss_output ss)
         | Blocked name p \<Rightarrow> all \<and> ss_output ss = [] \<and> no_newline name \<and> \<not> is_multiline c
         | Loading \<Rightarrow> all \<and> ss_output ss = [] \<and> \<not> is_multiline c \<and>
             (\<forall>name x. sv_load sv = Some (i, name, x) \<longrightarrow> no_newline name)
         | Closed \<Rightarrow> True)"

lemma served_reading:
  assumes "served c recv i sv" and "ss = sv_sessions sv ! i" and "ss_state ss = Reading"
  obtains (collecting) "ss_input ss = recv" "ss_output ss = []"
  | (answered) "recv = c @ newline" "ss_input ss = []" "framed (is_multiline c) (ss_output ss)"
  using assms by (auto simp: served_def Let_def)

text \<open>The steps of the other sessions.\<close>

lemma served_other:
  assumes "served c recv i sv" and "i < length (sv_sessions sv')"
    and "sv_sessions sv' ! i = sv_sessions sv ! i"
    and "ss_state (sv_sessions sv ! i) = Loading \<Longrightarrow> sv_load sv' = sv_load sv"
  shows "served c recv i sv'"
  using assms by (auto simp: served_def Let_def split: session_state.splits)

lemma served_elsewhere:
  assumes "served c recv i sv" and "j \<noteq> i"
    and "ss_state (sv_sessions sv ! i) = Loading \<Longrightarrow> load' = sv_load sv"
  shows "served c recv i ((put_session j r sv)\<lparr>sv_load := load'\<rparr>)"
    and "served c recv i (put_session j r sv)"
proof -
  obtain d ss where r: "r = (d, ss)" by fastforce
  have i: "i < length (sv_sessions sv)" using assms(1) by (simp add: served_def)
  show "served c recv i ((put_session j r sv)\<lparr>sv_load := load'\<rparr>)"
    by (rule served_other [OF assms(1)]) (use assms(2,3) i r in simp_all)
  show "served c recv i (put_session j r sv)"
    by (rule served_other [OF assms(1)]) (use assms(2) i r in simp_all)
qed

text \<open>A response that was written, or could not be.\<close>

lemma served_sent:
  assumes "send_response e r (d, ss\<lparr>ss_state := Reading\<rparr>) = (d', ss')" and "framed (is_multiline c) r"
    and "recv = c @ newline" and "ss_input ss = []" and "ss_output ss = []" and "i < length (sv_sessions sv)"
  shows "served c recv i ((put_session i (d', ss') sv)\<lparr>sv_load := load'\<rparr>)"
    and "served c recv i (put_session i (d', ss') sv)"
  using assms by (auto simp: served_def send_response_def split: if_splits)

lemma served_turn:
  assumes served: "served c recv i sv" and read: "ss_state (sv_sessions sv ! i) = Reading"
    and ans: "read_answer answer" and pre: "c @ newline = (recv @ label_bytes i (SvTurn i e stop answer)) @ tail"
  shows "served c (recv @ label_bytes i (SvTurn i e stop answer)) i
    (put_session i (sv_daemon sv, session_turn e stop answer (sv_sessions sv ! i)) sv)"
proof -
  let ?ss = "sv_sessions sv ! i"
  have i: "i < length (sv_sessions sv)" using served by (simp add: served_def)
  from served refl read show ?thesis
  proof (cases rule: served_reading)
    case collecting
    with i read show ?thesis
      by (cases stop; cases answer)
        (simp_all add: served_def session_turn_def session_read_def session_eof_def label_bytes_def)
  next
    case answered
    then have "label_bytes i (SvTurn i e stop answer) = []" using pre by simp
    with answered i read ans show ?thesis
      by (cases stop; cases answer)
        (simp_all add: served_def session_turn_def session_read_def session_eof_def label_bytes_def
          read_answer_def)
  qed
qed

text \<open>The turn of the loop that finds the line.\<close>

lemma busy_line:
  assumes served: "served c recv i sv" and line: "sound_line rd B c" and pre: "c @ newline = recv @ tail"
    and busy: "\<not> loop_done (sv_sessions sv ! i)"
  shows "recv = c @ newline" and "next_frame (ss_input (sv_sessions sv ! i)) = Line c []"
    and "ss_output (sv_sessions sv ! i) = []" and "ss_state (sv_sessions sv ! i) = Reading"
proof -
  let ?ss = "sv_sessions sv ! i"
  have c: "no_newline c" "length c < max_line_bytes" using line by (simp_all add: sound_line_def)
  show read: "ss_state ?ss = Reading" using busy by (simp add: loop_done_def)
  have "ss_input ?ss \<noteq> []"
    using busy by (auto simp: loop_done_def next_frame_def max_line_bytes_def)
  then have "ss_input ?ss = recv \<and> ss_output ?ss = []"
    using served_reading [OF served refl read] by blast
  moreover from this have "recv = c @ newline"
    using busy line_prefix_frame [OF pre c] by (simp add: loop_done_def split: if_splits)
  ultimately show "recv = c @ newline" and "next_frame (ss_input ?ss) = Line c []" and "ss_output ?ss = []"
    using line_prefix_frame [OF pre c] by simp_all
qed

context reliable_backend
begin

lemma served_serve:
  assumes inv: "server_inv binv held sv" and served: "served c recv i sv"
    and line: "sound_line rd B c" and pre: "c @ newline = recv @ tail"
    and busy: "\<not> loop_done (sv_sessions sv ! i)"
  shows "served c recv i (put_session i (serve_frame rd B e (sv_daemon sv, sv_sessions sv ! i)) sv)"
proof -
  let ?ss = "sv_sessions sv ! i" and ?d = "sv_daemon sv"
  note b = busy_line [OF served line pre busy]
  have i: "i < length (sv_sessions sv)" using served by (simp add: served_def)
  have same: "?ss\<lparr>ss_input := [], ss_state := Reading\<rparr> = ?ss\<lparr>ss_input := []\<rparr>" using b(4) by simp
  obtain out d1 where out: "answer_line rd B e c ?d = (out, d1)" by fastforce
  show ?thesis
  proof (cases out)
    case (Respond r)
    have "rz_books (dm_world ?d)" "nodes_ok ?d"
      using server_inv_parts(1,2) [OF inv] by (simp_all add: rz_inv_def)
    with line out Respond have r: "framed (is_multiline c) r" unfolding sound_line_def by blast
    obtain d' ss' where s: "send_response e r (d1, (?ss\<lparr>ss_input := []\<rparr>)\<lparr>ss_state := Reading\<rparr>) = (d', ss')"
      by fastforce
    then have "serve_frame rd B e (?d, ?ss) = (d', ss')"
      using b(2) out Respond same by (simp add: serve_frame_def)
    with served_sent(2) [OF s r b(1) _ _ i] b(3) show ?thesis by simp
  next
    case (Waits name p)
    let ?p = "parse_command (strip_cr c)"
    have d: "pa_ok ?p" "dispatch rd B e (pa_command ?p) ?d = (Waits name p, d1)"
      using out Waits by (auto simp: answer_line_def Let_def split: if_splits)
    have "cm_type (pa_command ?p) = command_type.Acquire"
      using d(2) by (cases "cm_type (pa_command ?p)") (simp_all add: dispatch_def case_prod_beta)
    moreover have "name = cm_name (pa_command ?p)" using d(2) by (rule dispatch_waits)
    ultimately have "\<not> is_multiline c \<and> no_newline name"
      using line d(1) by (simp add: sound_line_def Let_def)
    with b out Waits i show ?thesis by (simp add: served_def serve_frame_def)
  qed
qed

lemma served_load_begin:
  assumes served: "served c recv i sv" and line: "sound_line rd B c" and pre: "c @ newline = recv @ tail"
    and busy: "\<not> loop_done (sv_sessions sv ! i)"
    and load: "load_next rd B e (sv_daemon sv, sv_sessions sv ! i) = Some (name, m, es, b)"
  shows "served c recv i ((put_session i (session_load b (sv_daemon sv, sv_sessions sv ! i)) sv)
    \<lparr>sv_load := Some (i, name, m, es)\<rparr>)"
proof -
  note b = busy_line [OF served line pre busy]
  have i: "i < length (sv_sessions sv)" using served by (simp add: served_def)
  let ?p = "parse_command (strip_cr c)"
  have "pa_ok ?p \<and> cm_type (pa_command ?p) = command_type.LoadModel \<and> name = cm_name (pa_command ?p)"
    using load b(2) by (auto simp: load_next_def next_command_def Let_def split: if_splits)
  with line have "\<not> is_multiline c \<and> no_newline name" by (simp add: sound_line_def Let_def)
  with b i show ?thesis by (simp add: served_def session_load_def rest_of_input_def)
qed

lemma served_resume:
  assumes served: "served c recv i sv" and b: "ss_state (sv_sessions sv ! i) = Blocked name p"
    and res: "session_resume e name r (d, sv_sessions sv ! i) = (d', ss')"
  shows "served c recv i (put_session i (d', ss') sv)"
proof -
  let ?ss = "sv_sessions sv ! i"
  have s: "recv = c @ newline" "ss_input ?ss = []" "ss_output ?ss = []" "no_newline name" "\<not> is_multiline c"
    "i < length (sv_sessions sv)"
    using served b by (simp_all add: served_def Let_def)
  have f: "framed (is_multiline c) (format_operation_result ''acquired'' name r)"
    using s(4,5) by (simp add: framed_operation)
  have "send_response e (format_operation_result ''acquired'' name r)
      (note_metrics (mt_record_acquire (op_ok r) (op_amount r)) d, ?ss\<lparr>ss_state := Reading\<rparr>) = (d', ss')"
    using res by (simp add: session_resume_def finish_acquire_def)
  from served_sent(2) [OF this f s(1-3,6)] show ?thesis .
qed

lemma served_blocked:
  assumes "served c recv i sv" and b: "ss_state (sv_sessions sv ! i) = Blocked name p"
  shows "served c recv i (put_session i (session_wake e (sv_daemon sv, sv_sessions sv ! i)) sv)"
    and "served c recv i (put_session i (session_time_out e (sv_daemon sv, sv_sessions sv ! i)) sv)"
proof -
  have i: "i < length (sv_sessions sv)" using assms(1) by (simp add: served_def)
  obtain r rm where poll: "acquire_poll (re_now e) p (resources (sv_daemon sv)) = (r, rm)" by fastforce
  let ?d = "set_resources rm (sv_daemon sv)"
  show "served c recv i (put_session i (session_wake e (sv_daemon sv, sv_sessions sv ! i)) sv)"
  proof (cases r)
    case None
    have "served c recv i (put_session i (?d, sv_sessions sv ! i) sv)"
      by (rule served_other [OF assms(1)]) (use i in simp_all)
    with None poll b show ?thesis by (simp add: session_wake_def)
  next
    case (Some x)
    obtain d' ss' where "session_resume e name x (?d, sv_sessions sv ! i) = (d', ss')" by fastforce
    with served_resume [OF assms(1) b this] Some poll b show ?thesis by (simp add: session_wake_def)
  qed
  obtain x rm' where ex: "acquire_expire p (resources (sv_daemon sv)) = (x, rm')" by fastforce
  obtain d' ss' where "session_resume e name x (set_resources rm' (sv_daemon sv), sv_sessions sv ! i) = (d', ss')"
    by fastforce
  with served_resume [OF assms(1) b this] ex b
  show "served c recv i (put_session i (session_time_out e (sv_daemon sv, sv_sessions sv ! i)) sv)"
    by (simp add: session_time_out_def)
qed

lemma served_load_end:
  assumes inv: "server_inv binv held sv" and served: "served c recv i sv"
    and load: "sv_load sv = Some (i, name, m, es)"
  shows "served c recv i ((put_session i (session_loaded B e name m es
    (sv_daemon sv, sv_sessions sv ! i)) sv)\<lparr>sv_load := None\<rparr>)"
proof -
  let ?ss = "sv_sessions sv ! i" and ?d = "sv_daemon sv"
  have i: "i < length (sv_sessions sv)" using served by (simp add: served_def)
  with server_inv_parts(4) [OF inv] load have "ss_state ?ss = Loading" by (auto simp: holder_def)
  with served load have s: "recv = c @ newline" "ss_input ?ss = []" "ss_output ?ss = []" "no_newline name"
    "\<not> is_multiline c" by (simp_all add: served_def Let_def)
  obtain r w where c: "load_commit B (re_now e) (re_elapsed e) m es (dm_world ?d) = (r, w)" by fastforce
  have f: "framed (is_multiline c) (format_residency_operation_result ''loaded'' name r)"
    using s(4,5) by (simp add: format_residency_operation_result_def framed_model_operation)
  obtain d' ss' where "send_response e (format_residency_operation_result ''loaded'' name r)
      (note_metrics (mt_record_model_load (mo_ok r)) (?d\<lparr>dm_world := w\<rparr>), ?ss\<lparr>ss_state := Reading\<rparr>) = (d', ss')"
    by fastforce
  with served_sent(1) [OF this f s(1-3) i] c show ?thesis by (simp add: session_loaded_def)
qed

lemma served_step:
  assumes "server_step rd B sv l sv'" and inv: "server_inv binv held sv" and served: "served c recv i sv"
    and line: "sound_line rd B c" and pre: "c @ newline = (recv @ label_bytes i l) @ tail"
  shows "served c (recv @ label_bytes i l) i sv'"
proof -
  have i: "i < length (sv_sessions sv)" using served by (simp add: served_def)
  show ?thesis
    using assms(1)
  proof (cases rule: server_step.cases)
    case sv_accept
    then show ?thesis
      using i by (simp add: label_bytes_def) (rule served_other [OF served]; simp add: nth_append)
  next
    case sv_stopping
    then show ?thesis
      using i by (simp add: label_bytes_def) (rule served_other [OF served]; simp)
  next
    case sv_shut_down
    then show ?thesis
      using i by (simp add: label_bytes_def) (rule served_other [OF served]; simp add: server_cancel_def)
  next
    case sv_join
    then show ?thesis
      using i by (simp add: label_bytes_def) (rule served_other [OF served]; simp)
  next
    case (sv_turn j ss stop answer e)
    show ?thesis
    proof (cases "j = i")
      case True
      with sv_turn served_turn [OF served _ sv_turn(8), of e stop tail] pre show ?thesis by simp
    next
      case False
      then have "label_bytes i l = []"
        by (cases answer) (simp_all add: sv_turn(1) label_bytes_def)
      with sv_turn served_elsewhere(2) [OF served False] show ?thesis by simp
    qed
  next
    case (sv_serve j ss e)
    then have "label_bytes i l = []" by (simp add: label_bytes_def)
    with sv_serve pre show ?thesis
      using served_serve [OF inv served line, of tail e] served_elsewhere(2) [OF served, of j]
      by (cases "j = i") simp_all
  next
    case (sv_load_begin j ss e name m es b)
    have "ss_state (sv_sessions sv ! i) \<noteq> Loading"
      using server_inv_parts(4) [OF inv] served sv_load_begin by (auto simp: holder_def served_def)
    moreover have "label_bytes i l = []" by (simp add: sv_load_begin label_bytes_def)
    ultimately show ?thesis
      using sv_load_begin pre served_load_begin [OF served line, of tail e name m es b]
        served_elsewhere(1) [OF served, of j]
      by (cases "j = i") simp_all
  next
    case (sv_wake j ss name p e)
    then have "label_bytes i l = []" by (simp add: label_bytes_def)
    with sv_wake show ?thesis
      using served_blocked(1) [OF served, of name p e] served_elsewhere(2) [OF served, of j]
      by (cases "j = i") simp_all
  next
    case (sv_expire j ss name p e)
    then have "label_bytes i l = []" by (simp add: label_bytes_def)
    with sv_expire show ?thesis
      using served_blocked(2) [OF served, of name p e] served_elsewhere(2) [OF served, of j]
      by (cases "j = i") simp_all
  next
    case (sv_load_end j name m es ss e)
    have "ss_state (sv_sessions sv ! i) = Loading \<longrightarrow> j = i"
      using server_inv_parts(4) [OF inv] served sv_load_end by (auto simp: holder_def served_def)
    moreover have "label_bytes i l = []" by (simp add: sv_load_end label_bytes_def)
    ultimately show ?thesis
      using sv_load_end served_load_end [OF inv served, of name m es e]
        served_elsewhere(1) [OF served, of j]
      by (cases "j = i") simp_all
  qed
qed

lemma served_run:
  "run (server_step rd B) sv ls sv' \<Longrightarrow> server_inv binv held sv \<Longrightarrow> served c recv i sv \<Longrightarrow>
   sound_line rd B c \<Longrightarrow> c @ newline = (recv @ received i ls) @ tail \<Longrightarrow>
   served c (recv @ received i ls) i sv'"
proof (induction arbitrary: recv rule: run.induct)
  case (run_cons s l t ls u)
  have "served c (recv @ label_bytes i l) i t"
    using run_cons.prems
    by (intro served_step [OF run_cons.hyps(1), where tail = "received i ls @ tail"]) simp_all
  moreover have "server_inv binv held t"
    using server_step_sound [OF run_cons.hyps(1)] run_cons.prems(1) by (simp add: step_sound_def)
  ultimately show ?case
    using run_cons.IH [of "recv @ label_bytes i l"] run_cons.prems by simp
qed simp

lemma request_answered:
  assumes "server_start binv held sv0" and "run (server_step rd B) sv0 ls sv"
    and "i < length (sv_sessions sv)" and "sv_sessions sv ! i = new_session"
    and "run (server_step rd B) sv ls' sv'" and "received i ls' = c @ newline" and "sound_line rd B c"
    and "ss_state (sv_sessions sv' ! i) = Reading" and "ss_input (sv_sessions sv' ! i) = []"
  shows "framed (is_multiline c) (ss_output (sv_sessions sv' ! i))"
proof -
  have "served c [] i sv" using assms(3,4) by (simp add: served_def new_session_def)
  from served_run [OF assms(5) server_reachable(1) [OF assms(1,2)] this assms(7), of "[]"] assms(6)
  have "served c (c @ newline) i sv'" by simp
  with assms(8,9) show ?thesis by (auto elim: served_reading [OF _ refl])
qed

end

section \<open>The client's side\<close>

text \<open>
  C6: a request gets its whole answer. A client connects to a daemon in any state it can
  reach and sends a command of any tokens but \<open>models\<close>. However its bytes are cut, however
  long its request waits or loads and whatever the other sessions do meanwhile, once its
  session has read them and is back at its loop the client returns exactly what the session
  has written: one whole response that begins with OK or ERR, with the error it stands for.
\<close>

theorem client_gets_whole_answer:
  assumes "reliable_backend B binv held" and "token_lines B"
    and "server_start binv held sv0" and "run (server_step rd B) sv0 ls sv"
    and "i < length (sv_sessions sv)" and "sv_sessions sv ! i = new_session"
    and "list_all (is_token is_space) ts" and "ts = verb # args" and "verb \<noteq> ''models''"
    and "length (join_tokens ts) < max_line_bytes"
    and "connect_socket path conn"
    and "snd (write_all (cn_writes conn) (join_tokens ts @ newline)) = Some True"
    and "run (server_step rd B) sv ls' sv'"
    and "received i ls' = fst (client_request path conn (join_tokens ts))"
    and "ss_state (sv_sessions sv' ! i) = Reading" and "ss_input (sv_sessions sv' ! i) = []"
    and "stream_of (cn_reads conn) = Some (ss_output (sv_sessions sv' ! i))"
  shows "snd (client_request path conn (join_tokens ts)) = Some
      \<lparr>cr_error = (if starts_with ''OK '' (ss_output (sv_sessions sv' ! i)) then client_error.NoError
                   else client_error.BrokerRejected),
       cr_payload = ss_output (sv_sessions sv' ! i)\<rparr> \<and>
    framed (is_multiline (join_tokens ts)) (ss_output (sv_sessions sv' ! i))"
proof -
  let ?c = "join_tokens ts"
  have line: "no_newline ?c" "?c \<noteq> []"
    using joined_tokens_line [OF assms(7)] assms(8) by simp_all
  have sent: "fst (client_request path conn ?c) = ?c @ newline"
    using write_all_prefix [of "?c @ newline" "cn_writes conn"] assms(11,12) line
    by (simp add: client_request_def no_newline_def case_prod_beta)
  have framed: "framed (is_multiline ?c) (ss_output (sv_sessions sv' ! i))"
    by (rule reliable_backend.request_answered [OF assms(1,3-6,13) _
          tokens_sound_line [OF assms(2,7-10)] assms(15,16)])
      (simp add: assms(14) sent)
  from request_delivers [OF assms(11) line assms(12,17) framed] framed show ?thesis by simp
qed

text \<open>
  A connection to the daemon of 100 bytes: \<open>status\<close> arrives in two reads and is answered in
  one.
\<close>

definition status_conn :: "string \<Rightarrow> connection" where
  "status_conn r = \<lparr>cn_accepted = True, cn_writes = [Wrote 3, WriteInterrupted, Wrote 9],
     cn_reads = [Chunk r]\<rparr>"

definition status_server :: "session \<Rightarrow> mock_backend server" where
  "status_server ss = demo_server\<lparr>sv_sessions := [ss]\<rparr>"

lemma status_turn:
  assumes "next_frame a = NeedMore" and "b \<noteq> []" and "length b \<le> 4096"
  shows "server_step id mock_ops (status_server (new_session\<lparr>ss_input := a\<rparr>))
    (SvTurn 0 demo_env False (Received b)) (status_server (new_session\<lparr>ss_input := a @ b\<rparr>))"
  using server_step.sv_turn [of 0 "status_server (new_session\<lparr>ss_input := a\<rparr>)" "new_session\<lparr>ss_input := a\<rparr>"
      False "Received b" id mock_ops demo_env] assms
  by (simp add: status_server_def loop_done_def new_session_def read_answer_def put_session_def
      session_turn_def session_read_def demo_server_def)

lemma status_run:
  "\<exists>sv'. run (server_step id mock_ops) (status_server new_session)
     [SvTurn 0 demo_env False (Received ''sta''), SvTurn 0 demo_env False (Received (''tus'' @ newline)),
      SvServe 0 demo_env] sv' \<and>
   sv_sessions sv' = [\<lparr>ss_input = [], ss_output = format_status (rm_status (rw_resources demo_world)),
     ss_state = Reading\<rparr>]"
proof -
  let ?ss = "\<lambda>inp. new_session\<lparr>ss_input := inp\<rparr>" and ?step = "server_step id mock_ops"
  let ?d = "sv_daemon demo_server"
  have "\<not> CHR 0x0A \<in> set ''sta''" by simp
  then have more: "next_frame [] = NeedMore" "next_frame ''sta'' = NeedMore"
    by (simp_all add: next_frame_def max_line_bytes_def)
  have frame: "next_frame (''status'' @ newline) = Line ''status'' []"
    using next_frame_line [of "''status''" "[]"] by (simp add: max_line_bytes_def)
  have parse: "parse_command (strip_cr ''status'') = parsed (empty_command\<lparr>cm_type := command_type.Status\<rparr>)"
    using parse_join [of "[''status'']"] by (simp add: strip_cr_def parse_tokens_def parse_plain_def)
  let ?sv' = "put_session 0 (serve_frame id mock_ops demo_env (?d, ?ss (''status'' @ newline)))
      (status_server (?ss (''status'' @ newline)))"
  have cmd: "next_command (?ss (''status'' @ newline)) = Some (empty_command\<lparr>cm_type := command_type.Status\<rparr>)"
    using frame parse by (simp add: next_command_def pa_ok_def)
  have "?step (status_server (?ss (''status'' @ newline))) (SvServe 0 demo_env) ?sv'"
    using server_step.sv_serve [of 0 "status_server (?ss (''status'' @ newline))"
        "?ss (''status'' @ newline)" id mock_ops demo_env] frame cmd
    by (simp add: status_server_def loop_done_def new_session_def residency_next_def takes_residency_def
        load_next_def demo_server_def)
  moreover have "sv_sessions ?sv' = [\<lparr>ss_input = [],
      ss_output = format_status (rm_status (rw_resources demo_world)), ss_state = Reading\<rparr>]"
    using frame parse
    by (simp add: serve_frame_def answer_line_def pa_ok_def dispatch_def send_response_def demo_env_def
        put_session_def status_server_def demo_server_def new_session_def)
  moreover have "new_session = ?ss []" by (simp add: new_session_def)
  ultimately show ?thesis
    using status_turn [OF more(1), of "''sta''"] status_turn [OF more(2), of "''tus'' @ newline"]
    by (intro exI [of _ ?sv'] conjI run_cons run_nil) simp_all
qed

lemma status_accepted: "run (server_step id mock_ops) demo_server [SvAccept] (status_server new_session)"
  using server_step.sv_accept [of demo_server id mock_ops]
  by (intro run_cons [OF _ run_nil]) (simp add: demo_server_def status_server_def)

theorem client_gets_whole_answer_witness:
  "snd (client_request ''/s'' (status_conn (format_status (rm_status (rw_resources demo_world)))) ''status'') =
     Some \<lparr>cr_error = client_error.NoError, cr_payload = format_status (rm_status (rw_resources demo_world))\<rparr>"
proof -
  let ?status = "format_status (rm_status (rw_resources demo_world))"
  obtain sv' where r: "run (server_step id mock_ops) (status_server new_session)
     [SvTurn 0 demo_env False (Received ''sta''), SvTurn 0 demo_env False (Received (''tus'' @ newline)),
      SvServe 0 demo_env] sv'"
    and ss: "sv_sessions sv' = [\<lparr>ss_input = [], ss_output = ?status, ss_state = Reading\<rparr>]"
    using status_run by blast
  have conn: "connect_socket ''/s'' (status_conn ?status)"
    by (simp add: connect_socket_def sun_path_size_def status_conn_def)
  have sent: "fst (client_request ''/s'' (status_conn ?status) ''status'') = ''status'' @ newline"
    using conn by (simp add: client_request_def status_conn_def)
  have ok: "starts_with ''OK '' ?status" by (simp add: format_status_def starts_with_def)
  then have ne: "?status \<noteq> []" by (auto simp: starts_with_def)
  have tok: "list_all (is_token is_space) [''status'']" by (simp add: is_token_def is_space_def)
  have verb: "''status'' \<noteq> (''models'' :: string)" by simp
  have "snd (client_request ''/s'' (status_conn ?status) (join_tokens [''status''])) = Some
      \<lparr>cr_error = (if starts_with ''OK '' (ss_output (sv_sessions sv' ! 0)) then client_error.NoError
                   else client_error.BrokerRejected), cr_payload = ss_output (sv_sessions sv' ! 0)\<rparr>"
    by (rule conjunct1 [OF client_gets_whole_answer [OF mock_contract mock_token_lines demo_server_start
          status_accepted _ _ tok refl verb, where ls' = "[SvTurn 0 demo_env False (Received ''sta''),
          SvTurn 0 demo_env False (Received (''tus'' @ newline)), SvServe 0 demo_env]" and i = 0 and sv' = sv']])
      (use conn sent r ss ne in \<open>simp_all add: status_server_def max_line_bytes_def label_bytes_def
        status_conn_def\<close>)
  with ss ok show ?thesis by simp
qed

end
