(* ===== verification/ClientOperations.thy ===== *)
theory ClientOperations
  imports ClientServer ResourceProperties
begin

text \<open>
  Operations of the client library from end to end: the command it formats, the session that
  parses it, the dispatcher, the resource manager, the response and what the client makes
  of it.
\<close>

section \<open>One line in one turn\<close>

lemma serve_step_line:
  assumes step: "server_step rd B sv (SvServe i e) sv'"
    and i: "i < length (sv_sessions sv)" "sv_sessions sv ! i = session_read (c @ newline) new_session"
    and c: "no_newline c" "length c < max_line_bytes" and sent: "re_delivered e"
    and ans: "answer_line rd B e c (sv_daemon sv) = (Respond r, d')"
  shows "resources (sv_daemon sv') = resources d'" and "ss_output (sv_sessions sv' ! i) = r"
proof -
  have frame: "next_frame (c @ newline) = Line c []"
    using next_frame_line [OF c, of "[]"] by simp
  have "sv' = put_session i (serve_frame rd B e (sv_daemon sv, sv_sessions sv ! i)) sv"
    using step by cases simp
  then have sv': "sv' = put_session i (note_metrics (mt_record_request (starts_with ''OK'' r)) d',
      \<lparr>ss_input = [], ss_output = r, ss_state = Reading\<rparr>) sv"
    using frame ans sent
    by (simp add: i(2) serve_frame_def send_response_def session_read_def new_session_def)
  then show "resources (sv_daemon sv') = resources d'" and "ss_output (sv_sessions sv' ! i) = r"
    using i(1) by simp_all
qed

lemma command_line:
  assumes "c = join_tokens ts" and "list_all (is_token is_space) ts" and "ts \<noteq> []"
  shows "no_newline c" and "strip_cr c = c" and "c \<noteq> []"
  using joined_tokens_line [OF assms(2,3)] assms(1) by simp_all

lemma request_sent:
  assumes "connect_socket path conn" and "no_newline c" and "c \<noteq> []"
    and "snd (write_all (cn_writes conn) (c @ newline)) = Some True"
  shows "fst (client_request path conn c) = c @ newline"
  using write_all_prefix [of "c @ newline" "cn_writes conn"] assms
  by (simp add: client_request_def no_newline_def case_prod_beta)

lemma name_length: "rm_valid_name name \<Longrightarrow> length name \<le> 64"
  by (simp add: rm_valid_name_def split: if_splits)

lemma single_request:
  assumes "is_token is_blank verb" and "verb \<notin> listing_verbs" and "verb \<noteq> ''models''"
  shows "\<not> is_multiline (verb @ '' '' @ args)"
  using is_multiline_tokens [OF assms(1), of "'' '' @ args"] assms(2,3) by (simp add: is_blank_def)

lemma operation_payload:
  "starts_with ''OK '' (format_operation_result action name r) \<longleftrightarrow> op_ok r"
  by (cases "op_error r") (simp_all add: format_operation_result_def op_ok_def starts_with_def)

text \<open>The client's command, one turn of its session, and the response back at the client.\<close>

lemma request_round_trip:
  assumes c: "no_newline c" "c \<noteq> []" "length c < max_line_bytes" "\<not> is_multiline c"
    and conn: "connect_socket path conn" "snd (write_all (cn_writes conn) (c @ newline)) = Some True"
    and i: "i < length (sv_sessions sv)"
      "sv_sessions sv ! i = session_read (fst (client_request path conn c)) new_session"
    and step: "server_step rd B sv (SvServe i e) sv'" and sent: "re_delivered e"
    and reads: "stream_of (cn_reads conn) = Some (ss_output (sv_sessions sv' ! i))"
    and ans: "answer_line rd B e c (sv_daemon sv) = (Respond (format_operation_result action name r), d')"
    and names: "no_newline action" "no_newline name"
  shows "resources (sv_daemon sv') = resources d' \<and> snd (client_request path conn c) = Some
    \<lparr>cr_error = (if op_ok r then client_error.NoError else client_error.BrokerRejected),
     cr_payload = format_operation_result action name r\<rparr>"
proof -
  have line: "sv_sessions sv ! i = session_read (c @ newline) new_session"
    using i(2) request_sent [OF conn(1) c(1,2) conn(2)] by simp
  note turn = serve_step_line [OF step i(1) line c(1,3) sent ans]
  have "framed (is_multiline c) (format_operation_result action name r)"
    using c(4) framed_operation [OF names] by simp
  from request_delivers [OF conn(1) c(1,2) conn(2) reads [unfolded turn(2)] this] turn(1)
  show ?thesis by (simp add: operation_payload)
qed

section \<open>Try-acquire\<close>

lemma try_acquire_line:
  assumes "rm_valid_name name"
  shows "no_newline (try_acquire_command name n)" and "strip_cr (try_acquire_command name n) = try_acquire_command name n"
    and "try_acquire_command name n \<noteq> []" and "length (try_acquire_command name n) < max_line_bytes"
    and "\<not> is_multiline (try_acquire_command name n)"
proof -
  have c: "try_acquire_command name n = join_tokens [''try_acquire'', name, show_u64 n]"
    by (simp add: try_acquire_command_def)
  have tok: "list_all (is_token is_space) [''try_acquire'', name, show_u64 n]"
    using name_token [OF assms] show_token by (simp add: is_token_def is_space_def)
  from command_line [OF c tok] show "no_newline (try_acquire_command name n)"
    and "strip_cr (try_acquire_command name n) = try_acquire_command name n"
    and "try_acquire_command name n \<noteq> []" by simp_all
  have "unat n < 10 ^ 20" using unat_le_u64_max [of n] by (simp add: u64_max_def)
  then have "length (show_u64 n) \<le> 20" by (simp add: show_u64_def show_nat_length)
  with name_length [OF assms] show "length (try_acquire_command name n) < max_line_bytes"
    by (simp add: try_acquire_command_def max_line_bytes_def)
  have "try_acquire_command name n = ''try_acquire'' @ '' '' @ (name @ '' '' @ show_u64 n)"
    by (simp add: try_acquire_command_def)
  then show "\<not> is_multiline (try_acquire_command name n)"
    using single_request [of "''try_acquire''"] by (simp add: listing_verbs_def)
qed

lemma try_acquire_answer:
  assumes "rm_valid_name name" and "n \<noteq> 0"
    and "rm_try_acquire (re_now e) name n (resources d) = (r, rm)"
  shows "\<exists>d'. answer_line rd B e (try_acquire_command name n) d =
    (Respond (format_operation_result ''acquired'' name r), d') \<and> resources d' = rm"
  using client_commands_understood [OF assms(1,2)] assms(3)
  by (simp add: answer_line_def try_acquire_line(2) [OF assms(1)] pa_ok_def dispatch_def
      dispatch_acquire_def finish_acquire_def)

text \<open>
  C10: \<open>Client::try_acquire\<close> means what it says, through the whole system. In any state the
  daemon can reach, when a client's \<open>try_acquire\<close> is served, the client is told OK if and
  only if the name is not in use and the bytes fit beside everything reserved, computed
  without wrap-around; then exactly these bytes are reserved under its name and no other
  client loses a reservation. Otherwise it is told an error and nothing has changed.
\<close>

theorem try_acquire_end_to_end:
  assumes "reliable_backend B binv held" and "server_start binv held sv0"
    and "run (server_step rd B) sv0 ls sv"
    and "rm_valid_name name" and "n \<noteq> 0"
    and "connect_socket path conn"
    and "snd (write_all (cn_writes conn) (try_acquire_command name n @ newline)) = Some True"
    and "i < length (sv_sessions sv)"
    and "sv_sessions sv ! i =
      session_read (fst (client_request path conn (try_acquire_command name n))) new_session"
    and "server_step rd B sv (SvServe i e) sv'" and "re_delivered e"
    and "stream_of (cn_reads conn) = Some (ss_output (sv_sessions sv' ! i))"
  shows "\<exists>response. snd (client_request path conn (try_acquire_command name n)) = Some response \<and>
    (if \<not> has_name_locked name (resources (sv_daemon sv)) \<and>
        unat n + rm_total (resources (sv_daemon sv)) \<le> unat (rm_capacity (resources (sv_daemon sv)))
     then cr_ok response \<and>
       cr_payload response = ''OK acquired '' @ name @ '' '' @ show_u64 n @ newline \<and>
       map_of (rm_reservations (resources (sv_daemon sv'))) name = Some n \<and>
       (\<forall>k m. map_of (rm_reservations (resources (sv_daemon sv))) k = Some m \<longrightarrow>
          map_of (rm_reservations (resources (sv_daemon sv'))) k = Some m)
     else \<not> cr_ok response \<and> starts_with ''ERR '' (cr_payload response) \<and>
       resources (sv_daemon sv') = resources (sv_daemon sv))"
proof -
  let ?s = "resources (sv_daemon sv)" and ?c = "try_acquire_command name n"
  have inv: "rm_inv ?s"
    using reliable_backend.server_inv_good [OF assms(1) reliable_backend.server_reachable(1) [OF assms(1-3)]]
    by (simp add: rm_good_def)
  obtain r rm where r: "rm_try_acquire (re_now e) name n ?s = (r, rm)" by fastforce
  obtain d' where ans: "answer_line rd B e ?c (sv_daemon sv) =
      (Respond (format_operation_result ''acquired'' name r), d')" and d': "resources d' = rm"
    using try_acquire_answer [OF assms(4,5) r] by blast
  note c = try_acquire_line [OF assms(4)]
  have out: "resources (sv_daemon sv') = rm \<and> snd (client_request path conn ?c) = Some
      \<lparr>cr_error = (if op_ok r then client_error.NoError else client_error.BrokerRejected),
       cr_payload = format_operation_result ''acquired'' name r\<rparr>"
    using request_round_trip [OF c(1,3,4,5) assms(6-12) ans _ name_no_newline [OF assms(4)]] d' by simp
  have "framed False (format_operation_result ''acquired'' name r)"
    by (rule framed_operation) (simp_all add: name_no_newline [OF assms(4)])
  then have err: "\<not> op_ok r \<Longrightarrow> starts_with ''ERR '' (format_operation_result ''acquired'' name r)"
    using operation_payload by (auto simp: framed_def)
  have okay: "format_operation_result ''acquired'' name (op_done n) =
      ''OK acquired '' @ name @ '' '' @ show_u64 n @ newline"
    by (simp add: format_operation_result_def op_ok_def)
  show ?thesis
    using try_acquire_result [OF inv r] out err okay assms(4,5)
    by (auto simp: cr_ok_def op_ok_def split: if_splits)
qed

text \<open>A client of the daemon of 100 bytes that is connected and has sent a command.\<close>

lemma connected:
  assumes "sv_phase sv = Accepting" and "\<not> sv_stop sv" and "no_newline c" and "length c < max_line_bytes"
  shows "run (server_step rd B) sv
    [SvAccept, SvTurn (length (sv_sessions sv)) e False (Received (c @ newline))]
    (sv\<lparr>sv_sessions := sv_sessions sv @ [session_read (c @ newline) new_session]\<rparr>)"
proof -
  let ?sv = "sv\<lparr>sv_sessions := sv_sessions sv @ [new_session]\<rparr>" and ?i = "length (sv_sessions sv)"
  have "next_frame [] = NeedMore" by (simp add: next_frame_def max_line_bytes_def)
  then have "server_step rd B ?sv (SvTurn ?i e False (Received (c @ newline)))
      (put_session ?i (sv_daemon ?sv, session_turn e False (Received (c @ newline)) new_session) ?sv)"
    using assms(4) by (intro sv_turn)
      (simp_all add: nth_append loop_done_def new_session_def read_answer_def max_line_bytes_def)
  then have "server_step rd B ?sv (SvTurn ?i e False (Received (c @ newline)))
      (sv\<lparr>sv_sessions := sv_sessions sv @ [session_read (c @ newline) new_session]\<rparr>)"
    by (simp add: put_session_def session_turn_def)
  with server_step.sv_accept [OF assms(1)] show ?thesis by (auto intro: run_cons run_nil)
qed

lemma serve_possible:
  assumes "i < length (sv_sessions sv)" and "sv_sessions sv ! i = session_read (c @ newline) new_session"
    and "no_newline c" and "length c < max_line_bytes" and "sv_load sv = None"
    and "parse_command (strip_cr c) = parsed cmd" and "cm_type cmd \<noteq> command_type.LoadModel"
  shows "server_step rd B sv (SvServe i e)
    (put_session i (serve_frame rd B e (sv_daemon sv, sv_sessions sv ! i)) sv)"
proof -
  have "next_frame (c @ newline) = Line c []" using next_frame_line [OF assms(3,4), of "[]"] by simp
  then show ?thesis
    using assms by (intro sv_serve)
      (simp_all add: loop_done_def load_next_def next_command_def session_read_def new_session_def pa_ok_def)
qed

definition demo_conn :: "string \<Rightarrow> connection" where
  "demo_conn r = \<lparr>cn_accepted = True, cn_writes = [Wrote 4096], cn_reads = [Chunk r]\<rparr>"

lemma demo_conn_delivers:
  assumes "length c < max_line_bytes"
  shows "connect_socket ''/s'' (demo_conn r)" and "snd (write_all (cn_writes (demo_conn r)) (c @ newline)) = Some True"
    and "r \<noteq> [] \<Longrightarrow> stream_of (cn_reads (demo_conn r)) = Some r"
  using assms
  by (simp_all add: demo_conn_def connect_socket_def sun_path_size_def max_line_bytes_def)
    (cases c; simp)

definition demo_trying :: "mock_backend server" where
  "demo_trying = demo_server\<lparr>sv_sessions := [session_read (try_acquire_command ''a'' 5 @ newline) new_session]\<rparr>"

definition demo_tried :: "mock_backend server" where
  "demo_tried = put_session 0 (serve_frame id mock_ops demo_env (sv_daemon demo_trying,
     sv_sessions demo_trying ! 0)) demo_trying"

lemma demo_name: "rm_valid_name ''a''"
  by (simp add: rm_valid_name_def)

lemma demo_trying_run: "run (server_step id mock_ops) demo_server
    [SvAccept, SvTurn 0 demo_env False (Received (try_acquire_command ''a'' 5 @ newline))] demo_trying"
  using connected [of demo_server "try_acquire_command ''a'' 5" id mock_ops demo_env]
    try_acquire_line(1,4) [OF demo_name]
  by (simp add: demo_server_def demo_trying_def del: run_Cons_iff)

lemma demo_tried_step: "server_step id mock_ops demo_trying (SvServe 0 demo_env) demo_tried"
  unfolding demo_tried_def
  by (rule serve_possible [where c = "try_acquire_command ''a'' 5" and cmd = "empty_command\<lparr>
      cm_type := command_type.Acquire, cm_name := ''a'', cm_bytes := 5, cm_mode := Try,
      cm_options := default_options\<lparr>ao_priority := 0, ao_timeout := 0\<rparr>\<rparr>"])
    (use try_acquire_line [OF demo_name] client_commands_understood [OF demo_name, of 5] in
      \<open>simp_all add: demo_trying_def demo_server_def\<close>)

lemma demo_tried_state:
  "map_of (rm_reservations (resources (sv_daemon demo_tried))) ''a'' = Some 5"
  "ss_output (sv_sessions demo_tried ! 0) \<noteq> []"
proof -
  let ?rm = "resources (sv_daemon demo_trying)"
  obtain r rm where r: "rm_try_acquire 0 ''a'' 5 ?rm = (r, rm)" by fastforce
  have env: "re_now demo_env = 0" "re_delivered demo_env" by (simp_all add: demo_env_def)
  have five: "(5 :: bytes) \<noteq> 0" by simp
  have r': "rm_try_acquire (re_now demo_env) ''a'' 5 ?rm = (r, rm)" using r env by simp
  obtain d' where ans: "answer_line id mock_ops demo_env (try_acquire_command ''a'' 5) (sv_daemon demo_trying) =
      (Respond (format_operation_result ''acquired'' ''a'' r), d')" and d': "resources d' = rm"
    using try_acquire_answer [OF demo_name five r'] by blast
  have "0 < length (sv_sessions demo_trying)"
    "sv_sessions demo_trying ! 0 = session_read (try_acquire_command ''a'' 5 @ newline) new_session"
    by (simp_all add: demo_trying_def)
  from serve_step_line [OF demo_tried_step this try_acquire_line(1,4) [OF demo_name] env(2) ans]
  have out: "resources (sv_daemon demo_tried) = rm"
    "ss_output (sv_sessions demo_tried ! 0) = format_operation_result ''acquired'' ''a'' r"
    using d' by simp_all
  have rm0: "?rm = rw_resources demo_world" by (simp add: demo_trying_def demo_server_def)
  have "rm_inv ?rm"
    using mock.server_inv_good [OF mock.server_start_inv [OF demo_server_start]] rm0
    by (simp add: rm_good_def demo_server_def)
  from try_acquire_result [OF this r] have "r = op_done 5 \<and> map_of (rm_reservations rm) ''a'' = Some 5"
    by (simp add: rm0 demo_name demo_world_def has_name_locked_def um_contains_def rm_total_def um_total_def)
  then show "map_of (rm_reservations (resources (sv_daemon demo_tried))) ''a'' = Some 5"
    "ss_output (sv_sessions demo_tried ! 0) \<noteq> []"
    by (simp_all add: out format_operation_result_def op_ok_def)
qed

theorem try_acquire_end_to_end_witness:
  "\<exists>response. snd (client_request ''/s'' (demo_conn (ss_output (sv_sessions demo_tried ! 0)))
      (try_acquire_command ''a'' 5)) = Some response \<and> cr_ok response \<and>
     server_step id mock_ops demo_trying (SvServe 0 demo_env) demo_tried"
proof -
  let ?conn = "demo_conn (ss_output (sv_sessions demo_tried ! 0))"
  note c = try_acquire_line [OF demo_name, of 5]
  note conn = demo_conn_delivers [OF c(4), of "ss_output (sv_sessions demo_tried ! 0)"]
  have i: "0 < length (sv_sessions demo_trying)" by (simp add: demo_trying_def)
  have read: "sv_sessions demo_trying ! 0 =
      session_read (fst (client_request ''/s'' ?conn (try_acquire_command ''a'' 5))) new_session"
    using request_sent [OF conn(1) c(1,3) conn(2)] by (simp add: demo_trying_def)
  have five: "(5 :: bytes) \<noteq> 0" and env: "re_delivered demo_env" by (simp_all add: demo_env_def)
  have room: "\<not> has_name_locked ''a'' (resources (sv_daemon demo_trying)) \<and>
      unat (5 :: bytes) + rm_total (resources (sv_daemon demo_trying)) \<le>
        unat (rm_capacity (resources (sv_daemon demo_trying)))"
    by (simp add: demo_trying_def demo_server_def demo_world_def has_name_locked_def um_contains_def
        rm_total_def um_total_def)
  from try_acquire_end_to_end [OF mock_contract demo_server_start demo_trying_run demo_name five conn(1,2)
      i read demo_tried_step env conn(3) [OF demo_tried_state(2)]] room demo_tried_step
  show ?thesis by auto
qed

section \<open>Release\<close>

lemma release_line:
  assumes "rm_valid_name name"
  shows "no_newline (release_command name)" and "strip_cr (release_command name) = release_command name"
    and "release_command name \<noteq> []" and "length (release_command name) < max_line_bytes"
    and "\<not> is_multiline (release_command name)"
proof -
  have c: "release_command name = join_tokens [''release'', name]"
    by (simp add: release_command_def)
  have tok: "list_all (is_token is_space) [''release'', name]"
    using name_token [OF assms] by (simp add: is_token_def is_space_def)
  from command_line [OF c tok] show "no_newline (release_command name)"
    and "strip_cr (release_command name) = release_command name"
    and "release_command name \<noteq> []" by simp_all
  show "length (release_command name) < max_line_bytes"
    using name_length [OF assms] by (simp add: release_command_def max_line_bytes_def)
  have "release_command name = ''release'' @ '' '' @ name" by (simp add: release_command_def)
  then show "\<not> is_multiline (release_command name)"
    using single_request [of "''release''"] by (simp add: listing_verbs_def)
qed

lemma release_answer:
  assumes "rm_valid_name name" and "rm_release (re_now e) name (resources d) = (r, rm)"
  shows "\<exists>d'. answer_line rd B e (release_command name) d =
    (Respond (format_operation_result ''released'' name r), d') \<and> resources d' = rm"
proof -
  have "parse_command (release_command name) =
      parsed (empty_command\<lparr>cm_type := command_type.Release, cm_name := name\<rparr>)"
    using client_commands_understood [OF assms(1), of 1] by simp
  with assms(2) show ?thesis
    by (simp add: answer_line_def release_line(2) [OF assms(1)] pa_ok_def dispatch_def dispatch_release_def)
qed

text \<open>
  C11: \<open>Client::release\<close> gives back what the client held, through the whole system. In any
  state the daemon can reach, when a client's \<open>release\<close> is served, the client is told OK with
  the bytes its name held and the name no longer holds them (unless a waiting request of
  that name is served at once), and a client that held nothing is told an error and
  nothing has changed; no other client loses its reservation.
\<close>

theorem release_end_to_end:
  assumes "reliable_backend B binv held" and "server_start binv held sv0"
    and "run (server_step rd B) sv0 ls sv" and "rm_valid_name name"
    and "connect_socket path conn"
    and "snd (write_all (cn_writes conn) (release_command name @ newline)) = Some True"
    and "i < length (sv_sessions sv)"
    and "sv_sessions sv ! i = session_read (fst (client_request path conn (release_command name))) new_session"
    and "server_step rd B sv (SvServe i e) sv'" and "re_delivered e"
    and "stream_of (cn_reads conn) = Some (ss_output (sv_sessions sv' ! i))"
  shows "\<exists>response. snd (client_request path conn (release_command name)) = Some response \<and>
    (case map_of (rm_reservations (resources (sv_daemon sv))) name of
       None \<Rightarrow> \<not> cr_ok response \<and> resources (sv_daemon sv') = resources (sv_daemon sv)
     | Some n \<Rightarrow> cr_ok response \<and>
         cr_payload response = ''OK released '' @ name @ '' '' @ show_u64 n @ newline \<and>
         resources (sv_daemon sv') =
           grant_waiters_locked (re_now e) (drop_client name n (resources (sv_daemon sv))) \<and>
         (\<forall>k m. k \<noteq> name \<longrightarrow> map_of (rm_reservations (resources (sv_daemon sv))) k = Some m \<longrightarrow>
            map_of (rm_reservations (resources (sv_daemon sv'))) k = Some m))"
proof -
  let ?s = "resources (sv_daemon sv)" and ?c = "release_command name"
  have inv: "rm_inv ?s"
    using reliable_backend.server_inv_good [OF assms(1) reliable_backend.server_reachable(1) [OF assms(1-3)]]
    by (simp add: rm_good_def)
  obtain r rm where r: "rm_release (re_now e) name ?s = (r, rm)" by fastforce
  obtain d' where ans: "answer_line rd B e ?c (sv_daemon sv) =
      (Respond (format_operation_result ''released'' name r), d')" and d': "resources d' = rm"
    using release_answer [OF assms(4) r] by blast
  note c = release_line [OF assms(4)]
  have out: "resources (sv_daemon sv') = rm \<and> snd (client_request path conn ?c) = Some
      \<lparr>cr_error = (if op_ok r then client_error.NoError else client_error.BrokerRejected),
       cr_payload = format_operation_result ''released'' name r\<rparr>"
    using request_round_trip [OF c(1,3,4,5) assms(5-11) ans _ name_no_newline [OF assms(4)]] d' by simp
  have okay: "format_operation_result ''released'' name (op_done n) =
      ''OK released '' @ name @ '' '' @ show_u64 n @ newline" for n
    by (simp add: format_operation_result_def op_ok_def)
  show ?thesis
    using release_result [OF inv r] out okay
    by (cases "map_of (rm_reservations ?s) name") (auto simp: cr_ok_def op_ok_def)
qed

definition demo_releasing :: "mock_backend server" where
  "demo_releasing = demo_tried\<lparr>sv_sessions := sv_sessions demo_tried @
     [session_read (release_command ''a'' @ newline) new_session]\<rparr>"

definition demo_released :: "mock_backend server" where
  "demo_released = put_session 1 (serve_frame id mock_ops demo_env (sv_daemon demo_releasing,
     sv_sessions demo_releasing ! 1)) demo_releasing"

lemma demo_tried_shape:
  "length (sv_sessions demo_tried) = 1" "sv_phase demo_tried = Accepting" "\<not> sv_stop demo_tried"
  "sv_load demo_tried = None"
  by (simp_all add: demo_tried_def put_session_def case_prod_beta demo_trying_def demo_server_def)

lemma demo_releasing_run: "\<exists>ls. run (server_step id mock_ops) demo_server ls demo_releasing"
proof -
  have "run (server_step id mock_ops) demo_tried
      [SvAccept, SvTurn 1 demo_env False (Received (release_command ''a'' @ newline))] demo_releasing"
    using connected [of demo_tried "release_command ''a''" id mock_ops demo_env]
      release_line(1,4) [OF demo_name] demo_tried_shape
    by (simp add: demo_releasing_def del: run_Cons_iff)
  with run_snoc [OF demo_trying_run demo_tried_step] show ?thesis by (blast intro: run_append)
qed

lemma demo_released_step: "server_step id mock_ops demo_releasing (SvServe 1 demo_env) demo_released"
proof -
  have "parse_command (strip_cr (release_command ''a'')) =
      parsed (empty_command\<lparr>cm_type := command_type.Release, cm_name := ''a''\<rparr>)"
    using client_commands_understood [OF demo_name, of 1] by (simp add: release_line(2) [OF demo_name])
  then show ?thesis
    unfolding demo_released_def
    by (rule serve_possible [rotated 5])
      (use release_line [OF demo_name] demo_tried_shape in \<open>simp_all add: demo_releasing_def nth_append\<close>)
qed

theorem release_end_to_end_witness:
  "\<exists>response. snd (client_request ''/s'' (demo_conn (ss_output (sv_sessions demo_released ! 1)))
      (release_command ''a'')) = Some response \<and> cr_ok response \<and>
     cr_payload response = ''OK released a '' @ show_u64 5 @ newline"
proof -
  let ?conn = "demo_conn (ss_output (sv_sessions demo_released ! 1))"
  note c = release_line [OF demo_name]
  note conn = demo_conn_delivers [OF c(4), of "ss_output (sv_sessions demo_released ! 1)"]
  obtain ls where r: "run (server_step id mock_ops) demo_server ls demo_releasing"
    using demo_releasing_run by blast
  have i: "1 < length (sv_sessions demo_releasing)" by (simp add: demo_releasing_def demo_tried_shape)
  have line: "sv_sessions demo_releasing ! 1 = session_read (release_command ''a'' @ newline) new_session"
    by (simp add: demo_releasing_def nth_append demo_tried_shape)
  have read: "sv_sessions demo_releasing ! 1 =
      session_read (fst (client_request ''/s'' ?conn (release_command ''a''))) new_session"
    using request_sent [OF conn(1) c(1,3) conn(2)] line by simp
  have env: "re_delivered demo_env" by (simp add: demo_env_def)
  have held: "map_of (rm_reservations (resources (sv_daemon demo_releasing))) ''a'' = Some 5"
    using demo_tried_state(1) by (simp add: demo_releasing_def)
  obtain x rm where "rm_release (re_now demo_env) ''a'' (resources (sv_daemon demo_releasing)) = (x, rm)"
    by fastforce
  from release_answer [OF demo_name this] obtain d' where
    ans: "answer_line id mock_ops demo_env (release_command ''a'') (sv_daemon demo_releasing) =
      (Respond (format_operation_result ''released'' ''a'' x), d')" by blast
  have "framed False (format_operation_result ''released'' ''a'' x)"
    by (rule framed_operation) (simp_all add: name_no_newline [OF demo_name])
  then have "ss_output (sv_sessions demo_released ! 1) \<noteq> []"
    using serve_step_line(2) [OF demo_released_step i line c(1,4) env ans] framed_not_Nil by simp
  from release_end_to_end [OF mock_contract demo_server_start r demo_name conn(1,2) i read
      demo_released_step env conn(3) [OF this]] held
  show ?thesis by auto
qed

end
