(* ===== verification/ClientAcquire.thy ===== *)
theory ClientAcquire
  imports ClientOperations
begin

text \<open>
  \<open>Client::acquire\<close> from end to end, the request that may wait: what happens to it in the
  resource manager while other sessions run, and what its client is told in the end.
\<close>

section \<open>One step of the server and the resource manager\<close>

lemma one_call_fate:
  "one_call s t \<Longrightarrow> rm_good s \<Longrightarrow> p < rm_next_ptr s \<Longrightarrow> waiter_fate s t p \<and> rm_next_ptr s \<le> rm_next_ptr t"
  unfolding one_call_def by (auto intro: waiter_fate_refl rm_step_fate)

context reliable_backend
begin

lemma serve_fate:
  assumes inv: "server_inv binv held sv" and i: "i < length (sv_sessions sv)"
    and busy: "\<not> loop_done (sv_sessions sv ! i)"
    and free: "residency_next (sv_sessions sv ! i) \<longrightarrow> sv_load sv = None"
    and f: "serve_frame rd B e (sv_daemon sv, sv_sessions sv ! i) = (d', ss')"
    and p: "p < rm_next_ptr (resources (sv_daemon sv))"
  shows "waiter_fate (resources (sv_daemon sv)) (resources d') p \<and>
    rm_next_ptr (resources (sv_daemon sv)) \<le> rm_next_ptr (resources d')"
proof -
  note good = server_inv_good [OF inv]
  have "residency_next (sv_sessions sv ! i) \<longrightarrow> sv_planned sv = None" using free by simp
  from f busy this show ?thesis
  proof (cases rule: serve_frame_effect)
    case answered
    then show ?thesis using one_call_fate [OF _ good p] by (simp add: handled_def)
  next
    case (waiting name n opts q rm)
    note step = rm_step.intros(2) [OF waiting(1)]
    from rm_step_fate [OF step good p] rm_step_frame(3) [OF step] waiting(2) show ?thesis by simp
  qed
qed

lemma server_step_fate:
  assumes "server_step rd B sv l sv'" and inv: "server_inv binv held sv"
    and p: "p < rm_next_ptr (resources (sv_daemon sv))"
  shows "waiter_fate (resources (sv_daemon sv)) (resources (sv_daemon sv')) p \<and>
    rm_next_ptr (resources (sv_daemon sv)) \<le> rm_next_ptr (resources (sv_daemon sv'))"
proof -
  note call = one_call_fate [OF _ server_inv_good [OF inv] p]
  have blocked: "q < rm_next_ptr (resources (sv_daemon sv))"
    if "i < length (sv_sessions sv)" "ss_state (sv_sessions sv ! i) = Blocked name q" for i name q
    using owner_request [OF server_inv_parts(3) [OF inv] that(1)] that(2) by (simp add: waits_for_Some)
  from assms(1) show ?thesis
  proof cases
    case (sv_serve i ss e)
    then show ?thesis
      using serve_fate [OF inv, of i rd e _ _ p] p
      by (cases "serve_frame rd B e (sv_daemon sv, ss)") simp
  next
    case (sv_load_begin i ss e name m es b)
    then show ?thesis by (simp add: session_load_def waiter_fate_refl)
  next
    case (sv_load_end i name m es ss e)
    obtain d' ss' where f: "session_loaded B e name m es (sv_daemon sv, ss) = (d', ss')" by fastforce
    with loaded_effect(2) [OF f] call sv_load_end(2) show ?thesis by simp
  next
    case (sv_wake i ss name q e)
    obtain d' ss' where f: "session_wake e (sv_daemon sv, ss) = (d', ss')" by fastforce
    have "handled rd B None (sv_daemon sv) d'"
      by (rule wake_effect(1) [OF f sv_wake(5)]) (use blocked sv_wake in simp)
    with f call sv_wake(2) show ?thesis by (simp add: handled_def)
  next
    case (sv_expire i ss name q e)
    obtain d' ss' where f: "session_time_out e (sv_daemon sv, ss) = (d', ss')" by fastforce
    have "handled rd B None (sv_daemon sv) d'"
      by (rule time_out_effect(1) [OF f sv_expire(5)]) (use blocked sv_expire in simp_all)
    with f call sv_expire(2) show ?thesis by (simp add: handled_def)
  next
    case sv_shut_down
    have "rm_step (resources (sv_daemon sv)) CancelWaiters (rm_cancel_waiters (resources (sv_daemon sv)))"
      by (rule rm_step.intros)
    from rm_step_fate [OF this server_inv_good [OF inv] p] rm_step_frame(3) [OF this] sv_shut_down
    show ?thesis by (simp add: server_cancel_def)
  qed (simp_all add: waiter_fate_refl)
qed

end

section \<open>Bytes reserved during an execution\<close>

definition reserves :: "string \<Rightarrow> bytes \<Rightarrow> resource_manager \<Rightarrow> resource_manager \<Rightarrow> bool" where
  "reserves name n s t \<longleftrightarrow> map_of (rm_reservations s) name = None \<and> map_of (rm_reservations t) name = Some n"

definition reserved_within ::
  "(rat \<Rightarrow> rat) \<Rightarrow> 'b accelerator_backend \<Rightarrow> string \<Rightarrow> bytes \<Rightarrow> 'b server \<Rightarrow> server_label list \<Rightarrow> 'b server \<Rightarrow> bool" where
  "reserved_within rd B name n s ls t \<longleftrightarrow> (\<exists>as l bs u v. ls = as @ l # bs \<and>
     run (server_step rd B) s as u \<and> server_step rd B u l v \<and> run (server_step rd B) v bs t \<and>
     reserves name n (resources (sv_daemon u)) (resources (sv_daemon v)))"

lemma reserved_within_Cons:
  assumes step: "server_step rd B s l t" and run: "run (server_step rd B) t ls u"
    and res: "reserves name n (resources (sv_daemon s)) (resources (sv_daemon t)) \<or>
      reserved_within rd B name n t ls u"
  shows "reserved_within rd B name n s (l # ls) u"
  using res
proof
  assume "reserves name n (resources (sv_daemon s)) (resources (sv_daemon t))"
  moreover have "run (server_step rd B) s [] s" by (rule run_nil)
  ultimately show ?thesis using step run unfolding reserved_within_def by (metis append_Nil)
next
  assume "reserved_within rd B name n t ls u"
  then obtain as l' bs v w where "ls = as @ l' # bs" "run (server_step rd B) t as v"
    "server_step rd B v l' w" "run (server_step rd B) w bs u"
    "reserves name n (resources (sv_daemon v)) (resources (sv_daemon w))"
    unfolding reserved_within_def by blast
  moreover from run_cons [OF step this(2)] have "run (server_step rd B) s (l # as) v" .
  ultimately show ?thesis unfolding reserved_within_def by (metis append_Cons)
qed

section \<open>The life of a request to acquire\<close>

text \<open>A result that is honest: it is a success only with the bytes asked for, and they were reserved.\<close>

definition honest :: "bytes \<Rightarrow> bool \<Rightarrow> operation_result \<Rightarrow> bool" where
  "honest n reserved r \<longleftrightarrow> (op_ok r \<longrightarrow> r = op_done n \<and> reserved)"

lemma honest_mono: "honest n g r \<Longrightarrow> (g \<Longrightarrow> g') \<Longrightarrow> honest n g' r"
  by (auto simp: honest_def)

definition request_in :: "string \<Rightarrow> bytes \<Rightarrow> bool \<Rightarrow> req_ptr \<Rightarrow> resource_manager \<Rightarrow> bool" where
  "request_in name n reserved p s \<longleftrightarrow> p < rm_next_ptr s \<and> pr_name (rm_requests s p) = name \<and>
     pr_bytes (rm_requests s p) = n \<and>
     (p \<notin> set (rm_pending s) \<longrightarrow> honest n reserved (pr_result (rm_requests s p)))"

lemma request_fate:
  assumes "request_in name n g p s" and "rm_inv s" and "waiter_fate s t p"
    and "rm_next_ptr s \<le> rm_next_ptr t"
  shows "request_in name n (g \<or> reserves name n s t) p t"
proof (cases "p \<in> set (rm_pending s)")
  case True
  then have "pr_name (rm_requests s p) \<notin> um_keys (rm_reservations s)"
    using rm_inv_waiter [OF assms(2)] by (simp add: rm_waiter_def)
  then have "map_of (rm_reservations s) name = None"
    using assms(1) by (simp add: request_in_def map_of_eq_None_iff)
  with assms True show ?thesis
    by (auto simp: request_in_def waiter_fate_def Let_def complete_with_def honest_def op_ok_def reserves_def)
next
  case False
  with assms show ?thesis by (auto simp: request_in_def waiter_fate_def Let_def honest_def)
qed

text \<open>An \<open>acquire\<close> that returns at once, and one that waits.\<close>

lemma try_acquire_honest:
  assumes "rm_inv s" and "rm_try_acquire now name n s = (r, t)"
  shows "honest n (reserves name n s t) r"
proof -
  have "\<not> has_name_locked name s \<Longrightarrow> map_of (rm_reservations s) name = None"
    by (simp add: has_name_iff map_of_eq_None_iff)
  then show ?thesis
    using try_acquire_result [OF assms] by (auto simp: honest_def reserves_def op_ok_def split: if_splits)
qed

lemma acquire_returned_honest:
  assumes "rm_inv s" and "acquire_enter now name n opts s = (Returned r, t)"
  shows "honest n (reserves name n s t) r"
proof -
  have "honest n (reserves name n s u) x" if "rm_try_acquire now name n s = (x, u)" for x u
    using try_acquire_honest [OF assms(1) that] .
  moreover have "map_of (rm_reservations s) name = None" if "\<not> has_name_locked name s"
    using that by (simp add: has_name_iff map_of_eq_None_iff)
  ultimately show ?thesis
    using assms(2)
    by (auto simp: acquire_enter_def honest_def op_ok_def reserves_def um_emplace_def um_contains_def
        split: if_splits prod.splits)
qed

lemma acquire_waits_in:
  assumes "rm_good s" and "acquire_enter now name n opts s = (Waiting p, t)"
  shows "request_in name n (reserves name n s t) p t"
proof -
  let ?u = "acquire_enqueue now name n opts s"
  from acquire_enter_waiting [OF assms(2)]
  have p: "p = rm_next_ptr s" and t: "t = grant_waiters_locked now ?u" by simp_all
  have ui: "rm_inv ?u"
    using assms by (auto simp: acquire_enter_def rm_good_def not_less split: if_splits prod.splits
        intro!: acquire_enqueue_inv)
  have "request_in name n False p ?u"
    by (simp add: request_in_def p acquire_enqueue_def Let_def)
  from request_fate [OF this ui grant_waiters_fate [OF ui], of now]
  have "request_in name n (reserves name n ?u t) p t"
    using enter_waiting_effect(2) [OF assms(2,1)] by (simp add: t p acquire_enqueue_def Let_def)
  then show ?thesis by (simp add: reserves_def acquire_enqueue_def Let_def)
qed

lemma dispatch_acquire_outcome:
  assumes good: "rm_good (resources d)" and disp: "dispatch_acquire e c d = (out, d')"
  obtains (responds) r where "out = Respond (format_operation_result ''acquired'' (cm_name c) r)"
      "honest (cm_bytes c) (reserves (cm_name c) (cm_bytes c) (resources d) (resources d')) r"
  | (waits) p where "out = Waits (cm_name c) p"
      "request_in (cm_name c) (cm_bytes c)
        (reserves (cm_name c) (cm_bytes c) (resources d) (resources d')) p (resources d')"
proof -
  have inv: "rm_inv (resources d)" using good by (simp add: rm_good_def)
  obtain x rm where t: "rm_try_acquire (re_now e) (cm_name c) (cm_bytes c) (resources d) = (x, rm)"
    by fastforce
  obtain y rm' where a: "acquire_enter (re_now e) (cm_name c) (cm_bytes c) (cm_options c) (resources d) = (y, rm')"
    by fastforce
  show thesis
  proof (cases "cm_mode c = Try")
    case True
    with disp t try_acquire_honest [OF inv t] show thesis
      by (intro responds) (auto simp: dispatch_acquire_def finish_acquire_def)
  next
    case False
    show thesis
    proof (cases y)
      case (Returned r)
      with disp a False acquire_returned_honest [OF inv, of "re_now e" "cm_name c" "cm_bytes c" "cm_options c"]
      show thesis by (intro responds) (auto simp: dispatch_acquire_def finish_acquire_def)
    next
      case (Waiting p)
      with disp a False acquire_waits_in [OF good, of "re_now e" "cm_name c" "cm_bytes c" "cm_options c"]
      show thesis by (intro waits) (auto simp: dispatch_acquire_def)
    qed
  qed
qed

section \<open>The session of the client\<close>

text \<open>What the session's line is understood as.\<close>

definition acquire_line :: "string \<Rightarrow> string \<Rightarrow> bytes \<Rightarrow> bool" where
  "acquire_line c name n \<longleftrightarrow> no_newline c \<and> length c < max_line_bytes \<and>
     (\<exists>cmd. parse_command (strip_cr c) = parsed cmd \<and> cm_type cmd = command_type.Acquire \<and>
        cm_name cmd = name \<and> cm_bytes cmd = n)"

definition told :: "string \<Rightarrow> bytes \<Rightarrow> bool \<Rightarrow> string \<Rightarrow> bool" where
  "told name n reserved out \<longleftrightarrow>
     (\<exists>r. out = format_operation_result ''acquired'' name r \<and> honest n reserved r)"

text \<open>\<open>recv\<close> is what the session has read so far.\<close>

definition acquiring :: "string \<Rightarrow> string \<Rightarrow> bytes \<Rightarrow> bool \<Rightarrow> string \<Rightarrow> session \<Rightarrow> resource_manager \<Rightarrow> bool" where
  "acquiring c name n g recv ss rm \<longleftrightarrow> (let all = (recv = c @ newline \<and> ss_input ss = [])
     in case ss_state ss of
          Reading \<Rightarrow> ss_input ss = recv \<and> ss_output ss = [] \<or> all \<and> told name n g (ss_output ss)
        | Blocked k p \<Rightarrow> all \<and> ss_output ss = [] \<and> k = name \<and> request_in name n g p rm
        | Loading \<Rightarrow> False
        | Closed \<Rightarrow> True)"

lemma told_mono: "told name n g out \<Longrightarrow> (g \<Longrightarrow> g') \<Longrightarrow> told name n g' out"
  by (auto simp: told_def intro: honest_mono)

lemma request_in_mono: "request_in name n g p s \<Longrightarrow> (g \<Longrightarrow> g') \<Longrightarrow> request_in name n g' p s"
  by (auto simp: request_in_def intro: honest_mono)

lemma acquiring_mono:
  "acquiring c name n g recv ss s \<Longrightarrow> (g \<Longrightarrow> g') \<Longrightarrow> acquiring c name n g' recv ss s"
  by (auto simp: acquiring_def Let_def intro: told_mono request_in_mono split: session_state.splits)

lemma acquiring_answer:
  assumes "send_response e (format_operation_result ''acquired'' name r) (d, ss) = (d', ss')"
    and "ss_state ss = Reading" and "ss_output ss = []" and "ss_input ss = []" and "recv = c @ newline"
    and "honest n g r"
  shows "acquiring c name n g recv ss' rm"
  using assms by (auto simp: acquiring_def send_response_def told_def split: if_splits)

text \<open>The steps of the other sessions.\<close>

lemma acquiring_other:
  assumes "acquiring c name n g recv ss s" and "rm_inv s"
    and fate: "\<And>p. p < rm_next_ptr s \<Longrightarrow> waiter_fate s t p \<and> rm_next_ptr s \<le> rm_next_ptr t"
  shows "acquiring c name n (g \<or> reserves name n s t) recv ss t"
proof (cases "ss_state ss")
  case (Blocked k p)
  with assms(1) have "request_in name n g p s" by (simp add: acquiring_def)
  then have "request_in name n (g \<or> reserves name n s t) p t"
    using fate [of p] by (intro request_fate [OF _ assms(2)]) (simp_all add: request_in_def)
  with Blocked assms(1) show ?thesis by (simp add: acquiring_def)
qed (use assms(1) in \<open>auto simp: acquiring_def intro: told_mono\<close>)

lemma acquiring_turn:
  assumes "acquiring c name n g recv ss rm" and "ss_state ss = Reading" and "read_answer answer"
    and "c @ newline = (recv @ got) @ tail"
    and "got = (case answer of Received chunk \<Rightarrow> if stop then [] else chunk | _ \<Rightarrow> [])"
  shows "acquiring c name n g (recv @ got) (session_turn e stop answer ss) rm"
  using assms
  by (cases stop; cases answer)
    (auto simp: acquiring_def session_turn_def session_read_def session_eof_def read_answer_def)

text \<open>The turn that finds the line.\<close>

lemma acquiring_line:
  assumes "acquiring c name n g recv ss rm" and "acquire_line c name n" and "c @ newline = recv @ tail"
    and "\<not> loop_done ss"
  shows "recv = c @ newline" and "next_frame (ss_input ss) = Line c []" and "ss_output ss = []"
    and "ss_state ss = Reading"
proof -
  have c: "no_newline c" "length c < max_line_bytes" using assms(2) by (simp_all add: acquire_line_def)
  show read: "ss_state ss = Reading" using assms(4) by (simp add: loop_done_def)
  have "ss_input ss \<noteq> []" using assms(4) by (auto simp: loop_done_def next_frame_def max_line_bytes_def)
  with assms(1) read have "ss_input ss = recv" "ss_output ss = []" by (auto simp: acquiring_def)
  then show "recv = c @ newline" and "next_frame (ss_input ss) = Line c []" and "ss_output ss = []"
    using line_prefix_frame [OF assms(3) c] assms(4) by (auto simp: loop_done_def split: if_splits)
qed

lemma acquiring_serve:
  assumes acq: "acquiring c name n g recv ss (resources d)" and line: "acquire_line c name n"
    and pre: "c @ newline = recv @ tail" and busy: "\<not> loop_done ss" and good: "rm_good (resources d)"
    and f: "serve_frame rd B e (d, ss) = (d', ss')"
  shows "acquiring c name n (g \<or> reserves name n (resources d) (resources d')) recv ss' (resources d')"
proof -
  note b = acquiring_line [OF acq line pre busy]
  obtain cmd where cmd: "parse_command (strip_cr c) = parsed cmd" "cm_type cmd = command_type.Acquire"
    "cm_name cmd = name" "cm_bytes cmd = n" using line by (auto simp: acquire_line_def)
  obtain out d1 where out: "dispatch_acquire e cmd d = (out, d1)" by fastforce
  have ans: "answer_line rd B e c d = (out, d1)"
    using cmd(1,2) out by (simp add: answer_line_def pa_ok_def dispatch_def)
  from good out show ?thesis
  proof (cases rule: dispatch_acquire_outcome)
    case (responds r)
    then have s: "send_response e (format_operation_result ''acquired'' name r)
        (d1, ss\<lparr>ss_input := []\<rparr>) = (d', ss')"
      using f b(2) ans cmd by (simp add: serve_frame_def)
    from send_response_effect [OF this] have "resources d' = resources d1" by simp
    with responds(2) cmd show ?thesis
      by (intro acquiring_answer [OF s]) (use b in \<open>auto intro: honest_mono\<close>)
  next
    case (waits p)
    then have "d' = d1" "ss' = ss\<lparr>ss_input := [], ss_state := Blocked name p\<rparr>"
      using f b(2) ans cmd by (simp_all add: serve_frame_def)
    with waits(2) b cmd show ?thesis
      by (auto simp: acquiring_def request_in_def intro: honest_mono)
  qed
qed

lemma acquiring_wait_over:
  assumes acq: "acquiring c name n g recv ss s" and b: "ss_state ss = Blocked k p"
    and inv: "rm_inv s" and fate: "waiter_fate s t p \<and> rm_next_ptr s \<le> rm_next_ptr t"
    and res: "session_resume e k (pr_result (rm_requests t p)) (d, ss) = (d', ss')"
    and left: "p \<notin> set (rm_pending t)"
  shows "acquiring c name n (g \<or> reserves name n s t) recv ss' rm"
proof -
  have a: "recv = c @ newline" "ss_input ss = []" "ss_output ss = []" "k = name" "request_in name n g p s"
    using acq b by (simp_all add: acquiring_def Let_def)
  have "request_in name n (g \<or> reserves name n s t) p t"
    using fate by (intro request_fate [OF a(5) inv]) simp_all
  then have hon: "honest n (g \<or> reserves name n s t) (pr_result (rm_requests t p))"
    using left by (simp add: request_in_def)
  have sent: "send_response e (format_operation_result ''acquired'' name (pr_result (rm_requests t p)))
      (note_metrics (mt_record_acquire (op_ok (pr_result (rm_requests t p)))
        (op_amount (pr_result (rm_requests t p)))) d, ss\<lparr>ss_state := Reading\<rparr>) = (d', ss')"
    using res a(4) by (simp add: session_resume_def finish_acquire_def)
  show ?thesis by (rule acquiring_answer [OF sent _ _ _ a(1) hon]) (use a in simp_all)
qed

context reliable_backend
begin

lemma acquiring_unblocks:
  assumes inv: "server_inv binv held sv" "rm_good t" and i: "i < length (sv_sessions sv)"
    and acq: "acquiring c name n g recv (sv_sessions sv ! i) (resources (sv_daemon sv))"
    and b: "ss_state (sv_sessions sv ! i) = Blocked k p"
    and fate: "waiter_fate (resources (sv_daemon sv)) t p \<and> rm_next_ptr (resources (sv_daemon sv)) \<le> rm_next_ptr t"
    and done': "pr_completed (rm_requests t p)" and r: "r = pr_result (rm_requests t p)"
    and res: "session_resume e k r (set_resources t (sv_daemon sv), sv_sessions sv ! i) = (d', ss')"
  shows "resources d' = t \<and>
    acquiring c name n (g \<or> reserves name n (resources (sv_daemon sv)) t) recv ss' t"
proof -
  have "p \<notin> set (rm_pending t)" using pending_open [OF inv(2)] done' by blast
  moreover have "rm_inv (resources (sv_daemon sv))"
    using server_inv_good [OF inv(1)] by (simp add: rm_good_def)
  ultimately show ?thesis
    using acquiring_wait_over [OF acq b _ fate res [unfolded r]] resume_effect(1) [OF res] by simp
qed

lemma acquiring_step:
  assumes step: "server_step rd B sv l sv'" and inv: "server_inv binv held sv"
    and i: "i < length (sv_sessions sv)"
    and acq: "acquiring c name n g recv (sv_sessions sv ! i) (resources (sv_daemon sv))"
    and line: "acquire_line c name n" and pre: "c @ newline = (recv @ label_bytes i l) @ tail"
  shows "i < length (sv_sessions sv') \<and>
    acquiring c name n (g \<or> reserves name n (resources (sv_daemon sv)) (resources (sv_daemon sv')))
      (recv @ label_bytes i l) (sv_sessions sv' ! i) (resources (sv_daemon sv'))"
proof -
  let ?s = "resources (sv_daemon sv)" and ?ss = "sv_sessions sv ! i"
  note good = server_inv_good [OF inv]
  have rinv: "rm_inv ?s" using good by (simp add: rm_good_def)
  have good': "rm_good (resources (sv_daemon sv'))"
    using server_step_sound [OF step inv] server_inv_good by (simp add: step_sound_def)
  note fate = server_step_fate [OF step inv]
  have same: ?thesis
    if "label_bytes i l = []" "i < length (sv_sessions sv')" "sv_sessions sv' ! i = ?ss"
    using acquiring_other [OF acq rinv fate] that by simp
  from step show ?thesis
  proof cases
    case sv_accept
    then show ?thesis using i by (intro same) (simp_all add: label_bytes_def nth_append)
  next
    case (sv_turn j ss stop answer e)
    show ?thesis
    proof (cases "j = i")
      case True
      have "acquiring c name n g (recv @ label_bytes i l) (session_turn e stop answer ?ss) ?s"
        by (rule acquiring_turn [OF acq _ sv_turn(8) pre])
          (use True sv_turn in \<open>simp_all add: label_bytes_def split: session_input.split\<close>)
      then have "acquiring c name n (g \<or> reserves name n ?s ?s) (recv @ label_bytes i l)
          (session_turn e stop answer ?ss) ?s" by (rule acquiring_mono) simp
      with True sv_turn i show ?thesis by simp
    next
      case False
      then have "label_bytes i l = []"
        by (cases answer) (simp_all add: sv_turn(1) label_bytes_def)
      with False i sv_turn show ?thesis by (intro same) simp_all
    qed
  next
    case (sv_serve j ss e)
    obtain d' ss' where f: "serve_frame rd B e (sv_daemon sv, ss) = (d', ss')" by fastforce
    have none: "label_bytes i l = []" by (simp add: sv_serve label_bytes_def)
    show ?thesis
    proof (cases "j = i")
      case True
      then show ?thesis
        using acquiring_serve [OF acq line _ _ good, of tail rd B e d' ss'] pre none f i sv_serve by simp
    next
      case False
      with f none i sv_serve show ?thesis by (intro same) simp_all
    qed
  next
    case (sv_load_begin j ss e k m es b)
    have "j \<noteq> i"
    proof
      assume "j = i"
      with sv_load_begin have "\<not> loop_done ?ss" "load_next rd B e (sv_daemon sv, ?ss) = Some (k, m, es, b)"
        by simp_all
      moreover from this acquiring_line(2) [OF acq line] pre have "next_frame (ss_input ?ss) = Line c []"
        by (simp add: sv_load_begin label_bytes_def)
      ultimately show False
        using line by (auto simp: load_next_def next_command_def acquire_line_def pa_ok_def)
    qed
    with i sv_load_begin show ?thesis
      by (intro same) (simp_all add: label_bytes_def session_load_def)
  next
    case (sv_load_end j k m es ss e)
    have "j \<noteq> i"
      using acq server_inv_parts(4) [OF inv] i sv_load_end by (auto simp: holder_def acquiring_def)
    with i sv_load_end show ?thesis
      by (cases "session_loaded B e k m es (sv_daemon sv, ss)") (intro same, simp_all add: label_bytes_def)
  next
    case (sv_wake j ss k p e)
    have none: "label_bytes i l = []" by (simp add: sv_wake label_bytes_def)
    obtain r rm where poll: "acquire_poll (re_now e) p ?s = (r, rm)" by fastforce
    show ?thesis
    proof (cases "j = i \<and> r \<noteq> None")
      case True
      then obtain x where x: "r = Some x" by blast
      obtain d' ss' where res: "session_resume e k x (set_resources rm (sv_daemon sv), ?ss) = (d', ss')"
        by fastforce
      have b: "ss_state ?ss = Blocked k p" using True sv_wake by simp
      have sv': "sv' = put_session i (d', ss') sv"
        using True sv_wake poll x res by (simp add: session_wake_def)
      have d': "resources d' = rm" using resume_effect(1) [OF res] by simp
      have "x = pr_result (rm_requests rm p)"
        using poll x by (auto simp: acquire_poll_def Let_def split: if_splits)
      moreover have "waiter_fate ?s rm p \<and> rm_next_ptr ?s \<le> rm_next_ptr rm"
        using fate [of p] acq b d' sv' by (simp add: acquiring_def request_in_def)
      ultimately show ?thesis
        using acquiring_unblocks [OF inv _ i acq b _ poll_done [OF poll [unfolded x]] _ res] good' d' none i
        by (simp add: sv')
    next
      case False
      with i sv_wake none poll show ?thesis
        by (cases "session_wake e (sv_daemon sv, ss)")
          (intro same, auto simp: session_wake_def nth_list_update)
    qed
  next
    case (sv_expire j ss k p e)
    have none: "label_bytes i l = []" by (simp add: sv_expire label_bytes_def)
    obtain x rm where ex: "acquire_expire p ?s = (x, rm)" by fastforce
    show ?thesis
    proof (cases "j = i")
      case True
      obtain d' ss' where res: "session_resume e k x (set_resources rm (sv_daemon sv), ?ss) = (d', ss')"
        by fastforce
      have b: "ss_state ?ss = Blocked k p" using True sv_expire by simp
      have sv': "sv' = put_session i (d', ss') sv"
        using True sv_expire ex res by (simp add: session_time_out_def)
      have d': "resources d' = rm" using resume_effect(1) [OF res] by simp
      have "x = pr_result (rm_requests rm p)"
        using ex by (auto simp: acquire_expire_def complete_with_def split: if_splits)
      moreover have "waiter_fate ?s rm p \<and> rm_next_ptr ?s \<le> rm_next_ptr rm"
        using fate [of p] acq b d' sv' by (simp add: acquiring_def request_in_def)
      ultimately show ?thesis
        using acquiring_unblocks [OF inv _ i acq b _ expire_done [OF ex] _ res] good' d' none i
        by (simp add: sv')
    next
      case False
      with i sv_expire none show ?thesis
        by (cases "session_time_out e (sv_daemon sv, ss)") (intro same, simp_all)
    qed
  qed (use i in \<open>intro same; simp add: label_bytes_def server_cancel_def\<close>)+
qed

lemma acquiring_run:
  "run (server_step rd B) sv ls sv' \<Longrightarrow> server_inv binv held sv \<Longrightarrow> i < length (sv_sessions sv) \<Longrightarrow>
   acquiring c name n g recv (sv_sessions sv ! i) (resources (sv_daemon sv)) \<Longrightarrow> acquire_line c name n \<Longrightarrow>
   c @ newline = (recv @ received i ls) @ tail \<Longrightarrow>
   acquiring c name n (g \<or> reserved_within rd B name n sv ls sv') (recv @ received i ls)
     (sv_sessions sv' ! i) (resources (sv_daemon sv'))"
proof (induction arbitrary: g recv rule: run.induct)
  case (run_nil s)
  then show ?case by (cases g) (simp_all add: reserved_within_def)
next
  case (run_cons s l t ls u)
  let ?g = "g \<or> reserves name n (resources (sv_daemon s)) (resources (sv_daemon t))"
  have "i < length (sv_sessions t) \<and> acquiring c name n ?g (recv @ label_bytes i l)
      (sv_sessions t ! i) (resources (sv_daemon t))"
    using run_cons.prems
    by (intro acquiring_step [OF run_cons.hyps(1), where tail = "received i ls @ tail"]) simp_all
  moreover have "server_inv binv held t"
    using server_step_sound [OF run_cons.hyps(1)] run_cons.prems(1) by (simp add: step_sound_def)
  ultimately have "acquiring c name n (?g \<or> reserved_within rd B name n t ls u)
      ((recv @ label_bytes i l) @ received i ls) (sv_sessions u ! i) (resources (sv_daemon u))"
    using run_cons.prems by (intro run_cons.IH) simp_all
  then have "acquiring c name n (g \<or> reserved_within rd B name n s (l # ls) u)
      ((recv @ label_bytes i l) @ received i ls) (sv_sessions u ! i) (resources (sv_daemon u))"
    by (rule acquiring_mono) (use reserved_within_Cons [OF run_cons.hyps(1,2)] in blast)
  then show ?case by simp
qed

end

section \<open>The command of the client\<close>

lemma show_int_length: "\<bar>k\<bar> < 10 ^ j \<Longrightarrow> 0 < j \<Longrightarrow> length (show_int k) \<le> Suc j"
proof -
  assume j: "\<bar>k\<bar> < 10 ^ j" "0 < j"
  have "nat \<bar>k\<bar> < 10 ^ j" using j(1) by (metis abs_ge_zero nat_int nat_less_iff of_nat_numeral of_nat_power)
  from show_nat_length [OF this j(2)] show ?thesis by (auto simp: show_int_def)
qed

lemma acquire_command_line:
  assumes "rm_valid_name name" and "n \<noteq> 0"
    and "- (2 ^ 31) \<le> ao_priority opts" and "ao_priority opts < 2 ^ 31"
    and "0 \<le> ao_timeout opts" and "ao_timeout opts \<le> ms_max"
    and "0 \<le> ao_cost opts" and "ao_cost opts \<le> ms_max"
  obtains args where "acquire_command name n opts = join_tokens (''acquire'' # args)"
    and "list_all (is_token is_space) (''acquire'' # args)"
    and "acquire_line (acquire_command name n opts) name n"
    and "strip_cr (acquire_command name n opts) = acquire_command name n opts"
    and "acquire_command name n opts \<noteq> []"
proof -
  let ?args = "[name, show_u64 n, show_int (ao_priority opts)] @
      (if ao_timeout opts \<noteq> ms_max then
         show_int (ao_timeout opts) # (if ao_cost opts \<noteq> 0 then [show_int (ao_cost opts)] else [])
       else [])"
  let ?c = "acquire_command name n opts"
  have c: "?c = join_tokens (''acquire'' # ?args)" by (simp add: acquire_command_tokens)
  have tok: "list_all (is_token is_space) (''acquire'' # ?args)"
    using name_token [OF assms(1)] show_token show_int_token by (simp add: is_token_def is_space_def)
  note line = command_line [OF c tok list.distinct(2)]
  have "unat n < 10 ^ 20" using unat_le_u64_max [of n] by (simp add: u64_max_def)
  then have n: "length (show_u64 n) \<le> 20" by (simp add: show_u64_def show_nat_length)
  have p: "length (show_int (ao_priority opts)) \<le> 11" using assms(3,4) show_int_length [of _ 10] by simp
  have t: "length (show_int t) \<le> 21" if "0 \<le> t" "t \<le> ms_max" for t
    using that show_int_length [of t 20] by (simp add: ms_max_def)
  have len: "length ?c < max_line_bytes"
    using name_length [OF assms(1)] n p t [OF assms(5,6)] t [OF assms(7,8)]
    by (simp add: acquire_command_def max_line_bytes_def)
  have "acquire_line ?c name n"
    using line(1,2) len acquire_options_received [OF assms] by (simp add: acquire_line_def)
  with c tok line(2,3) show thesis by (intro that)
qed

section \<open>From end to end\<close>

text \<open>
  C9: \<open>Client::acquire\<close> means what it says, however long it waits. A client connects to a
  daemon in any state it can reach and acquires memory; its request may be granted at once
  or wait in the queue while other sessions act in any interleaving. When its session has
  answered, the client is told OK only if the answer is for the bytes it asked for and some
  step in between reserved exactly these bytes under its name, which was free before that
  step; otherwise it is told an error.
\<close>

theorem acquire_end_to_end:
  assumes "reliable_backend B binv held" and "token_lines B"
    and "server_start binv held sv0" and "run (server_step rd B) sv0 ls sv"
    and "i < length (sv_sessions sv)" and "sv_sessions sv ! i = new_session"
    and "rm_valid_name name" and "n \<noteq> 0"
    and "- (2 ^ 31) \<le> ao_priority opts" and "ao_priority opts < 2 ^ 31"
    and "0 \<le> ao_timeout opts" and "ao_timeout opts \<le> ms_max"
    and "0 \<le> ao_cost opts" and "ao_cost opts \<le> ms_max"
    and "connect_socket path conn"
    and "snd (write_all (cn_writes conn) (acquire_command name n opts @ newline)) = Some True"
    and "run (server_step rd B) sv ls' sv'"
    and "received i ls' = fst (client_request path conn (acquire_command name n opts))"
    and "ss_state (sv_sessions sv' ! i) = Reading" and "ss_input (sv_sessions sv' ! i) = []"
    and "stream_of (cn_reads conn) = Some (ss_output (sv_sessions sv' ! i))"
  shows "\<exists>response. snd (client_request path conn (acquire_command name n opts)) = Some response \<and>
    (if cr_ok response
     then cr_payload response = ''OK acquired '' @ name @ '' '' @ show_u64 n @ newline \<and>
       reserved_within rd B name n sv ls' sv'
     else starts_with ''ERR '' (cr_payload response))"
proof -
  let ?c = "acquire_command name n opts" and ?out = "ss_output (sv_sessions sv' ! i)"
  obtain args where args: "?c = join_tokens (''acquire'' # args)"
    "list_all (is_token is_space) (''acquire'' # args)" and line: "acquire_line ?c name n"
    using acquire_command_line [OF assms(7-14)] by blast
  have verb: "''acquire'' \<noteq> (''models'' :: string)" by simp
  have len: "length ?c < max_line_bytes" using line by (simp add: acquire_line_def)
  have answer: "snd (client_request path conn ?c) = Some
      \<lparr>cr_error = (if starts_with ''OK '' ?out then client_error.NoError else client_error.BrokerRejected),
       cr_payload = ?out\<rparr>"
    and framed: "framed (is_multiline ?c) ?out"
    using client_gets_whole_answer [OF assms(1-6) args(2) refl verb, folded args(1), OF len
        assms(15-18) assms(19-21)] by simp_all
  have "acquiring ?c name n (False \<or> reserved_within rd B name n sv ls' sv') ([] @ received i ls')
      (sv_sessions sv' ! i) (resources (sv_daemon sv'))"
    by (rule reliable_backend.acquiring_run [OF assms(1,17)
          reliable_backend.server_reachable(1) [OF assms(1,3,4)] assms(5) _ line, where tail = "[]"])
      (use request_sent [OF assms(15) command_line(1,3) [OF args list.distinct(2)] assms(16)] in
        \<open>simp_all add: acquiring_def assms(6,18) new_session_def\<close>)
  then have "told name n (reserved_within rd B name n sv ls' sv') ?out"
    using assms(19,20) request_sent [OF assms(15) command_line(1,3) [OF args list.distinct(2)] assms(16)]
    by (auto simp: acquiring_def assms(18))
  then obtain r where r: "?out = format_operation_result ''acquired'' name r"
    "honest n (reserved_within rd B name n sv ls' sv') r" by (auto simp: told_def)
  have "starts_with ''ERR '' ?out" if "\<not> starts_with ''OK '' ?out"
    using framed that by (simp add: framed_def)
  with r answer operation_payload [of "''acquired''" name r] show ?thesis
    by (auto simp: cr_ok_def honest_def format_operation_result_def op_ok_def)
qed

text \<open>A client acquires 5 bytes from the daemon of 100 bytes.\<close>

abbreviation demo_command :: string where
  "demo_command \<equiv> acquire_command ''a'' 5 default_options"

definition demo_acquired :: "mock_backend server" where
  "demo_acquired = (let sv = status_server (new_session\<lparr>ss_input := demo_command @ newline\<rparr>)
     in put_session 0 (serve_frame id mock_ops demo_env (sv_daemon sv, sv_sessions sv ! 0)) sv)"

lemma demo_options:
  "- (2 ^ 31) \<le> ao_priority default_options" "ao_priority default_options < 2 ^ 31"
  "0 \<le> ao_timeout default_options" "ao_timeout default_options = ms_max"
  "0 \<le> ao_cost default_options" "ao_cost default_options \<le> ms_max" "ao_cost default_options = 0"
  by (simp_all add: default_options_def ms_max_def)

lemma demo_acquire:
  shows "acquire_line demo_command ''a'' 5" and "demo_command \<noteq> []"
    and "parse_command (strip_cr demo_command) = parsed (empty_command\<lparr>cm_type := command_type.Acquire,
      cm_name := ''a'', cm_bytes := 5, cm_mode := Wait, cm_options := default_options\<rparr>)"
proof -
  have five: "(5 :: bytes) \<noteq> 0" and max: "ao_timeout default_options \<le> ms_max"
    by (simp_all add: demo_options)
  from acquire_command_line [OF demo_name five demo_options(1-3) max demo_options(5,6)]
  have l: "acquire_line demo_command ''a'' 5 \<and> demo_command \<noteq> [] \<and> strip_cr demo_command = demo_command"
    by blast
  then show "acquire_line demo_command ''a'' 5" and "demo_command \<noteq> []" by simp_all
  have "default_options\<lparr>ao_timeout := ms_max, ao_cost := 0\<rparr> = default_options"
    by (simp add: default_options_def)
  then show "parse_command (strip_cr demo_command) = parsed (empty_command\<lparr>cm_type := command_type.Acquire,
      cm_name := ''a'', cm_bytes := 5, cm_mode := Wait, cm_options := default_options\<rparr>)"
    using l acquire_options_received [OF demo_name five demo_options(1-3) max demo_options(5,6)]
    by (simp add: demo_options)
qed

lemma demo_acquired_state:
  "sv_sessions demo_acquired = [\<lparr>ss_input = [],
     ss_output = format_operation_result ''acquired'' ''a'' (op_done 5), ss_state = Reading\<rparr>]"
proof -
  have frame: "next_frame (demo_command @ newline) = Line demo_command []"
    using next_frame_line [of demo_command "[]"] demo_acquire(1) by (simp add: acquire_line_def)
  have "fst (acquire_enter 0 ''a'' 5 default_options (rw_resources demo_world)) = Returned (op_done 5)"
    by (simp add: acquire_enter_def demo_world_def rm_valid_name_def default_options_def ms_max_def
        has_name_locked_def um_contains_def)
  then obtain rm where
    "acquire_enter 0 ''a'' 5 default_options (rw_resources demo_world) = (Returned (op_done 5), rm)"
    by (metis prod.collapse)
  with demo_acquire(3) frame show ?thesis
    by (simp add: demo_acquired_def status_server_def serve_frame_def answer_line_def pa_ok_def dispatch_def
        dispatch_acquire_def finish_acquire_def send_response_def demo_env_def demo_server_def
        put_session_def new_session_def)
qed

lemma demo_acquired_run: "run (server_step id mock_ops) (status_server new_session)
    [SvTurn 0 demo_env False (Received (demo_command @ newline)), SvServe 0 demo_env] demo_acquired"
proof -
  let ?sv = "status_server (new_session\<lparr>ss_input := demo_command @ newline\<rparr>)"
  note line = demo_acquire(1) [unfolded acquire_line_def]
  have idle: "next_frame [] = NeedMore" by (simp add: next_frame_def max_line_bytes_def)
  have "server_step id mock_ops (status_server new_session)
      (SvTurn 0 demo_env False (Received (demo_command @ newline))) ?sv"
    using status_turn [OF idle, of "demo_command @ newline"] line
    by (simp add: new_session_def max_line_bytes_def)
  moreover have "server_step id mock_ops ?sv (SvServe 0 demo_env) demo_acquired"
  proof -
    show ?thesis
      unfolding demo_acquired_def Let_def using line
      by (intro serve_possible [OF _ _ _ _ _ demo_acquire(3)])
        (simp_all add: status_server_def session_read_def new_session_def demo_server_def)
  qed
  ultimately show ?thesis by (rule run_cons [OF _ run_cons [OF _ run_nil]])
qed

theorem acquire_end_to_end_witness:
  "\<exists>response. snd (client_request ''/s'' (demo_conn (ss_output (sv_sessions demo_acquired ! 0))) demo_command) =
     Some response \<and> cr_ok response \<and> cr_payload response = ''OK acquired a '' @ show_u64 5 @ newline"
proof -
  let ?out = "ss_output (sv_sessions demo_acquired ! 0)" and ?conn = "demo_conn (ss_output (sv_sessions demo_acquired ! 0))"
  note line = demo_acquire(1) [unfolded acquire_line_def]
  have out: "?out = ''OK acquired a '' @ show_u64 5 @ newline"
    by (simp add: demo_acquired_state format_operation_result_def op_ok_def)
  have len: "length demo_command < max_line_bytes" and nl: "no_newline demo_command" using line by simp_all
  note conn = demo_conn_delivers [OF len, of ?out]
  have sent: "fst (client_request ''/s'' ?conn demo_command) = demo_command @ newline"
    by (rule request_sent [OF conn(1) nl demo_acquire(2) conn(2)])
  have five: "(5 :: bytes) \<noteq> 0" and max: "ao_timeout default_options \<le> ms_max"
    by (simp_all add: demo_options)
  have "\<exists>response. snd (client_request ''/s'' ?conn demo_command) = Some response \<and>
      (if cr_ok response
       then cr_payload response = ''OK acquired '' @ ''a'' @ '' '' @ show_u64 5 @ newline \<and>
         reserved_within id mock_ops ''a'' 5 (status_server new_session)
           [SvTurn 0 demo_env False (Received (demo_command @ newline)), SvServe 0 demo_env] demo_acquired
       else starts_with ''ERR '' (cr_payload response))"
    by (rule acquire_end_to_end [OF mock_contract mock_token_lines demo_server_start status_accepted _ _
          demo_name five demo_options(1-3) max demo_options(5,6) conn(1,2) demo_acquired_run, where i = 0])
      (use conn(3) sent out in \<open>simp_all add: status_server_def label_bytes_def demo_acquired_state\<close>)
  moreover have "\<not> starts_with ''ERR '' ?out" by (simp add: out starts_with_def)
  ultimately obtain response where r: "snd (client_request ''/s'' ?conn demo_command) = Some response"
    "cr_ok response \<longrightarrow> cr_payload response = ''OK acquired a '' @ show_u64 5 @ newline"
    "\<not> cr_ok response \<longrightarrow> starts_with ''ERR '' (cr_payload response)" by (auto split: if_splits)
  have "cr_payload response = ?out"
  proof -
    have "framed (is_multiline demo_command) ?out"
      using framed_operation [of "''acquired''" "''a''" "op_done 5"]
        single_request [of "''acquire''" "''a '' @ show_u64 5 @ '' '' @ show_int 0"]
      by (simp add: demo_acquired_state acquire_command_def default_options_def listing_verbs_def)
    from request_delivers [OF conn(1) nl demo_acquire(2) conn(2,3) this] r(1) out
    show ?thesis by auto
  qed
  with r \<open>\<not> starts_with ''ERR '' ?out\<close> show ?thesis by auto
qed

end
