(* ===== verification/CtlServer.thy ===== *)
theory CtlServer
  imports ClientServer
begin

text \<open>
  The command line client and the daemon: what gpumemctl prints when the daemon has
  answered the command it sent.
\<close>

section \<open>The command gpumemctl sends\<close>

lemma ctl_join_from:
  "list_all (\<lambda>t. t \<noteq> []) ts \<Longrightarrow> acc \<noteq> [] \<Longrightarrow>
   foldl (\<lambda>command arg. (if command \<noteq> [] then command @ '' '' else command) @ arg) acc ts =
   acc @ (if ts = [] then [] else '' '' @ join_tokens ts)"
  by (induction ts arbitrary: acc) (simp_all add: join_tokens_Cons)

lemma ctl_join_tokens: "list_all (\<lambda>t. t \<noteq> []) ts \<Longrightarrow> ctl_join ts = join_tokens ts"
  by (cases ts) (simp_all add: ctl_join_def ctl_join_from join_tokens_Cons)

text \<open>
  Gpumemctl tells a listing from a line by the parsed command, the library by the verb. They
  agree on every command but \<open>nodes\<close>.
\<close>

lemma ctl_multiline_verb:
  assumes "pa_ok (parse_tokens (verb # args))" and "verb \<noteq> ''nodes''"
  shows "ctl_multiline (cm_type (pa_command (parse_tokens (verb # args)))) \<longleftrightarrow>
    verb \<in> listing_verbs \<or> verb = ''models''"
proof -
  let ?ty = "cm_type (pa_command (parse_tokens (verb # args)))"
  have t: "lists_entries ?ty \<longleftrightarrow> verb \<in> listing_verbs" "?ty = command_type.Models \<longleftrightarrow> verb = ''models''"
    "?ty \<noteq> command_type.Nodes"
    using verb_type [of verb args] assms by (simp_all add: verb_type_ok_def)
  have "ctl_multiline ?ty \<longleftrightarrow> lists_entries ?ty \<or> ?ty = command_type.Models"
    using t(3) by (auto simp: ctl_multiline_def lists_entries_def)
  with t show ?thesis by simp
qed

lemma ctl_delivers:
  assumes parse: "pa_ok (parse_command command)" and join: "ctl_join ts = command" and "ts \<noteq> []"
    and conn: "ctl_connect_socket path conn"
      "snd (write_all (cn_writes conn) (command @ newline)) = Some True"
    and multi: "ctl_multiline (cm_type (pa_command (parse_command command))) = m"
    and reads: "stream_of (cn_reads conn) = Some r" and framed: "framed m r"
  shows "ctl_main conn (''--socket'' # path # ts) = (command @ newline, Some
    \<lparr>co_status = (if starts_with ''OK '' r then 0 else 1), co_stdout = r, co_stderr = []\<rparr>)"
proof -
  obtain sent where w: "write_all (cn_writes conn) (command @ newline) = (sent, Some True)"
    using conn(2) by (metis prod.collapse)
  then have sent: "sent = command @ newline"
    using write_all_prefix [of "command @ newline" "cn_writes conn"] by simp
  have rd: "read_response m (cn_reads conn) [] = Some (True, r)"
    using read_response_exact [OF framed reads, of "[]"] framed_not_Nil [OF framed] by simp
  have len: "\<not> length (''--socket'' # path # ts) < 3" using assms(3) by (cases ts) simp_all
  show ?thesis
    using parse join conn(1) w sent rd len by (simp add: ctl_main_def multi)
qed

lemma ctl_sent:
  assumes "pa_ok (parse_command command)" and "ctl_join ts = command" and "ts \<noteq> []"
    and "ctl_connect_socket path conn"
    and "snd (write_all (cn_writes conn) (command @ newline)) = Some True"
  shows "fst (ctl_main conn (''--socket'' # path # ts)) = command @ newline"
proof -
  have "\<not> length (''--socket'' # path # ts) < 3" using assms(3) by (cases ts) simp_all
  then show ?thesis
    using write_all_prefix [of "command @ newline" "cn_writes conn"] assms
    by (simp add: ctl_main_def case_prod_beta)
qed

section \<open>What it prints\<close>

text \<open>
  C28: gpumemctl prints the daemon's whole answer. For any command of tokens that parses,
  but the two listings \<open>models\<close> and \<open>nodes\<close>, sent to a daemon in any state it can reach and
  served under any cutting of the bytes, any waiting and any interleaving, gpumemctl sends
  the line the daemon reads, prints exactly what the daemon's session has written and
  exits with 0 exactly when that begins with OK.
\<close>

theorem ctl_prints_whole_answer:
  assumes "reliable_backend B binv held" and "token_lines B"
    and "server_start binv held sv0" and "run (server_step rd B) sv0 ls sv"
    and "i < length (sv_sessions sv)" and "sv_sessions sv ! i = new_session"
    and "list_all (is_token is_space) ts" and "ts = verb # args"
    and "verb \<noteq> ''models''" and "verb \<noteq> ''nodes''"
    and "pa_ok (parse_command (join_tokens ts))" and "length (join_tokens ts) < max_line_bytes"
    and "ctl_connect_socket path conn"
    and "snd (write_all (cn_writes conn) (join_tokens ts @ newline)) = Some True"
    and "run (server_step rd B) sv ls' sv'"
    and "received i ls' = fst (ctl_main conn (''--socket'' # path # ts))"
    and "ss_state (sv_sessions sv' ! i) = Reading" and "ss_input (sv_sessions sv' ! i) = []"
    and "stream_of (cn_reads conn) = Some (ss_output (sv_sessions sv' ! i))"
  shows "ctl_main conn (''--socket'' # path # ts) = (join_tokens ts @ newline, Some
      \<lparr>co_status = (if starts_with ''OK '' (ss_output (sv_sessions sv' ! i)) then 0 else 1),
       co_stdout = ss_output (sv_sessions sv' ! i), co_stderr = []\<rparr>) \<and>
    framed (is_multiline (join_tokens ts)) (ss_output (sv_sessions sv' ! i))"
proof -
  let ?c = "join_tokens ts"
  have blank: "list_all (is_token is_blank) ts"
    using assms(7) by (auto simp: list_all_iff dest: space_token_blank)
  have join: "ctl_join ts = ?c"
    by (rule ctl_join_tokens) (use assms(7) in \<open>simp add: list_all_iff is_token_def\<close>)
  have some: "ts \<noteq> []" using assms(8) by simp
  have framed: "framed (is_multiline ?c) (ss_output (sv_sessions sv' ! i))"
    by (rule reliable_backend.request_answered [OF assms(1,3-6,15) _
          tokens_sound_line [OF assms(2,7-9,12)] assms(17,18)])
      (simp add: assms(16) ctl_sent [OF assms(11) join some assms(13,14)])
  have parse: "parse_command ?c = parse_tokens (verb # args)"
    using parse_join [OF blank] assms(8) by simp
  have multi: "is_multiline ?c \<longleftrightarrow> verb \<in> listing_verbs \<or> verb = ''models''"
    using is_multiline_join [of verb args] blank assms(8) by simp
  have "ctl_multiline (cm_type (pa_command (parse_command ?c))) = is_multiline ?c"
    unfolding multi parse
    by (rule ctl_multiline_verb [OF assms(11) [unfolded parse] assms(10)])
  from ctl_delivers [OF assms(11) join some assms(13,14) this assms(19) framed] framed
  show ?thesis by simp
qed

text \<open>\<open>gpumemctl --socket /s status\<close> against the daemon of 100 bytes.\<close>

lemma status_ctl_sent:
  "fst (ctl_main (status_conn r) [''--socket'', ''/s'', ''status'']) = ''status'' @ newline"
  "ctl_connect_socket ''/s'' (status_conn r)"
  "snd (write_all (cn_writes (status_conn r)) (''status'' @ newline)) = Some True"
  "pa_ok (parse_command ''status'')"
proof -
  show ok: "pa_ok (parse_command ''status'')"
    using parse_join [of "[''status'']"] by (simp add: parse_tokens_def parse_plain_def pa_ok_def)
  show conn: "ctl_connect_socket ''/s'' (status_conn r)"
    by (simp add: ctl_connect_socket_def sun_path_size_def status_conn_def)
  show sent: "snd (write_all (cn_writes (status_conn r)) (''status'' @ newline)) = Some True"
    by (simp add: status_conn_def)
  show "fst (ctl_main (status_conn r) [''--socket'', ''/s'', ''status'']) = ''status'' @ newline"
    using ctl_sent [OF ok _ _ conn sent, of "[''status'']"] by (simp add: ctl_join_def)
qed

theorem ctl_prints_whole_answer_witness:
  "ctl_main (status_conn (format_status (rm_status (rw_resources demo_world))))
     [''--socket'', ''/s'', ''status''] =
   (''status'' @ newline, Some \<lparr>co_status = 0,
     co_stdout = format_status (rm_status (rw_resources demo_world)), co_stderr = []\<rparr>)"
proof -
  let ?status = "format_status (rm_status (rw_resources demo_world))"
  let ?ls = "[SvTurn 0 demo_env False (Received ''sta''),
      SvTurn 0 demo_env False (Received (''tus'' @ newline)), SvServe 0 demo_env]"
  obtain sv' where r: "run (server_step id mock_ops) (status_server new_session) ?ls sv'"
    and ss: "sv_sessions sv' = [\<lparr>ss_input = [], ss_output = ?status, ss_state = Reading\<rparr>]"
    using status_run by blast
  have ok: "starts_with ''OK '' ?status" by (simp add: format_status_def starts_with_def)
  then have ne: "?status \<noteq> []" by (auto simp: starts_with_def)
  have tok: "list_all (is_token is_space) [''status'']" by (simp add: is_token_def is_space_def)
  have verb: "''status'' \<noteq> (''models'' :: string)" "''status'' \<noteq> (''nodes'' :: string)" by simp_all
  have "ctl_main (status_conn ?status) (''--socket'' # ''/s'' # [''status'']) =
      (join_tokens [''status''] @ newline, Some
        \<lparr>co_status = (if starts_with ''OK '' (ss_output (sv_sessions sv' ! 0)) then 0 else 1),
         co_stdout = ss_output (sv_sessions sv' ! 0), co_stderr = []\<rparr>)"
    by (rule conjunct1 [OF ctl_prints_whole_answer [OF mock_contract mock_token_lines demo_server_start
          status_accepted _ _ tok refl verb, where ls' = ?ls and i = 0 and sv' = sv']])
      (use status_ctl_sent r ss ne in \<open>simp_all add: status_server_def max_line_bytes_def label_bytes_def
        status_conn_def\<close>)
  with ss ok show ?thesis by simp
qed

end
