(* ===== verification/Daemon.thy ===== *)
theory Daemon
  imports ServerSteps ProtocolProperties
begin

text \<open>
  The daemon's \<open>main\<close> (daemon/main.cpp): its arguments, the objects it makes from them and
  its exit codes. What the server's \<open>run\<close> returned is an argument.
\<close>

section \<open>Arguments\<close>

record daemon_options =
  do_memory :: string
  do_socket :: string
  do_policy :: scheduling_policy

datatype option_error = InvalidPolicy | UnexpectedArgument

text \<open>The loop of \<open>main\<close> over the arguments after the program name.\<close>

fun parse_options :: "string list \<Rightarrow> daemon_options \<Rightarrow> option_error + daemon_options" where
  "parse_options [] opts = Inr opts"
| "parse_options (arg # v # rest) opts =
     (if arg = ''--memory'' then parse_options rest (opts\<lparr>do_memory := v\<rparr>)
      else if arg = ''--socket'' then parse_options rest (opts\<lparr>do_socket := v\<rparr>)
      else if arg = ''--scheduling'' then
        (if v = ''priority'' then parse_options rest (opts\<lparr>do_policy := PriorityFifo\<rparr>)
         else if v = ''cost'' then parse_options rest (opts\<lparr>do_policy := CostAware\<rparr>)
         else Inl InvalidPolicy)
      else Inl UnexpectedArgument)"
| "parse_options [arg] opts = Inl UnexpectedArgument"

definition no_options :: daemon_options where
  "no_options = \<lparr>do_memory = [], do_socket = [], do_policy = PriorityFifo\<rparr>"

definition daemon_usage :: string where
  "daemon_usage =
     ''Usage: gpumemd --memory SIZE --socket PATH'' @ newline @ newline @
     ''Start a simulated GPU memory broker.'' @ newline @
     ''SIZE accepts B, KB, MB, GB, KiB, MiB, and GiB units.'' @ newline @
     ''--scheduling accepts priority or cost.'' @ newline"

record daemon_exit =
  dx_status :: int
  dx_stdout :: string
  dx_stderr :: string

text \<open>
  \<open>main\<close> on the arguments after the program name: \<open>Inl\<close> is an exit before any object is
  made, \<open>Inr\<close> the server it runs and the socket.
\<close>

definition daemon_setup ::
  "'b \<Rightarrow> string list \<Rightarrow> daemon_exit + ('b server option \<times> string)" where
  "daemon_setup dev args =
     (if args = [''--help''] then
        Inl \<lparr>dx_status = 0, dx_stdout = daemon_usage, dx_stderr = []\<rparr>
      else case parse_options args no_options of
        Inl InvalidPolicy \<Rightarrow>
          Inl \<lparr>dx_status = 2, dx_stdout = [], dx_stderr = ''gpumemd: invalid scheduling policy'' @ newline\<rparr>
      | Inl UnexpectedArgument \<Rightarrow>
          Inl \<lparr>dx_status = 2, dx_stdout = [], dx_stderr =
            ''gpumemd: expected --memory SIZE and --socket PATH'' @ newline @ daemon_usage\<rparr>
      | Inr opts \<Rightarrow>
          (case parse_bytes (do_memory opts) of
             None \<Rightarrow> Inl \<lparr>dx_status = 2, dx_stdout = [], dx_stderr =
               ''gpumemd: invalid or missing memory/socket option'' @ newline @ daemon_usage\<rparr>
           | Some capacity \<Rightarrow>
               if do_socket opts = [] then Inl \<lparr>dx_status = 2, dx_stdout = [], dx_stderr =
                 ''gpumemd: invalid or missing memory/socket option'' @ newline @ daemon_usage\<rparr>
               else Inr (server_new capacity (do_policy opts) dev, do_socket opts)))"

text \<open>
  The whole of \<open>main\<close>, with the result of \<open>server.run\<close>; the exception is the one the resource
  manager's constructor throws.
\<close>

definition daemon_main :: "'b \<Rightarrow> ('b server \<Rightarrow> int) \<Rightarrow> string list \<Rightarrow> daemon_exit" where
  "daemon_main dev run_result args =
     (case daemon_setup dev args of
        Inl x \<Rightarrow> x
      | Inr (None, socket) \<Rightarrow>
          \<lparr>dx_status = 1, dx_stdout = [], dx_stderr =
            ''gpumemd: resource capacity must be positive'' @ newline\<rparr>
      | Inr (Some server, socket) \<Rightarrow>
          if run_result server \<noteq> 0 then
            \<lparr>dx_status = 1, dx_stdout = [], dx_stderr = ''gpumemd: could not bind socket '' @
               [CHR 0x27] @ socket @ [CHR 0x27] @ newline\<rparr>
          else \<lparr>dx_status = 0, dx_stdout = [], dx_stderr = []\<rparr>)"

section \<open>What is accepted\<close>

text \<open>The specification: pairs of an option and its value, the last of each kind counting.\<close>

definition option_pairs :: "(string \<times> string) list \<Rightarrow> string list" where
  "option_pairs ps = concat (map (\<lambda>(k, v). [k, v]) ps)"

definition option_ok :: "string \<times> string \<Rightarrow> bool" where
  "option_ok = (\<lambda>(k, v). k = ''--memory'' \<or> k = ''--socket'' \<or>
     k = ''--scheduling'' \<and> (v = ''priority'' \<or> v = ''cost''))"

definition last_value :: "string \<Rightarrow> string \<Rightarrow> (string \<times> string) list \<Rightarrow> string" where
  "last_value k v ps = (case map_of (rev ps) k of None \<Rightarrow> v | Some u \<Rightarrow> u)"

lemma last_value_simps [simp]:
  "last_value k v [] = v"
  "last_value k v ((k', u) # ps) = last_value k (if k = k' then u else v) ps"
  by (auto simp: last_value_def map_add_def split: option.splits)

definition policy_name :: "scheduling_policy \<Rightarrow> string" where
  "policy_name p = (case p of PriorityFifo \<Rightarrow> ''priority'' | CostAware \<Rightarrow> ''cost'')"

lemma policy_name_simps [simp]: "policy_name PriorityFifo = ''priority''" "policy_name CostAware = ''cost''"
  by (simp_all add: policy_name_def)

definition options_of :: "daemon_options \<Rightarrow> (string \<times> string) list \<Rightarrow> daemon_options" where
  "options_of opts ps = \<lparr>do_memory = last_value ''--memory'' (do_memory opts) ps,
     do_socket = last_value ''--socket'' (do_socket opts) ps,
     do_policy = (if last_value ''--scheduling'' (policy_name (do_policy opts)) ps = ''cost''
                  then CostAware else PriorityFifo)\<rparr>"

lemma parse_options_exact:
  "parse_options args opts = Inr opts' \<longleftrightarrow>
   (\<exists>ps. args = option_pairs ps \<and> list_all option_ok ps \<and> opts' = options_of opts ps)"
proof (induction args opts rule: parse_options.induct)
  case (1 opts)
  have "options_of opts [] = opts" by (cases "do_policy opts") (simp_all add: options_of_def)
  moreover have "[] = option_pairs ps \<longleftrightarrow> ps = []" for ps by (cases ps) (auto simp: option_pairs_def)
  ultimately show ?case by auto
next
  case (2 arg v rest opts)
  have pairs: "arg # v # rest = option_pairs ps \<longleftrightarrow> (\<exists>qs. ps = (arg, v) # qs \<and> rest = option_pairs qs)" for ps
    by (cases ps) (auto simp: option_pairs_def)
  have ex: "(\<exists>ps. arg # v # rest = option_pairs ps \<and> list_all option_ok ps \<and> opts' = options_of opts ps) \<longleftrightarrow>
      option_ok (arg, v) \<and> (\<exists>qs. rest = option_pairs qs \<and> list_all option_ok qs \<and>
        opts' = options_of opts ((arg, v) # qs))"
    unfolding pairs by auto
  show ?case
    unfolding ex using 2
    by (auto simp: option_ok_def options_of_def)
next
  case (3 arg opts)
  have "[arg] \<noteq> option_pairs ps" for ps by (cases ps) (auto simp: option_pairs_def)
  then show ?case by simp
qed

text \<open>
  C40: the daemon starts on exactly the right arguments. It reaches \<open>run\<close> if and only if the
  arguments are pairs of known options with valid values whose last \<open>--memory\<close> is a size and
  whose last \<open>--socket\<close> is not empty; it then runs with that capacity and the last policy,
  and the exception of the resource manager's constructor cannot happen.
\<close>

theorem daemon_starts_iff_configured:
  "(\<exists>server. daemon_setup dev args = Inr (Some server, socket) \<and>
      rm_capacity (rw_resources (dm_world (sv_daemon server))) = capacity \<and>
      rm_policy (rw_resources (dm_world (sv_daemon server))) = policy) \<longleftrightarrow>
   (\<exists>ps. args = option_pairs ps \<and> list_all option_ok ps \<and>
      parse_size (last_value ''--memory'' [] ps) = Some capacity \<and>
      last_value ''--socket'' [] ps = socket \<and> socket \<noteq> [] \<and>
      policy = (if last_value ''--scheduling'' ''priority'' ps = ''cost''
                then CostAware else PriorityFifo))"
    (is "?starts \<longleftrightarrow> ?configured")
proof -
  have starts: "server_new c p dev = Some \<lparr>sv_daemon = \<lparr>dm_world = \<lparr>rw_registry = mr_new,
        rw_resources = the (rm_new c p), rw_backend = dev, rw_residency = rz_new\<rparr>,
        dm_metrics = Some mt_new, dm_nodes = Some nr_new\<rparr>,
        sv_sessions = [], sv_stop = False, sv_phase = Accepting, sv_load = None\<rparr> \<and>
      rm_capacity (the (rm_new c p)) = c \<and> rm_policy (the (rm_new c p)) = p"
    if "parse_size m = Some c" for m c p
    using parse_size_pos [OF that] by (simp add: server_new_def rm_new_def)
  have not_help: "[''--help''] \<noteq> option_pairs ps" for ps
    by (cases ps) (auto simp: option_pairs_def)
  have "?starts \<longleftrightarrow> (\<exists>opts. args \<noteq> [''--help''] \<and> parse_options args no_options = Inr opts \<and>
      parse_size (do_memory opts) = Some capacity \<and> do_socket opts = socket \<and> socket \<noteq> [] \<and>
      do_policy opts = policy)"
    using starts by (auto simp: daemon_setup_def parse_bytes_def
        split: sum.splits option.splits option_error.splits if_splits)
  also have "\<dots> \<longleftrightarrow> ?configured"
    using not_help [symmetric] by (auto simp: parse_options_exact options_of_def no_options_def)
  finally show ?thesis .
qed

end
