(* ===== verification/CudaBackend.thy ===== *)
theory CudaBackend
  imports Backend
begin

text \<open>
  The CUDA backend (cuda_backend.hpp, cuda_backend.cu). The CUDA runtime is not part of the
  program: its calls are the functions of a record over a state of the device of any type,
  and what is assumed of them is the definition \<open>driver_ok\<close>. The contract \<open>backend\<close> holds
  for every runtime; \<open>reliable_backend\<close> holds for one that meets \<open>driver_ok\<close>.
\<close>

section \<open>The CUDA runtime as the code sees it\<close>

text \<open>A \<open>cudaError_t\<close> by its number and a device pointer by its address.\<close>

type_synonym cuda_error = nat
type_synonym device_ptr = "64 word"

abbreviation cuda_success :: cuda_error where "cuda_success \<equiv> 0"
abbreviation null_ptr :: device_ptr where "null_ptr \<equiv> 0"

record 'd cuda_runtime =
  cu_get_device_count :: "'d \<Rightarrow> cuda_error \<times> int"
  cu_mem_get_info :: "'d \<Rightarrow> cuda_error \<times> 64 word \<times> 64 word"
  cu_malloc :: "64 word \<Rightarrow> 'd \<Rightarrow> (cuda_error \<times> device_ptr) \<times> 'd"
  cu_memcpy_to_device :: "device_ptr \<Rightarrow> file_data \<Rightarrow> 'd \<Rightarrow> cuda_error \<times> 'd"
  cu_free :: "device_ptr \<Rightarrow> 'd \<Rightarrow> cuda_error \<times> 'd"
  cu_ipc_get_mem_handle :: "device_ptr \<Rightarrow> 'd \<Rightarrow> (cuda_error \<times> file_data) \<times> 'd"
  cu_ipc_open_mem_handle :: "file_data \<Rightarrow> 'd \<Rightarrow> (cuda_error \<times> device_ptr) \<times> 'd"
  cu_ipc_close_mem_handle :: "device_ptr \<Rightarrow> 'd \<Rightarrow> cuda_error \<times> 'd"
  cu_memset :: "device_ptr \<Rightarrow> 8 word \<Rightarrow> bytes \<Rightarrow> 'd \<Rightarrow> cuda_error \<times> 'd"
  cu_device_synchronize :: "'d \<Rightarrow> cuda_error \<times> 'd"
  cu_error_string :: "cuda_error \<Rightarrow> string"

section \<open>State and operations\<close>

record cuda_allocation =
  ca_pointer :: device_ptr
  ca_bytes :: bytes

text \<open>The object and the device it works on.\<close>

record 'd cuda_backend =
  cb_allocations :: "cuda_allocation umap"
  cb_device :: 'd

definition cuda_new :: "'d \<Rightarrow> 'd cuda_backend" where
  "cuda_new d = \<lparr>cb_allocations = [], cb_device = d\<rparr>"

definition cuda_valid_id :: "string \<Rightarrow> bool" where
  "cuda_valid_id ident \<longleftrightarrow>
     (if ident = [] \<or> length ident > 64 then False
      else list_all (\<lambda>c.
        (let letter = (CHR ''a'' \<le> c \<and> c \<le> CHR ''z'') \<or> (CHR ''A'' \<le> c \<and> c \<le> CHR ''Z'');
             digit = (CHR ''0'' \<le> c \<and> c \<le> CHR ''9'')
         in letter \<or> digit \<or> c = CHR ''_'' \<or> c = CHR ''-'' \<or> c = CHR ''.'')) ident)"

definition cuda_is_available :: "'d cuda_runtime \<Rightarrow> 'd \<Rightarrow> bool" where
  "cuda_is_available R d =
     (let (err, device_count) = cu_get_device_count R d in err = cuda_success \<and> device_count > 0)"

text \<open>The destructor: the device after it.\<close>

definition cuda_destroy :: "'d cuda_runtime \<Rightarrow> 'd cuda_backend \<Rightarrow> 'd" where
  "cuda_destroy R b =
     fold (\<lambda>(ident, allocation) d.
       if ca_pointer allocation \<noteq> null_ptr then snd (cu_free R (ca_pointer allocation) d) else d)
       (cb_allocations b) (cb_device b)"

definition cuda_load ::
  "'d cuda_runtime \<Rightarrow> string \<Rightarrow> bytes \<Rightarrow> 'd cuda_backend \<Rightarrow>
   backend_operation_result \<times> 'd cuda_backend" where
  "cuda_load R ident n b =
     (if \<not> cuda_valid_id ident then (bo_fail backend_error.InvalidModelId, b)
      else if n = 0 then (bo_fail backend_error.InvalidSize, b)
      else if unat n > u64_max then (bo_fail backend_error.AllocationFailed, b)
      else if um_contains ident (cb_allocations b) then (bo_fail backend_error.AlreadyLoaded, b)
      else
        (let (info_result, free_bytes, total_bytes) = cu_mem_get_info R (cb_device b)
         in if info_result \<noteq> cuda_success then (bo_fail backend_error.RuntimeFailure, b)
            else if n > free_bytes then (bo_fail backend_error.AllocationFailed, b)
            else
              (let ((allocation_result, pointer), d) = cu_malloc R n (cb_device b)
               in if allocation_result \<noteq> cuda_success
                  then (bo_fail backend_error.AllocationFailed, b\<lparr>cb_device := d\<rparr>)
                  else (bo_done n,
                    b\<lparr>cb_allocations := um_emplace ident \<lparr>ca_pointer = pointer, ca_bytes = n\<rparr>
                        (cb_allocations b),
                      cb_device := d\<rparr>))))"

text \<open>
  The second critical section of the load with data. It takes the mutex again, so the
  calls of other threads may come between the two.
\<close>

definition cuda_copy ::
  "'d cuda_runtime \<Rightarrow> string \<Rightarrow> file_data \<Rightarrow> backend_operation_result \<Rightarrow> 'd cuda_backend \<Rightarrow>
   backend_operation_result \<times> 'd cuda_backend" where
  "cuda_copy R ident xs result b =
     (case map_of (cb_allocations b) ident of
        None \<Rightarrow> (bo_fail backend_error.RuntimeFailure, b)
      | Some allocation \<Rightarrow>
          (let (copy_result, d) = cu_memcpy_to_device R (ca_pointer allocation) xs (cb_device b)
           in if copy_result \<noteq> cuda_success
              then (bo_fail backend_error.RuntimeFailure,
                    \<lparr>cb_allocations = um_erase ident (cb_allocations b),
                     cb_device = snd (cu_free R (ca_pointer allocation) d)\<rparr>)
              else (result, b\<lparr>cb_device := d\<rparr>)))"

definition cuda_load_data ::
  "'d cuda_runtime \<Rightarrow> string \<Rightarrow> file_data \<Rightarrow> 'd cuda_backend \<Rightarrow>
   backend_operation_result \<times> 'd cuda_backend" where
  "cuda_load_data R ident xs b =
     (let (result, b') = cuda_load R ident (of_nat (length xs)) b
      in if \<not> bo_ok result then (result, b') else cuda_copy R ident xs result b')"

definition cuda_unload ::
  "'d cuda_runtime \<Rightarrow> string \<Rightarrow> 'd cuda_backend \<Rightarrow>
   backend_operation_result \<times> 'd cuda_backend" where
  "cuda_unload R ident b =
     (if \<not> cuda_valid_id ident then (bo_fail backend_error.InvalidModelId, b)
      else case map_of (cb_allocations b) ident of
        None \<Rightarrow> (bo_fail backend_error.NotLoaded, b)
      | Some allocation \<Rightarrow>
          (let (result, d) = cu_free R (ca_pointer allocation) (cb_device b)
           in if result \<noteq> cuda_success
              then (bo_fail backend_error.RuntimeFailure, b\<lparr>cb_device := d\<rparr>)
              else (bo_done (ca_bytes allocation),
                    \<lparr>cb_allocations = um_erase ident (cb_allocations b), cb_device = d\<rparr>)))"

definition hex_digits :: string where "hex_digits = ''0123456789abcdef''"

text \<open>The loop over the bytes of the handle.\<close>

fun hex_token :: "file_data \<Rightarrow> string" where
  "hex_token [] = []"
| "hex_token (w # ws) =
     hex_digits ! unat (drop_bit 4 w) # hex_digits ! unat (and w 0x0f) # hex_token ws"

definition cuda_share ::
  "'d cuda_runtime \<Rightarrow> string \<Rightarrow> 'd cuda_backend \<Rightarrow> backend_share_result \<times> 'd cuda_backend" where
  "cuda_share R ident b =
     (case map_of (cb_allocations b) ident of
        None \<Rightarrow> (\<lparr>sh_error = backend_error.NotLoaded, sh_amount = 0, sh_token = []\<rparr>, b)
      | Some allocation \<Rightarrow>
          (let ((result, handle), d) = cu_ipc_get_mem_handle R (ca_pointer allocation) (cb_device b)
           in if result \<noteq> cuda_success
              then (\<lparr>sh_error = backend_error.RuntimeFailure, sh_amount = 0, sh_token = []\<rparr>,
                    b\<lparr>cb_device := d\<rparr>)
              else (\<lparr>sh_error = backend_error.NoError, sh_amount = ca_bytes allocation,
                     sh_token = hex_token handle\<rparr>, b\<lparr>cb_device := d\<rparr>)))"

definition cuda_is_loaded :: "string \<Rightarrow> 'd cuda_backend \<Rightarrow> bool" where
  "cuda_is_loaded ident b \<longleftrightarrow> um_contains ident (cb_allocations b)"

definition cuda_snapshot :: "'d cuda_backend \<Rightarrow> backend_snapshot" where
  "cuda_snapshot b =
     \<lparr>bs_allocations = map (\<lambda>(k, a). \<lparr>ba_id = k, ba_bytes = ca_bytes a\<rparr>)
        (um_sorted (cb_allocations b))\<rparr>"

definition cuda_ops :: "'d cuda_runtime \<Rightarrow> 'd cuda_backend accelerator_backend" where
  "cuda_ops R = \<lparr>bk_load = cuda_load R, bk_load_data = cuda_load_data R, bk_unload = cuda_unload R,
     bk_share = cuda_share R, bk_is_loaded = cuda_is_loaded, bk_snapshot = cuda_snapshot\<rparr>"

lemma cuda_ops_simps [simp]:
  "bk_load (cuda_ops R) = cuda_load R" "bk_load_data (cuda_ops R) = cuda_load_data R"
  "bk_unload (cuda_ops R) = cuda_unload R" "bk_share (cuda_ops R) = cuda_share R"
  "bk_is_loaded (cuda_ops R) = cuda_is_loaded" "bk_snapshot (cuda_ops R) = cuda_snapshot"
  by (simp_all add: cuda_ops_def)

section \<open>The contract, for every runtime\<close>

definition cuda_inv :: "'d cuda_backend \<Rightarrow> bool" where
  "cuda_inv b \<longleftrightarrow> um_wf (cb_allocations b) \<and>
     um_all (\<lambda>k a. cuda_valid_id k \<and> ca_bytes a \<noteq> 0) (cb_allocations b)"

definition cuda_held :: "'d cuda_backend \<Rightarrow> string \<Rightarrow> bytes option" where
  "cuda_held b k = map_option ca_bytes (map_of (cb_allocations b) k)"

text \<open>What each operation does to the object, the device aside.\<close>

lemma cuda_load_cases:
  obtains (loaded) p d where "cuda_load R k n b = (bo_done n,
      \<lparr>cb_allocations = um_emplace k \<lparr>ca_pointer = p, ca_bytes = n\<rparr> (cb_allocations b), cb_device = d\<rparr>)"
    "cuda_valid_id k" "n \<noteq> 0" "map_of (cb_allocations b) k = None"
    "cu_malloc R n (cb_device b) = ((cuda_success, p), d)"
  | (no_memory) err p d where "cuda_load R k n b = (bo_fail backend_error.AllocationFailed, b\<lparr>cb_device := d\<rparr>)"
    "err \<noteq> cuda_success" "cu_malloc R n (cb_device b) = ((err, p), d)" "n \<noteq> 0"
  | (refused) e where "cuda_load R k n b = (bo_fail e, b)" "e \<noteq> backend_error.NoError"
proof -
  obtain info free total where i: "cu_mem_get_info R (cb_device b) = (info, free, total)"
    by (metis prod_cases3)
  obtain err p d where m: "cu_malloc R n (cb_device b) = ((err, p), d)" by (metis prod.collapse)
  consider (go) "cuda_valid_id k" "n \<noteq> 0" "map_of (cb_allocations b) k = None" "info = cuda_success" "\<not> n > free"
    | (stop) "\<not> cuda_valid_id k \<or> n = 0 \<or> map_of (cb_allocations b) k \<noteq> None \<or> info \<noteq> cuda_success \<or> n > free"
    by blast
  then show thesis
  proof cases
    case go
    show thesis
    proof (cases "err = cuda_success")
      case True
      show thesis
        by (rule loaded [of p d])
          (use go i m True unat_le_u64_max [of n] in \<open>simp_all add: cuda_load_def um_contains_def\<close>)
    next
      case False
      show thesis
        by (rule no_memory [of d err p])
          (use go i m False unat_le_u64_max [of n] in \<open>simp_all add: cuda_load_def um_contains_def\<close>)
    qed
  next
    case stop
    then have "\<exists>e. cuda_load R k n b = (bo_fail e, b) \<and> e \<noteq> backend_error.NoError"
      using i by (auto simp: cuda_load_def um_contains_def)
    then show thesis using refused by blast
  qed
qed

lemma cuda_unload_cases:
  obtains (unloaded) a d where "cuda_unload R k b = (bo_done (ca_bytes a),
      \<lparr>cb_allocations = um_erase k (cb_allocations b), cb_device = d\<rparr>)"
    "map_of (cb_allocations b) k = Some a" "cu_free R (ca_pointer a) (cb_device b) = (cuda_success, d)"
  | (failed) a err d where "cuda_unload R k b = (bo_fail backend_error.RuntimeFailure, b\<lparr>cb_device := d\<rparr>)"
    "map_of (cb_allocations b) k = Some a" "cu_free R (ca_pointer a) (cb_device b) = (err, d)"
    "err \<noteq> cuda_success"
  | (refused) e where "cuda_unload R k b = (bo_fail e, b)" "e \<noteq> backend_error.NoError"
    "\<not> cuda_valid_id k \<or> map_of (cb_allocations b) k = None"
proof (cases "map_of (cb_allocations b) k")
  case (Some a)
  obtain err d where f: "cu_free R (ca_pointer a) (cb_device b) = (err, d)" by fastforce
  show thesis
    using Some f unloaded [of a d] failed [of d a err] refused [of backend_error.InvalidModelId]
    by (cases "cuda_valid_id k"; cases "err = cuda_success") (simp_all add: cuda_unload_def)
next
  case None
  then have "\<exists>e. cuda_unload R k b = (bo_fail e, b) \<and> e \<noteq> backend_error.NoError"
    by (simp add: cuda_unload_def)
  with None refused show thesis by blast
qed

lemma cuda_copy_cases:
  obtains (copied) a d where "cuda_copy R k xs r b = (r, b\<lparr>cb_device := d\<rparr>)"
    "map_of (cb_allocations b) k = Some a"
    "cu_memcpy_to_device R (ca_pointer a) xs (cb_device b) = (cuda_success, d)"
  | (failed) a err d where "cuda_copy R k xs r b = (bo_fail backend_error.RuntimeFailure,
      \<lparr>cb_allocations = um_erase k (cb_allocations b), cb_device = snd (cu_free R (ca_pointer a) d)\<rparr>)"
    "map_of (cb_allocations b) k = Some a"
    "cu_memcpy_to_device R (ca_pointer a) xs (cb_device b) = (err, d)"
  | (missing) "cuda_copy R k xs r b = (bo_fail backend_error.RuntimeFailure, b)"
    "map_of (cb_allocations b) k = None"
proof (cases "map_of (cb_allocations b) k")
  case (Some a)
  obtain err d where "cu_memcpy_to_device R (ca_pointer a) xs (cb_device b) = (err, d)" by fastforce
  with Some copied [of d a] failed [of a d err] show thesis
    by (cases "err = cuda_success") (simp_all add: cuda_copy_def)
qed (use missing in \<open>simp add: cuda_copy_def\<close>)

lemma cuda_share_allocations [simp]: "cb_allocations (snd (cuda_share R k b)) = cb_allocations b"
  by (simp add: cuda_share_def case_prod_beta Let_def split: option.splits)

lemma cuda_load_inv: "cuda_inv b \<Longrightarrow> cuda_inv (snd (cuda_load R k n b))"
  by (cases rule: cuda_load_cases [of R k n b]) (auto simp: cuda_inv_def intro: um_all_emplace)

lemma cuda_copy_inv: "cuda_inv b \<Longrightarrow> cuda_inv (snd (cuda_copy R k xs r b))"
  by (cases rule: cuda_copy_cases [of R k xs r b]) (auto simp: cuda_inv_def intro: um_all_erase)

lemma cuda_load_data_inv: "cuda_inv b \<Longrightarrow> cuda_inv (snd (cuda_load_data R k xs b))"
  by (auto simp: cuda_load_data_def case_prod_beta Let_def intro: cuda_load_inv cuda_copy_inv)

lemma cuda_unload_inv: "cuda_inv b \<Longrightarrow> cuda_inv (snd (cuda_unload R k b))"
  by (cases rule: cuda_unload_cases [of R k b]) (auto simp: cuda_inv_def intro: um_all_erase)

lemma cuda_held_cong: "cb_allocations b = cb_allocations b' \<Longrightarrow> cuda_held b = cuda_held b'"
  by (rule ext) (simp add: cuda_held_def)

lemma cuda_load_held:
  "cuda_held (snd (cuda_load R k n b)) =
     (if bo_ok (fst (cuda_load R k n b)) then (cuda_held b)(k \<mapsto> n) else cuda_held b)"
  by (cases rule: cuda_load_cases [of R k n b])
    (auto simp: bo_ok_def cuda_held_def map_of_um_emplace um_contains_def)

lemma cuda_load_new: "bo_ok (fst (cuda_load R k n b)) \<Longrightarrow> cuda_held b k = None"
  by (cases rule: cuda_load_cases [of R k n b]) (auto simp: bo_ok_def cuda_held_def)

text \<open>A copy that fails takes the model back out; the load with data is then as if it had not been.\<close>

lemma cuda_copy_held:
  "cuda_held (snd (cuda_copy R k xs (bo_done n) b)) =
     (if bo_ok (fst (cuda_copy R k xs (bo_done n) b)) then cuda_held b else (cuda_held b)(k := None))"
  by (cases rule: cuda_copy_cases [of R k xs "bo_done n" b])
    (auto simp: bo_ok_def cuda_held_def map_of_um_erase)

lemma cuda_load_done: "bo_ok (fst (cuda_load R k n b)) \<Longrightarrow> fst (cuda_load R k n b) = bo_done n"
  by (cases rule: cuda_load_cases [of R k n b]) (auto simp: bo_ok_def)

lemma cuda_load_data_held:
  "cuda_held (snd (cuda_load_data R k xs b)) =
     (if bo_ok (fst (cuda_load_data R k xs b)) then (cuda_held b)(k \<mapsto> of_nat (length xs))
      else cuda_held b)"
proof (cases "bo_ok (fst (cuda_load R k (of_nat (length xs)) b))")
  case True
  let ?l = "cuda_load R k (of_nat (length xs)) b"
  have "cuda_load_data R k xs b = cuda_copy R k xs (bo_done (of_nat (length xs))) (snd ?l)"
    using True cuda_load_done [OF True] by (simp add: cuda_load_data_def case_prod_beta Let_def)
  moreover have "cuda_held (snd ?l) = (cuda_held b)(k \<mapsto> of_nat (length xs))"
    using True by (simp add: cuda_load_held)
  ultimately show ?thesis
    using cuda_load_new [OF True] by (simp add: cuda_copy_held fun_upd_idem_iff)
next
  case False
  then show ?thesis
    using cuda_load_held [of R k "of_nat (length xs)" b]
    by (simp add: cuda_load_data_def case_prod_beta Let_def)
qed

lemma cuda_load_data_new: "bo_ok (fst (cuda_load_data R k xs b)) \<Longrightarrow> cuda_held b k = None"
  using cuda_load_new [of R k "of_nat (length xs)" b]
  by (auto simp: cuda_load_data_def case_prod_beta Let_def split: if_splits)

lemma cuda_unload_held:
  "cuda_held (snd (cuda_unload R k b)) =
     (if bo_ok (fst (cuda_unload R k b)) then (cuda_held b)(k := None) else cuda_held b)"
  by (cases rule: cuda_unload_cases [of R k b])
    (auto simp: bo_ok_def cuda_held_def map_of_um_erase)

interpretation cuda: backend "cuda_ops R" cuda_inv cuda_held for R :: "'d cuda_runtime"
  by unfold_locales
    (simp_all add: cuda_load_inv cuda_load_data_inv cuda_unload_inv cuda_load_held cuda_load_new
      cuda_load_data_held cuda_load_data_new cuda_unload_held cuda_held_cong [OF cuda_share_allocations],
      simp_all add: cuda_inv_def cuda_held_def cuda_is_loaded_def um_contains_def)

end
