(* ===== verification/CudaIpc.thy ===== *)
theory CudaIpc
  imports CudaBackend ClientProperties
begin

text \<open>
  The client side of sharing: \<open>CudaIpcClient\<close> (cuda_ipc_client.hpp, cuda_ipc_client.cu),
  \<open>CudaIpcAllocation\<close> and \<open>CudaClient\<close> (cuda_client.hpp, cuda_client.cu) and the
  demonstration program (examples/cuda_ipc_demo.cu). The device state is that of the
  client's process.
\<close>

section \<open>Opening and closing a handle\<close>

text \<open>\<open>sizeof(cudaIpcMemHandle_t)\<close>, which is \<open>CUDA_IPC_HANDLE_SIZE\<close>.\<close>

definition ipc_handle_size :: nat where "ipc_handle_size = 64"

definition hex_value :: "char \<Rightarrow> int" where
  "hex_value c =
     (if CHR ''0'' \<le> c \<and> c \<le> CHR ''9'' then of_char c - of_char (CHR ''0'')
      else if CHR ''a'' \<le> c \<and> c \<le> CHR ''f'' then of_char c - of_char (CHR ''a'') + 10
      else if CHR ''A'' \<le> c \<and> c \<le> CHR ''F'' then of_char c - of_char (CHR ''A'') + 10
      else - 1)"

definition ipc_is_available :: "'d cuda_runtime \<Rightarrow> 'd \<Rightarrow> bool" where
  "ipc_is_available R d =
     (let (err, device_count) = cu_get_device_count R d in err = cuda_success \<and> device_count > 0)"

text \<open>The loop over pairs of characters; \<open>None\<close> is the early return.\<close>

fun hex_bytes :: "string \<Rightarrow> file_data option" where
  "hex_bytes (h # l # rest) =
     (let high = hex_value h; low = hex_value l
      in if high < 0 \<or> low < 0 then None
         else map_option ((#) (word_of_int (or (push_bit 4 high) low))) (hex_bytes rest))"
| "hex_bytes _ = Some []"

text \<open>The result, the pointer passed by reference and the device.\<close>

definition ipc_open ::
  "'d cuda_runtime \<Rightarrow> string \<Rightarrow> device_ptr \<Rightarrow> 'd \<Rightarrow>
   (backend_operation_result \<times> device_ptr) \<times> 'd" where
  "ipc_open R token pointer d =
     (if length token \<noteq> ipc_handle_size * 2 then ((bo_fail backend_error.InvalidSize, pointer), d)
      else case hex_bytes token of
        None \<Rightarrow> ((bo_fail backend_error.RuntimeFailure, pointer), d)
      | Some handle \<Rightarrow>
          (let ((err, opened), d') = cu_ipc_open_mem_handle R handle d
           in if err \<noteq> cuda_success then ((bo_fail backend_error.RuntimeFailure, null_ptr), d')
              else ((bo_done 0, opened), d')))"

definition ipc_close ::
  "'d cuda_runtime \<Rightarrow> device_ptr \<Rightarrow> 'd \<Rightarrow> backend_operation_result \<times> 'd" where
  "ipc_close R pointer d =
     (if pointer = null_ptr then (bo_fail backend_error.RuntimeFailure, d)
      else (let (err, d') = cu_ipc_close_mem_handle R pointer d
            in if err \<noteq> cuda_success then (bo_fail backend_error.RuntimeFailure, d')
               else (bo_done 0, d')))"

section \<open>The owner of an opened handle\<close>

record ipc_allocation =
  ia_pointer :: device_ptr
  ia_bytes :: bytes

definition ia_new :: "device_ptr \<Rightarrow> bytes \<Rightarrow> ipc_allocation" where
  "ia_new pointer n = \<lparr>ia_pointer = pointer, ia_bytes = n\<rparr>"

definition ia_empty :: ipc_allocation where
  "ia_empty = \<lparr>ia_pointer = null_ptr, ia_bytes = 0\<rparr>"

definition ia_reset :: "'d cuda_runtime \<Rightarrow> ipc_allocation \<Rightarrow> 'd \<Rightarrow> ipc_allocation \<times> 'd" where
  "ia_reset R this d =
     (if ia_pointer this \<noteq> null_ptr
      then (\<lparr>ia_pointer = null_ptr, ia_bytes = 0\<rparr>, snd (ipc_close R (ia_pointer this) d))
      else (this, d))"

definition ia_destroy :: "'d cuda_runtime \<Rightarrow> ipc_allocation \<Rightarrow> 'd \<Rightarrow> 'd" where
  "ia_destroy R this d = snd (ia_reset R this d)"

text \<open>The move constructor: the new object and the old one.\<close>

definition ia_move :: "ipc_allocation \<Rightarrow> ipc_allocation \<times> ipc_allocation" where
  "ia_move other =
     (\<lparr>ia_pointer = ia_pointer other, ia_bytes = ia_bytes other\<rparr>,
      other\<lparr>ia_pointer := null_ptr, ia_bytes := 0\<rparr>)"

text \<open>The move assignment, on objects by their index; the same index is the same object.\<close>

definition ia_assign ::
  "'d cuda_runtime \<Rightarrow> nat \<Rightarrow> nat \<Rightarrow> ipc_allocation list \<times> 'd \<Rightarrow> ipc_allocation list \<times> 'd" where
  "ia_assign R this other s =
     (case s of (objs, d) \<Rightarrow>
        if this \<noteq> other then
          (let (cleared, d') = ia_reset R (objs ! this) d; (moved, left) = ia_move (objs ! other)
           in (objs[this := cleared\<lparr>ia_pointer := ia_pointer moved, ia_bytes := ia_bytes moved\<rparr>,
                    other := left], d'))
        else (objs, d))"

section \<open>Opening a model\<close>

record cuda_open_result =
  or_response :: client_response
  or_backend :: backend_operation_result
  or_allocation :: "ipc_allocation option"

definition or_ok :: "cuda_open_result \<Rightarrow> bool" where
  "or_ok r \<longleftrightarrow> cr_ok (or_response r) \<and> bo_ok (or_backend r) \<and> or_allocation r \<noteq> None"

text \<open>What was sent, the result once the request has returned, and the device.\<close>

definition open_model ::
  "'d cuda_runtime \<Rightarrow> string \<Rightarrow> connection \<Rightarrow> string \<Rightarrow> 'd \<Rightarrow>
   string \<times> cuda_open_result option \<times> 'd" where
  "open_model R path conn name d =
     (let (sent, answer) = client_request path conn (share_command name)
      in (sent, case answer of
            None \<Rightarrow> (None, d)
          | Some response \<Rightarrow>
              (if \<not> cr_ok response then
                 (Some \<lparr>or_response = response, or_backend = bo_done 0, or_allocation = None\<rparr>, d)
               else case parse_share_response (cr_payload response) of
                 None \<Rightarrow>
                   (Some \<lparr>or_response = \<lparr>cr_error = client_error.ReadFailed,
                            cr_payload = cr_payload response\<rparr>,
                          or_backend = bo_fail backend_error.RuntimeFailure,
                          or_allocation = None\<rparr>, d)
               | Some descriptor \<Rightarrow>
                   (let ((opened, pointer), d') = ipc_open R (sd_token descriptor) null_ptr d
                    in if \<not> bo_ok opened then
                         (Some \<lparr>or_response = response, or_backend = opened,
                                or_allocation = None\<rparr>, d')
                       else
                         (Some \<lparr>or_response = response, or_backend = opened,
                                or_allocation = Some (ia_new pointer (sd_bytes descriptor))\<rparr>, d')))))"

section \<open>The demonstration program\<close>

definition demo_usage :: string where
  "demo_usage = ''Usage: gpumemd-cuda-demo --socket PATH --model NAME'' @ newline"

text \<open>The loop over the arguments: the socket path and the model, \<open>None\<close> the usage error.\<close>

fun demo_options :: "string list \<Rightarrow> string \<Rightarrow> string \<Rightarrow> (string \<times> string) option" where
  "demo_options [] socket_path model = Some (socket_path, model)"
| "demo_options [argument] socket_path model = None"
| "demo_options (argument # val # rest) socket_path model =
     (if argument = ''--socket'' then demo_options rest val model
      else if argument = ''--model'' then demo_options rest socket_path val
      else None)"

record demo_output =
  dp_status :: int
  dp_stdout :: string
  dp_stderr :: string

text \<open>
  The part after a successful open; the allocation is closed when \<open>main\<close> returns, on every
  path.
\<close>

definition demo_work ::
  "'d cuda_runtime \<Rightarrow> string \<Rightarrow> ipc_allocation \<Rightarrow> 'd \<Rightarrow> demo_output \<times> 'd" where
  "demo_work R model allocation d =
     (let (memset_result, d1) = cu_memset R (ia_pointer allocation) 0 (ia_bytes allocation) d
      in if memset_result \<noteq> cuda_success then
           (\<lparr>dp_status = 1, dp_stdout = [], dp_stderr = ''gpumemd-cuda-demo: cudaMemset failed: '' @
              cu_error_string R memset_result @ newline\<rparr>, ia_destroy R allocation d1)
         else
           (let (sync_result, d2) = cu_device_synchronize R d1
            in if sync_result \<noteq> cuda_success then
                 (\<lparr>dp_status = 1, dp_stdout = [],
                    dp_stderr = ''gpumemd-cuda-demo: CUDA synchronization failed: '' @
                      cu_error_string R sync_result @ newline\<rparr>, ia_destroy R allocation d2)
               else
                 (\<lparr>dp_status = 0,
                    dp_stdout = ''OK opened '' @ model @ '' '' @ show_u64 (ia_bytes allocation) @
                      '' bytes'' @ newline @ ''OK cudaMemset'' @ newline @
                      ''OK closed_on_scope_exit'' @ newline,
                    dp_stderr = []\<rparr>, ia_destroy R allocation d2)))"

definition demo_main ::
  "'d cuda_runtime \<Rightarrow> connection \<Rightarrow> string list \<Rightarrow> 'd \<Rightarrow> demo_output option \<times> 'd" where
  "demo_main R conn args d =
     (case demo_options args [] [] of
        None \<Rightarrow> (Some \<lparr>dp_status = 2, dp_stdout = [], dp_stderr = demo_usage\<rparr>, d)
      | Some (socket_path, model) \<Rightarrow>
          if socket_path = [] \<or> model = [] then
            (Some \<lparr>dp_status = 2, dp_stdout = [], dp_stderr = demo_usage\<rparr>, d)
          else case snd (open_model R socket_path conn model d) of
            (None, d') \<Rightarrow> (None, d')
          | (Some shared, d') \<Rightarrow>
              (case or_allocation shared of
                 Some allocation \<Rightarrow>
                   if or_ok shared then
                     (let (out, d'') = demo_work R model allocation d' in (Some out, d''))
                   else
                     (Some \<lparr>dp_status = 1, dp_stdout = [],
                        dp_stderr = ''gpumemd-cuda-demo: could not open model: '' @
                          (if cr_payload (or_response shared) = [] then ''CUDA IPC failure''
                           else cr_payload (or_response shared))\<rparr>, ia_destroy R allocation d')
               | None \<Rightarrow>
                   (Some \<lparr>dp_status = 1, dp_stdout = [],
                      dp_stderr = ''gpumemd-cuda-demo: could not open model: '' @
                        (if cr_payload (or_response shared) = [] then ''CUDA IPC failure''
                         else cr_payload (or_response shared))\<rparr>, d')))"

end
