(* ===== verification/CudaMemory.thy ===== *)
theory CudaMemory
  imports CudaBackend
begin

text \<open>
  The device memory of the CUDA backend: under the documented behaviour of the runtime the
  object owns exactly the memory it records, whatever the interleaving of its critical
  sections, and it meets the contract \<open>reliable_backend\<close> the residency manager rests on.
\<close>

section \<open>What is assumed of the runtime\<close>

text \<open>
  \<open>live d\<close> is the memory obtained from \<open>cudaMalloc\<close> and not yet given back. A successful
  \<open>cudaMalloc\<close> returns new memory of the size asked for, \<open>cudaFree\<close> of live memory succeeds
  and gives back exactly that, and the other calls neither allocate nor free. (A real \<open>cudaFree\<close>
  may also return the error of an earlier asynchronous call; what the backend and the
  residency manager do then is in CudaResidency and in the properties over \<open>backend\<close>.)
\<close>

definition driver_ok :: "'d cuda_runtime \<Rightarrow> ('d \<Rightarrow> device_ptr \<Rightarrow> bytes option) \<Rightarrow> bool" where
  "driver_ok R live \<longleftrightarrow>
     (\<forall>n d p d'. n \<noteq> 0 \<longrightarrow> cu_malloc R n d = ((cuda_success, p), d') \<longrightarrow>
        p \<noteq> null_ptr \<and> live d p = None \<and> live d' = (live d)(p \<mapsto> n)) \<and>
     (\<forall>n d err p d'. cu_malloc R n d = ((err, p), d') \<longrightarrow> err \<noteq> cuda_success \<longrightarrow> live d' = live d) \<and>
     (\<forall>p xs d. live (snd (cu_memcpy_to_device R p xs d)) = live d) \<and>
     (\<forall>p d. live d p \<noteq> None \<longrightarrow> fst (cu_free R p d) = cuda_success \<and>
        live (snd (cu_free R p d)) = (live d)(p := None)) \<and>
     (\<forall>p d. live (snd (cu_ipc_get_mem_handle R p d)) = live d)"

lemma driver_malloc:
  "driver_ok R live \<Longrightarrow> n \<noteq> 0 \<Longrightarrow> cu_malloc R n d = ((cuda_success, p), d') \<Longrightarrow>
   p \<noteq> null_ptr \<and> live d p = None \<and> live d' = (live d)(p \<mapsto> n)"
  unfolding driver_ok_def by blast

lemma driver_malloc_fails:
  "driver_ok R live \<Longrightarrow> cu_malloc R n d = ((err, p), d') \<Longrightarrow> err \<noteq> cuda_success \<Longrightarrow> live d' = live d"
  unfolding driver_ok_def by blast

lemma driver_free:
  "driver_ok R live \<Longrightarrow> live d p \<noteq> None \<Longrightarrow> cu_free R p d = (err, d') \<Longrightarrow>
   err = cuda_success \<and> live d' = (live d)(p := None)"
  unfolding driver_ok_def by (metis fst_conv snd_conv)

lemma driver_keeps:
  assumes "driver_ok R live"
  shows "cu_memcpy_to_device R p xs d = (err, d') \<Longrightarrow> live d' = live d"
    and "live (snd (cu_ipc_get_mem_handle R p d)) = live d"
  using assms unfolding driver_ok_def by (metis snd_conv)+

section \<open>Ownership\<close>

definition cuda_pointers :: "cuda_allocation umap \<Rightarrow> (device_ptr \<times> bytes) list" where
  "cuda_pointers m = map (\<lambda>e. (ca_pointer (snd e), ca_bytes (snd e))) m"

lemma cuda_pointers_simps [simp]:
  "cuda_pointers [] = []"
  "cuda_pointers (e # m) = (ca_pointer (snd e), ca_bytes (snd e)) # cuda_pointers m"
  by (simp_all add: cuda_pointers_def)

definition cuda_owned :: "('d \<Rightarrow> device_ptr \<Rightarrow> bytes option) \<Rightarrow> 'd cuda_backend \<Rightarrow> bool" where
  "cuda_owned live b \<longleftrightarrow> cuda_inv b \<and> distinct (map fst (cuda_pointers (cb_allocations b))) \<and>
     null_ptr \<notin> fst ` set (cuda_pointers (cb_allocations b)) \<and>
     live (cb_device b) = map_of (cuda_pointers (cb_allocations b))"

lemma owned_pointer:
  assumes "cuda_owned live b" and "map_of (cb_allocations b) k = Some a"
  shows "live (cb_device b) (ca_pointer a) = Some (ca_bytes a)"
proof -
  have "(ca_pointer a, ca_bytes a) \<in> set (cuda_pointers (cb_allocations b))"
    using map_of_SomeD [OF assms(2)] by (force simp: cuda_pointers_def)
  with assms(1) show ?thesis by (simp add: cuda_owned_def)
qed

lemma cuda_pointers_erase:
  assumes "um_wf m" and "distinct (map fst (cuda_pointers m))" and "map_of m k = Some a"
  shows "cuda_pointers (um_erase k m) = AList.delete (ca_pointer a) (cuda_pointers m)"
proof -
  have inj: "inj_on (\<lambda>e. ca_pointer (snd e)) (set m)"
    using assms(2) by (simp add: cuda_pointers_def distinct_map comp_def)
  have ka: "(k, a) \<in> set m" by (rule map_of_SomeD [OF assms(3)])
  have "fst e \<noteq> k \<longleftrightarrow> ca_pointer (snd e) \<noteq> ca_pointer a" if "e \<in> set m" for e
  proof
    show "ca_pointer (snd e) \<noteq> ca_pointer a" if "fst e \<noteq> k"
      using inj_onD [OF inj, of e "(k, a)"] that \<open>e \<in> set m\<close> ka by auto
    show "fst e \<noteq> k" if "ca_pointer (snd e) \<noteq> ca_pointer a"
      using that \<open>e \<in> set m\<close> ka eq_key_imp_eq_value [OF assms(1), of k "snd e" a] by (cases e) auto
  qed
  then have "um_erase k m = filter (\<lambda>e. ca_pointer (snd e) \<noteq> ca_pointer a) m"
    unfolding um_erase_def by (intro filter_cong) auto
  then show ?thesis
    by (simp add: cuda_pointers_def AList.delete_eq filter_map comp_def case_prod_beta eq_commute)
qed

lemma owned_add:
  assumes "cuda_owned live b" and "map_of (cb_allocations b) k = None" and "cuda_valid_id k"
    and "n \<noteq> 0" and "p \<noteq> null_ptr" and "live (cb_device b) p = None"
    and "live d = (live (cb_device b))(p \<mapsto> n)"
  shows "cuda_owned live
    \<lparr>cb_allocations = um_emplace k \<lparr>ca_pointer = p, ca_bytes = n\<rparr> (cb_allocations b), cb_device = d\<rparr>"
proof -
  have "p \<notin> fst ` set (cuda_pointers (cb_allocations b))"
    using assms(1,6) by (simp add: cuda_owned_def map_of_eq_None_iff)
  moreover have "cuda_pointers (um_emplace k \<lparr>ca_pointer = p, ca_bytes = n\<rparr> (cb_allocations b)) =
      (p, n) # cuda_pointers (cb_allocations b)"
    using assms(2) by (simp add: um_emplace_def um_contains_def cuda_pointers_def)
  moreover have "cuda_inv \<lparr>cb_allocations =
      um_emplace k \<lparr>ca_pointer = p, ca_bytes = n\<rparr> (cb_allocations b), cb_device = d\<rparr>"
    using assms(1,3,4) by (auto simp: cuda_owned_def cuda_inv_def intro: um_all_emplace)
  ultimately show ?thesis using assms(1,5,7) by (simp add: cuda_owned_def)
qed

lemma owned_remove:
  assumes "cuda_owned live b" and "map_of (cb_allocations b) k = Some a"
    and "live d = (live (cb_device b))(ca_pointer a := None)"
  shows "cuda_owned live \<lparr>cb_allocations = um_erase k (cb_allocations b), cb_device = d\<rparr>"
proof -
  have inv: "um_wf (cb_allocations b)" "distinct (map fst (cuda_pointers (cb_allocations b)))"
    using assms(1) by (simp_all add: cuda_owned_def cuda_inv_def)
  note er = cuda_pointers_erase [OF inv assms(2)]
  have "cuda_inv \<lparr>cb_allocations = um_erase k (cb_allocations b), cb_device = d\<rparr>"
    using assms(1) by (auto simp: cuda_owned_def cuda_inv_def intro: um_all_erase)
  moreover have "distinct (map fst (cuda_pointers (um_erase k (cb_allocations b))))"
    unfolding er using inv(2) by (rule distinct_delete)
  moreover have "null_ptr \<notin> fst ` set (cuda_pointers (um_erase k (cb_allocations b)))"
    using assms(1) by (auto simp: cuda_owned_def um_erase_def cuda_pointers_def)
  ultimately show ?thesis
    using assms(1,3) by (simp add: cuda_owned_def er delete_conv')
qed

lemma owned_device:
  "cuda_owned live b \<Longrightarrow> live d = live (cb_device b) \<Longrightarrow> cuda_owned live (b\<lparr>cb_device := d\<rparr>)"
  by (simp add: cuda_owned_def cuda_inv_def)

lemma owned_new: "live d = Map.empty \<Longrightarrow> cuda_owned live (cuda_new d)"
  by (simp add: cuda_owned_def cuda_new_def cuda_inv_def cuda_pointers_def)

section \<open>Every critical section keeps ownership\<close>

lemma cuda_load_owned:
  assumes "driver_ok R live" and "cuda_owned live b"
  shows "cuda_owned live (snd (cuda_load R k n b))"
proof (cases rule: cuda_load_cases [of R k n b])
  case (loaded p d)
  with driver_malloc [OF assms(1) loaded(3,5)] assms(2) show ?thesis by (simp add: owned_add)
next
  case (no_memory err p d)
  with driver_malloc_fails [OF assms(1) no_memory(3,2)] assms(2) show ?thesis by (simp add: owned_device)
qed (use assms in simp)

lemma cuda_unload_owned:
  assumes "driver_ok R live" and "cuda_owned live b"
  shows "cuda_owned live (snd (cuda_unload R k b))"
proof (cases rule: cuda_unload_cases [of R k b])
  case (unloaded a d)
  have "live d = (live (cb_device b))(ca_pointer a := None)"
    using driver_free [OF assms(1) _ unloaded(3)] owned_pointer [OF assms(2) unloaded(2)] by simp
  with unloaded(1,2) assms(2) show ?thesis by (simp add: owned_remove)
next
  case (failed a err d)
  have "err = cuda_success"
    using driver_free [OF assms(1) _ failed(3)] owned_pointer [OF assms(2) failed(2)] by simp
  with failed(4) show ?thesis by simp
qed (use assms in simp)

lemma cuda_copy_owned:
  assumes "driver_ok R live" and "cuda_owned live b"
  shows "cuda_owned live (snd (cuda_copy R k xs r b))"
proof (cases rule: cuda_copy_cases [of R k xs r b])
  case (copied a d)
  with driver_keeps(1) [OF assms(1) copied(3)] assms(2) show ?thesis by (simp add: owned_device)
next
  case (failed a err d)
  have d: "live d = live (cb_device b)" by (rule driver_keeps(1) [OF assms(1) failed(3)])
  obtain e d' where f: "cu_free R (ca_pointer a) d = (e, d')" by fastforce
  have "live d' = (live (cb_device b))(ca_pointer a := None)"
    using driver_free [OF assms(1) _ f] owned_pointer [OF assms(2) failed(2)] by (simp add: d)
  with failed(1,2) assms(2) show ?thesis by (simp add: owned_remove f)
qed (use assms in simp)

lemma cuda_share_owned:
  assumes "driver_ok R live" and "cuda_owned live b"
  shows "cuda_owned live (snd (cuda_share R k b))"
  using assms
  by (auto simp: cuda_share_def case_prod_beta Let_def owned_device driver_keeps(2) split: option.splits)

lemma cuda_load_data_owned:
  "driver_ok R live \<Longrightarrow> cuda_owned live b \<Longrightarrow> cuda_owned live (snd (cuda_load_data R k xs b))"
  by (auto simp: cuda_load_data_def case_prod_beta Let_def intro: cuda_load_owned cuda_copy_owned)

lemma cuda_unload_succeeds:
  assumes "driver_ok R live" and "cuda_owned live b" and "cuda_held b k \<noteq> None"
  shows "bo_ok (fst (cuda_unload R k b))"
proof (cases rule: cuda_unload_cases [of R k b])
  case (failed a err d)
  have "err = cuda_success"
    using driver_free [OF assms(1) _ failed(3)] owned_pointer [OF assms(2) failed(2)] by simp
  with failed(4) show ?thesis by simp
next
  case refused
  then show ?thesis
    using assms(2,3) by (auto simp: cuda_held_def cuda_owned_def cuda_inv_def dest: um_allD)
qed (simp add: bo_ok_def)

lemma cuda_reliable:
  assumes "driver_ok R live"
  shows "reliable_backend (cuda_ops R) (cuda_owned live) cuda_held"
proof unfold_locales
  show "cuda_held b k \<noteq> None \<Longrightarrow> bo_ok (fst (bk_unload (cuda_ops R) k b))"
    if "cuda_owned live b" for b k
    using cuda_unload_succeeds [OF assms that] by simp
qed (use assms in \<open>simp_all add: cuda_load_owned cuda_load_data_owned cuda_unload_owned
    cuda_share_owned cuda_load_held cuda_load_new cuda_load_data_held cuda_load_data_new
    cuda_unload_held cuda_held_cong [OF cuda_share_allocations]\<close>,
    simp_all add: cuda_held_def cuda_is_loaded_def um_contains_def)

section \<open>A runtime to run the model on\<close>

text \<open>
  The simplest device that behaves as documented: an association list of the live memory,
  addresses counted from one, a handle made of the address.
\<close>

definition sim_runtime :: "(device_ptr \<times> bytes) list cuda_runtime" where
  "sim_runtime =
     \<lparr>cu_get_device_count = (\<lambda>d. (cuda_success, 1)),
      cu_mem_get_info = (\<lambda>d. (cuda_success, 100, 100)),
      cu_malloc = (\<lambda>n d. let p = of_nat (length d) + 1 in
        if p \<noteq> null_ptr \<and> map_of d p = None then ((cuda_success, p), (p, n) # d)
        else ((2, null_ptr), d)),
      cu_memcpy_to_device = (\<lambda>p xs d. (if map_of d p = None then 1 else cuda_success, d)),
      cu_free = (\<lambda>p d. if map_of d p = None then (1, d) else (cuda_success, AList.delete p d)),
      cu_ipc_get_mem_handle = (\<lambda>p d. ((cuda_success, replicate 63 0 @ [ucast p]), d)),
      cu_ipc_open_mem_handle = (\<lambda>h d. ((cuda_success, ucast (last h)), d)),
      cu_ipc_close_mem_handle = (\<lambda>p d. (cuda_success, d)),
      cu_memset = (\<lambda>p v n d. (cuda_success, d)),
      cu_device_synchronize = (\<lambda>d. (cuda_success, d)),
      cu_error_string = (\<lambda>e. ''error'')\<rparr>"

lemma sim_driver_ok: "driver_ok sim_runtime map_of"
  by (auto simp: driver_ok_def sim_runtime_def Let_def delete_conv' split: if_splits)

section \<open>Any interleaving of critical sections\<close>

text \<open>The sections under the mutex, as threads may call them in any order.\<close>

datatype cuda_call =
    LoadCall string bytes
  | CopyCall string file_data
  | UnloadCall string
  | ShareCall string

fun cuda_exec :: "'d cuda_runtime \<Rightarrow> cuda_call \<Rightarrow> 'd cuda_backend \<Rightarrow> 'd cuda_backend" where
  "cuda_exec R (LoadCall k n) b = snd (cuda_load R k n b)"
| "cuda_exec R (CopyCall k xs) b = snd (cuda_copy R k xs (bo_done (of_nat (length xs))) b)"
| "cuda_exec R (UnloadCall k) b = snd (cuda_unload R k b)"
| "cuda_exec R (ShareCall k) b = snd (cuda_share R k b)"

lemma cuda_exec_owned:
  "driver_ok R live \<Longrightarrow> cuda_owned live b \<Longrightarrow> cuda_owned live (fold (cuda_exec R) calls b)"
proof (induction calls arbitrary: b)
  case (Cons c calls)
  then have "cuda_owned live (cuda_exec R c b)"
    by (cases c) (simp_all add: cuda_load_owned cuda_copy_owned cuda_unload_owned cuda_share_owned)
  with Cons show ?case by simp
qed simp

lemma destroy_frees:
  assumes "driver_ok R live" and "distinct (map fst (cuda_pointers m))"
    and "null_ptr \<notin> fst ` set (cuda_pointers m)" and "live d = map_of (cuda_pointers m)"
  shows "live (cuda_destroy R \<lparr>cb_allocations = m, cb_device = d\<rparr>) = Map.empty"
  using assms(2-)
proof (induction m arbitrary: d)
  case Nil
  then show ?case by (simp add: cuda_destroy_def)
next
  case (Cons e m)
  let ?p = "ca_pointer (snd e)"
  obtain err d' where f: "cu_free R ?p d = (err, d')" by fastforce
  have "live d ?p \<noteq> None" using Cons.prems(3) by simp
  from driver_free [OF assms(1) this f] have "live d' = (live d)(?p := None)" by simp
  moreover have "?p \<notin> fst ` set (cuda_pointers m)" using Cons.prems(1) by simp
  ultimately have "live d' = map_of (cuda_pointers m)"
    using Cons.prems(3) map_of_eq_None_iff [of "cuda_pointers m" ?p]
    by (simp add: fun_eq_iff)
  moreover have "distinct (map fst (cuda_pointers m))" "null_ptr \<notin> fst ` set (cuda_pointers m)"
    using Cons.prems(1,2) by simp_all
  ultimately have "live (cuda_destroy R \<lparr>cb_allocations = m, cb_device = d'\<rparr>) = Map.empty"
    by (intro Cons.IH)
  with Cons.prems(2) f show ?case by (simp add: cuda_destroy_def case_prod_beta)
qed

text \<open>
  C23: device memory is neither leaked nor freed twice. On a runtime that behaves as documented,
  however threads interleave loads, copies, unloads and shares and whichever calls the
  runtime refuses, the live device memory is exactly what the object records, each pointer
  once, and the destructor gives all of it back.
\<close>

theorem cuda_memory_accounted:
  fixes calls :: "cuda_call list"
  assumes "driver_ok R live" and "live d = Map.empty"
  defines "b \<equiv> fold (cuda_exec R) calls (cuda_new d)"
  shows "live (cb_device b) = map_of (cuda_pointers (cb_allocations b)) \<and>
    distinct (map fst (cuda_pointers (cb_allocations b))) \<and>
    live (cuda_destroy R b) = Map.empty"
proof -
  have own: "cuda_owned live b"
    unfolding b_def by (rule cuda_exec_owned [OF assms(1) owned_new [of live d, OF assms(2)]])
  then have "live (cuda_destroy R b) = Map.empty"
    by (cases b) (simp add: destroy_frees [OF assms(1)] cuda_owned_def)
  with own show ?thesis by (simp add: cuda_owned_def)
qed

theorem cuda_memory_accounted_witness:
  "map_of (cuda_destroy sim_runtime (fold (cuda_exec sim_runtime)
     [LoadCall ''a'' 60, CopyCall ''a'' [1, 2], LoadCall ''b'' 50, UnloadCall ''a''] (cuda_new []))) =
   (Map.empty :: device_ptr \<Rightarrow> bytes option)"
  using cuda_memory_accounted [OF sim_driver_ok, of "[]"
      "[LoadCall ''a'' 60, CopyCall ''a'' [1, 2], LoadCall ''b'' 50, UnloadCall ''a'']"]
  by simp

end
