(* ===== verification/CudaResidency.thy ===== *)
theory CudaResidency
  imports CudaMemory ResidencyProperties
begin

text \<open>
  The residency manager on the CUDA backend: under the documented behaviour of the runtime
  the device memory is exactly what the reservations say; a runtime whose \<open>cudaFree\<close> fails
  breaks this during an eviction.
\<close>

section \<open>The residency machine on a device\<close>

lemma um_wf_same_total:
  assumes "um_wf m" and "um_wf m'" and "map_of m = map_of m'"
  shows "um_total m = um_total m'"
proof -
  have "set m = set m'"
    using um_entry_iff [OF assms(1)] um_entry_iff [OF assms(2)] assms(3) by auto
  moreover have "distinct m" "distinct m'" using assms(1,2) by (simp_all add: distinct_map)
  ultimately have eq: "mset m = mset m'" by (simp add: set_eq_iff_mset_eq_distinct)
  have "um_total l = sum_mset (image_mset (\<lambda>e. unat (snd e)) (mset l))" for l :: "bytes umap"
    by (simp add: um_total_def sum_mset_sum_list flip: mset_map)
  then show ?thesis by (simp add: eq)
qed

definition device_bytes :: "'d cuda_backend \<Rightarrow> nat" where
  "device_bytes b = (\<Sum>(p, n)\<leftarrow>cuda_pointers (cb_allocations b). unat n)"

lemma device_bytes_held:
  "device_bytes b = um_total (map (\<lambda>e. (fst e, ca_bytes (snd e))) (cb_allocations b))"
  "map_of (map (\<lambda>e. (fst e, ca_bytes (snd e))) (cb_allocations b)) = cuda_held b"
proof -
  show "device_bytes b = um_total (map (\<lambda>e. (fst e, ca_bytes (snd e))) (cb_allocations b))"
    by (simp add: device_bytes_def cuda_pointers_def um_total_def comp_def)
  show "map_of (map (\<lambda>e. (fst e, ca_bytes (snd e))) (cb_allocations b)) = cuda_held b"
    using map_of_map [of ca_bytes "cb_allocations b"]
    by (simp add: cuda_held_def fun_eq_iff case_prod_unfold)
qed

text \<open>
  Device memory is what the books say: the live memory is one allocation per model held, and
  its bytes are those of the reservations and of the model a load has put there before its
  reservation was swapped in.
\<close>

lemma device_accounted:
  assumes "rz_inv (cuda_owned live) cuda_held (w, l)"
  shows "live (cb_device (rw_backend w)) = map_of (cuda_pointers (cb_allocations (rw_backend w)))"
    and "device_bytes (rw_backend w) + um_total (rm_reservations (rw_resources w)) =
      unat (rm_used (rw_resources w)) + (case l of None \<Rightarrow> 0 | Some (m, es) \<Rightarrow> unat (md_footprint m))"
    and "rm_used (rw_resources w) \<le> rm_capacity (rw_resources w)"
proof -
  let ?rm = "rw_resources w" and ?b = "rw_backend w"
  let ?held = "map (\<lambda>e. (fst e, ca_bytes (snd e))) (cb_allocations ?b)"
  have inv: "cuda_owned live ?b" "rz_books w" "backend_holds cuda_held (w, l)"
    using assms by (simp_all add: rz_inv_def)
  then have rm: "rm_books ?rm" and res: "map_of (rm_model_reservations ?rm) = resident_bytes (rz_records (rw_residency w))"
    by (simp_all add: rz_books_def rm_good_def rm_inv_def)
  show "live (cb_device ?b) = map_of (cuda_pointers (cb_allocations ?b))" using inv(1) by (simp add: cuda_owned_def)
  show "rm_used ?rm \<le> rm_capacity ?rm" using rm by (simp add: rm_books_def)
  have wf: "um_wf ?held" "um_wf (rm_model_reservations ?rm)"
    using inv(1) rm by (simp_all add: cuda_owned_def cuda_inv_def rm_books_def comp_def)
  have "um_total ?held = um_total (rm_model_reservations ?rm) +
      (case l of None \<Rightarrow> 0 | Some (m, es) \<Rightarrow> unat (md_footprint m))"
  proof (cases l)
    case None
    then have "um_total ?held = um_total (rm_model_reservations ?rm)"
      using inv(3) res by (intro um_wf_same_total [OF wf]) (simp add: device_bytes_held(2) backend_holds_def)
    with None show ?thesis by simp
  next
    case (Some p)
    obtain m es where p: "p = (m, es)" by (cases p)
    have held: "map_of ?held = (map_of (rm_model_reservations ?rm))(md_id m \<mapsto> md_footprint m)"
      and new: "map_of (rm_model_reservations ?rm) (md_id m) = None"
      using inv(3) res Some p
      by (simp_all add: device_bytes_held(2) backend_holds_def load_ready_def resident_bytes_def)
    have "um_total ?held = unat (md_footprint m) + um_total (um_erase (md_id m) ?held)"
      by (rule um_total_erase [OF wf(1)]) (simp add: held)
    also have "um_total (um_erase (md_id m) ?held) = um_total (rm_model_reservations ?rm)"
      using new by (intro um_wf_same_total um_wf_erase wf) (simp add: map_of_um_erase held fun_upd_idem_iff)
    finally show ?thesis using Some p by simp
  qed
  with rm show "device_bytes ?b + um_total (rm_reservations ?rm) =
      unat (rm_used ?rm) + (case l of None \<Rightarrow> 0 | Some (m, es) \<Rightarrow> unat (md_footprint m))"
    by (simp add: device_bytes_held(1) rm_books_def rm_total_def)
qed

section \<open>A device that does not free\<close>

lemma unload_other:
  "k \<noteq> j \<Longrightarrow> map_of (cb_allocations (snd (cuda_unload R j b))) k = map_of (cb_allocations b) k"
  by (cases rule: cuda_unload_cases [of R j b]) (simp_all add: map_of_um_erase)

lemma unload_stuck:
  "map_of (cb_allocations b) k = Some a \<Longrightarrow> fst (cu_free R (ca_pointer a) (cb_device b)) \<noteq> cuda_success \<Longrightarrow>
   cb_allocations (snd (cuda_unload R k b)) = cb_allocations b"
  by (cases rule: cuda_unload_cases [of R k b]) simp_all

lemma evict_others:
  "k \<notin> rr_id ` set es \<Longrightarrow>
   map_of (cb_allocations (fst (evict_records (cuda_ops R) es (b, m)))) k = map_of (cb_allocations b) k"
  by (induction es arbitrary: b m) (simp_all add: evict_records_def unload_other)

text \<open>The eviction at which \<open>cudaFree\<close> fails leaves the allocation, and so do the others.\<close>

lemma evict_stuck:
  assumes a: "map_of (cb_allocations b) (rr_id e) = Some a" and dist: "distinct (map rr_id (before @ e # after))"
    and fails: "fst (cu_free R (ca_pointer a) (cb_device (fst (evict_records (cuda_ops R) before (b, m))))) \<noteq> cuda_success"
  shows "map_of (cb_allocations (fst (evict_records (cuda_ops R) (before @ e # after) (b, m)))) (rr_id e) = Some a"
proof -
  obtain b1 m1 where ev: "evict_records (cuda_ops R) before (b, m) = (b1, m1)" by fastforce
  have b1: "map_of (cb_allocations b1) (rr_id e) = Some a"
    using evict_others [of "rr_id e" before R b m] a dist ev by auto
  let ?b2 = "snd (cuda_unload R (rr_id e) b1)"
  have "map_of (cb_allocations ?b2) (rr_id e) = Some a"
    using unload_stuck [OF b1, of R] fails ev b1 by simp
  moreover have "rr_id e \<notin> rr_id ` set after" using dist by auto
  moreover have "evict_records (cuda_ops R) (before @ e # after) (b, m) =
      evict_records (cuda_ops R) after (?b2, um_put (rr_id e) (e\<lparr>rr_resident := False\<rparr>) m1)"
    using ev by (simp add: evict_records_def)
  ultimately show ?thesis by (simp add: evict_others)
qed

text \<open>
  C32: a failed eviction goes unnoticed. At the end of a load with room for the model, let
  \<open>cudaFree\<close> fail on one of the evictions, whatever it does on the others. The load reports
  success all the same; the evicted model has lost its record and its reservation, while
  its allocation stays in the backend, so its bytes can be promised a second time and the
  backend refuses to load it again, with any size.
\<close>

theorem failed_eviction_keeps_memory:
  assumes "rz_books w" and "load_ready w m (before @ e # after)"
    and "unat (md_footprint m) \<le> unat (st_free (rm_status (rw_resources w))) + records_total (before @ e # after)"
    and "map_of (cb_allocations (rw_backend w)) (rr_id e) = Some a"
    and "fst (cu_free R (ca_pointer a) (cb_device
      (fst (evict_records (cuda_ops R) before (rw_backend w, rz_records (rw_residency w)))))) \<noteq> cuda_success"
    and "load_commit (cuda_ops R) now elapsed m (before @ e # after) w = (r, w')"
  shows "r = mo_done (md_footprint m) \<and>
    resident_record (rz_records (rw_residency w')) (rr_id e) = None \<and>
    map_of (rm_model_reservations (rw_resources w')) (rr_id e) = None \<and>
    map_of (cb_allocations (rw_backend w')) (rr_id e) = Some a \<and>
    \<not> bo_ok (fst (cuda_load R (rr_id e) n (rw_backend w')))"
proof -
  let ?es = "before @ e # after"
  have "mo_ok r"
    using commit_ok_iff [OF assms(1,2), of "cuda_ops R" now elapsed] assms(3,6) by simp
  note gone = commit_done [OF assms(1,2,6) this]
  have "rr_id e \<noteq> md_id m" using assms(2) by (auto simp: load_ready_def)
  then have none: "resident_bytes (rz_records (rw_residency w')) (rr_id e) = None"
    by (simp add: gone(2) restrict_map_def)
  have "rw_backend w' = fst (evict_records (cuda_ops R) ?es (rw_backend w, rz_records (rw_residency w)))"
    by (simp only: gone(5) evict_records_fst)
  moreover have "distinct (map rr_id ?es)" using assms(2) by (simp add: load_ready_def)
  ultimately have kept: "map_of (cb_allocations (rw_backend w')) (rr_id e) = Some a"
    using evict_stuck [OF assms(4) _ assms(5)] by simp
  then have "\<not> bo_ok (fst (cuda_load R (rr_id e) n (rw_backend w')))"
    using cuda_load_new [of R "rr_id e" n "rw_backend w'"] by (auto simp: cuda_held_def)
  with gone(4,6) none kept show ?thesis by (simp add: resident_bytes_def)
qed

text \<open>The loaded model of 60 bytes evicted for one of 50, on a device that never frees.\<close>

definition stuck_runtime :: "(device_ptr \<times> bytes) list cuda_runtime" where
  "stuck_runtime = sim_runtime\<lparr>cu_free := (\<lambda>p d. (1, d))\<rparr>"

definition gpu_full :: "(device_ptr \<times> bytes) list cuda_backend residency_world" where
  "gpu_full = \<lparr>rw_registry = rw_registry demo_loaded, rw_resources = rw_resources demo_loaded,
     rw_backend = \<lparr>cb_allocations = [(''b'', \<lparr>ca_pointer = 2, ca_bytes = 50\<rparr>),
       (''a'', \<lparr>ca_pointer = 1, ca_bytes = 60\<rparr>)], cb_device = [(2, 50), (1, 60)]\<rparr>,
     rw_residency = rw_residency demo_loaded\<rparr>"

lemma gpu_full_ready:
  "rz_books gpu_full" "load_ready gpu_full (demo_record ''b'' 50) [loaded_a]"
proof -
  have b: "rz_books demo_loaded"
    using mock.reachable_inv [OF demo_loaded_reachable] by (simp add: rz_inv_def)
  then show "rz_books gpu_full" by (simp add: rz_books_def gpu_full_def)
  from plan_ready(1) [OF b demo_plan_b]
  show "load_ready gpu_full (demo_record ''b'' 50) [loaded_a]"
    by (simp add: load_ready_def gpu_full_def)
qed

theorem failed_eviction_keeps_memory_witness:
  "let (r, w') = load_commit (cuda_ops stuck_runtime) 1 1 (demo_record ''b'' 50) [loaded_a] gpu_full in
   mo_ok r \<and> map_of (rm_model_reservations (rw_resources w')) ''a'' = None \<and>
   cuda_held (rw_backend w') ''a'' = Some 60"
proof -
  have "st_free (rm_status (rw_resources gpu_full)) = 40"
    by (simp add: gpu_full_def rm_status_def demo_loaded_state)
  then have room: "unat (md_footprint (demo_record ''b'' 50)) \<le>
      unat (st_free (rm_status (rw_resources gpu_full))) + records_total ([] @ loaded_a # [])"
    by (simp add: demo_record_def loaded_a_def records_total_def)
  have ready: "load_ready gpu_full (demo_record ''b'' 50) ([] @ loaded_a # [])"
    using gpu_full_ready(2) by simp
  have a: "map_of (cb_allocations (rw_backend gpu_full)) (rr_id loaded_a) = Some \<lparr>ca_pointer = 1, ca_bytes = 60\<rparr>"
    by (simp add: gpu_full_def loaded_a_def)
  have fails: "fst (cu_free stuck_runtime p d) \<noteq> cuda_success" for p d
    by (simp add: stuck_runtime_def)
  have "rr_id loaded_a = ''a''" by (simp add: loaded_a_def)
  with failed_eviction_keeps_memory [OF gpu_full_ready(1) ready room a fails surjective_pairing, of 1 1]
  show ?thesis by (simp add: case_prod_beta cuda_held_def mo_ok_def)
qed

end
