(* ===== verification/SharingProperties.thy ===== *)
theory SharingProperties
  imports CudaIpc CudaResidency
begin

text \<open>
  Sharing a model from the daemon's device to a client's: the token, the whole path from
  \<open>share\<close> on the backend to the open in the client, the ownership of opened handles, and the
  messages of the demonstration program.
\<close>

section \<open>The token\<close>

lemma hex_digit:
  assumes "n < 16"
  shows "hex_value (hex_digits ! n) = int n" and "is_xdigit (hex_digits ! n)"
proof -
  have "n \<in> set [0, 1, 2, 3, 4, 5, 6, 7, 8, 9, 10, 11, 12, 13, 14, 15]" using assms by simp presburger
  then show "hex_value (hex_digits ! n) = int n" "is_xdigit (hex_digits ! n)"
    by (auto simp: hex_digits_def hex_value_def is_xdigit_def)
qed

lemma nibbles:
  fixes w :: "8 word"
  shows "unat (drop_bit 4 w) < 16" and "unat (and w 0x0f) < 16"
    and "word_of_int (or (push_bit 4 (uint (drop_bit 4 w))) (uint (and w 0x0f))) = w"
proof -
  have m: "and w 0x0f = take_bit 4 w" by (simp add: take_bit_eq_mask mask_eq_exp_minus_1)
  have "unat w < 2 ^ LENGTH(8)" by (rule unsigned_less)
  then have "drop_bit 4 (unat w) < 16" by (simp add: drop_bit_eq_div)
  then show "unat (drop_bit 4 w) < 16" by (simp only: unat_drop_bit_eq)
  have "take_bit 4 (unat w) < 16" using take_bit_nat_less_exp [of 4 "unat w"] by simp
  then show "unat (and w 0x0f) < 16" unfolding m by (simp only: unsigned_take_bit_eq)
  have "word_of_int (or (push_bit 4 (uint (drop_bit 4 w))) (uint (take_bit 4 w))) =
      or (push_bit 4 (drop_bit 4 w)) (take_bit 4 w)"
    by (simp add: of_int_or_eq push_bit_of_int [symmetric])
  also have "\<dots> = w" by (rule bit_word_eqI) (auto simp: bit_simps)
  finally show "word_of_int (or (push_bit 4 (uint (drop_bit 4 w))) (uint (and w 0x0f))) = w"
    unfolding m .
qed

lemma hex_token_bytes: "hex_bytes (hex_token ws) = Some ws"
  using nibbles by (induction ws) (simp_all add: hex_digit Let_def)

lemma hex_token_length: "length (hex_token ws) = 2 * length ws"
  by (induction ws) simp_all

lemma hex_token_xdigits: "list_all is_xdigit (hex_token ws)"
  using nibbles by (induction ws) (simp_all add: hex_digit)

lemma ipc_open_token:
  "length ws = ipc_handle_size \<Longrightarrow> ipc_open R (hex_token ws) p d =
     (let ((err, opened), d') = cu_ipc_open_mem_handle R ws d
      in if err \<noteq> cuda_success then ((bo_fail backend_error.RuntimeFailure, null_ptr), d')
         else ((bo_done 0, opened), d'))"
  by (simp add: ipc_open_def hex_token_bytes hex_token_length)

section \<open>From the daemon's device to the client's\<close>

text \<open>The daemon's answer, when it is one of success.\<close>

lemma share_answer:
  assumes "rz_share (cuda_ops R) name w = (r, w')" and "ms_error r = model_error.NoError"
  obtains a handle where "map_of (cb_allocations (rw_backend w)) name = Some a"
    "fst (cu_ipc_get_mem_handle R (ca_pointer a) (cb_device (rw_backend w))) = (cuda_success, handle)"
    "ms_amount r = ca_bytes a" "ms_token r = hex_token handle"
proof -
  have "sh_ok (fst (cuda_share R name (rw_backend w)))"
    "r = \<lparr>ms_error = model_error.NoError, ms_amount = sh_amount (fst (cuda_share R name (rw_backend w))),
       ms_token = sh_token (fst (cuda_share R name (rw_backend w)))\<rparr>"
    using assms by (auto simp: rz_share_def Let_def case_prod_beta split: if_splits option.splits)
  then show thesis
    by (auto simp: cuda_share_def sh_ok_def case_prod_beta Let_def prod_eq_iff
        split: option.splits if_splits intro: that)
qed

text \<open>A share request over a connection that delivers a success.\<close>

lemma share_delivered:
  assumes "rm_valid_name name" and "ms_error r = model_error.NoError"
    and "list_all is_xdigit (ms_token r)" and "connect_socket path conn"
    and "snd (write_all (cn_writes conn) (share_command name @ newline)) = Some True"
    and "stream_of (cn_reads conn) = Some (format_share_result name r)"
  shows "client_request path conn (share_command name) = (share_command name @ newline,
    Some \<lparr>cr_error = client_error.NoError, cr_payload = format_share_result name r\<rparr>)"
proof -
  have "no_newline (ms_token r)"
    using assms(3) by (auto simp: no_newline_def list_all_iff is_xdigit_def)
  then have framed: "framed False (format_share_result name r)"
    by (rule framed_share [OF name_no_newline [OF assms(1)]])
  have ok: "starts_with ''OK '' (format_share_result name r)"
    using assms(2) by (simp add: format_share_result_def starts_with_def)
  have cmd: "share_command name = join_tokens [''share'', name]" by (simp add: share_command_def)
  have line: "no_newline (share_command name)" "share_command name \<noteq> []"
    using joined_tokens_line [of "[''share'', name]"] name_token [OF assms(1)]
    by (simp_all add: cmd is_token_def is_space_def)
  have "\<not> is_multiline (share_command name)"
    using is_multiline_tokens [of "''share''" "'' '' @ name"]
    by (simp add: share_command_def is_blank_def listing_verbs_def)
  with request_delivers [OF assms(4) line assms(5,6)] framed ok show ?thesis by simp
qed

text \<open>
  C17: a client opens exactly the memory the daemon shared. When the residency manager on a
  CUDA backend answers \<open>share\<close>, the model is one the backend holds, the client's request
  returns that answer whole for any cutting of the writes and reads, and the client's
  runtime is asked to open the very handle the daemon's runtime gave out, with the size of
  the daemon's allocation.
\<close>

theorem shared_model_opens:
  assumes "rz_share (cuda_ops R) name w = (r, w')" and "ms_error r = model_error.NoError"
    and "rm_valid_name name"
    and "\<And>p d. length (snd (fst (cu_ipc_get_mem_handle R p d))) = ipc_handle_size"
    and "connect_socket path conn"
    and "snd (write_all (cn_writes conn) (share_command name @ newline)) = Some True"
    and "stream_of (cn_reads conn) = Some (format_share_result name r)"
  shows "\<exists>a handle. map_of (cb_allocations (rw_backend w)) name = Some a \<and>
    fst (cu_ipc_get_mem_handle R (ca_pointer a) (cb_device (rw_backend w))) = (cuda_success, handle) \<and>
    open_model R' path conn name d = (share_command name @ newline,
      let ((err, p), d') = cu_ipc_open_mem_handle R' handle d;
          response = \<lparr>cr_error = client_error.NoError, cr_payload = format_share_result name r\<rparr>
      in (Some (if err \<noteq> cuda_success
          then \<lparr>or_response = response, or_backend = bo_fail backend_error.RuntimeFailure,
                 or_allocation = None\<rparr>
          else \<lparr>or_response = response, or_backend = bo_done 0,
                 or_allocation = Some \<lparr>ia_pointer = p, ia_bytes = ca_bytes a\<rparr>\<rparr>), d'))"
proof -
  obtain a handle where a: "map_of (cb_allocations (rw_backend w)) name = Some a"
    and h: "fst (cu_ipc_get_mem_handle R (ca_pointer a) (cb_device (rw_backend w))) = (cuda_success, handle)"
    and r: "ms_amount r = ca_bytes a" "ms_token r = hex_token handle"
    using share_answer [OF assms(1,2)] .
  have len: "length handle = ipc_handle_size"
    using assms(4) [of "ca_pointer a" "cb_device (rw_backend w)"] h by simp
  then have tok: "ms_token r \<noteq> []" "list_all is_xdigit (ms_token r)"
    using hex_token_length [of handle] hex_token_xdigits [of handle]
    by (auto simp: r ipc_handle_size_def)
  note req = share_delivered [OF assms(3,2) tok(2) assms(5-7)]
  have "open_model R' path conn name d = (share_command name @ newline,
      let ((err, p), d') = cu_ipc_open_mem_handle R' handle d;
          response = \<lparr>cr_error = client_error.NoError, cr_payload = format_share_result name r\<rparr>
      in (Some (if err \<noteq> cuda_success
          then \<lparr>or_response = response, or_backend = bo_fail backend_error.RuntimeFailure,
                 or_allocation = None\<rparr>
          else \<lparr>or_response = response, or_backend = bo_done 0,
                 or_allocation = Some \<lparr>ia_pointer = p, ia_bytes = ca_bytes a\<rparr>\<rparr>), d'))"
    using share_response_roundtrip [OF assms(3,2) tok]
    by (simp add: open_model_def req cr_ok_def r ipc_open_token [OF len] Let_def case_prod_beta
        bo_ok_def ia_new_def)
  with a h show ?thesis by blast
qed

definition share_conn :: connection where
  "share_conn = \<lparr>cn_accepted = True, cn_writes = [Wrote 5, WriteInterrupted, Wrote 100],
     cn_reads = [Chunk (format_share_result ''a'' (fst (rz_share (cuda_ops sim_runtime) ''a'' gpu_full)))]\<rparr>"

lemma gpu_full_share:
  "rz_share (cuda_ops sim_runtime) ''a'' gpu_full = (\<lparr>ms_error = model_error.NoError, ms_amount = 60,
     ms_token = hex_token (replicate 63 0 @ [1])\<rparr>, gpu_full)"
proof -
  have "find_model (mr_snapshot (rw_registry gpu_full)) ''a'' \<noteq> None"
    by (simp add: gpu_full_def demo_books [OF demo_loaded_reachable])
      (simp add: demo_loaded_state demo_models_def)
  moreover have "resident_record (rz_records (rw_residency gpu_full)) ''a'' = Some loaded_a"
    by (simp add: gpu_full_def demo_loaded_state resident_record_def loaded_a_def)
  moreover have "cuda_share sim_runtime ''a'' (rw_backend gpu_full) =
      (\<lparr>sh_error = backend_error.NoError, sh_amount = 60, sh_token = hex_token (replicate 63 0 @ [1])\<rparr>,
       rw_backend gpu_full)"
    by (simp add: cuda_share_def gpu_full_def sim_runtime_def)
  ultimately show ?thesis by (simp add: rz_share_def sh_ok_def)
qed

theorem shared_model_opens_witness:
  "\<exists>shared. open_model sim_runtime ''/s'' share_conn ''a'' [] =
     (share_command ''a'' @ newline, Some shared, []) \<and>
   or_allocation shared = Some \<lparr>ia_pointer = 1, ia_bytes = 60\<rparr>"
proof -
  have valid: "rm_valid_name ''a''" by (simp add: rm_valid_name_def)
  have size: "length (snd (fst (cu_ipc_get_mem_handle sim_runtime p d))) = ipc_handle_size" for p d
    by (simp add: sim_runtime_def ipc_handle_size_def)
  have conn: "connect_socket ''/s'' share_conn"
    by (simp add: connect_socket_def share_conn_def sun_path_size_def)
  have wr: "snd (write_all (cn_writes share_conn) (share_command ''a'' @ newline)) = Some True"
    by (simp add: share_conn_def share_command_def)
  have rd: "stream_of (cn_reads share_conn) = Some (format_share_result ''a''
      \<lparr>ms_error = model_error.NoError, ms_amount = 60, ms_token = hex_token (replicate 63 0 @ [1])\<rparr>)"
    by (simp add: share_conn_def gpu_full_share format_share_result_def)
  have a: "map_of (cb_allocations (rw_backend gpu_full)) ''a'' = Some \<lparr>ca_pointer = 1, ca_bytes = 60\<rparr>"
    by (simp add: gpu_full_def)
  have ipc: "cu_ipc_get_mem_handle sim_runtime p d = ((cuda_success, replicate 63 0 @ [ucast p]), d)"
    "cu_ipc_open_mem_handle sim_runtime h d = ((cuda_success, ucast (last h)), d)" for p d h
    by (simp_all add: sim_runtime_def)
  from shared_model_opens [OF gpu_full_share _ valid size conn wr rd, of sim_runtime "[]"]
  show ?thesis by (auto simp: a ipc Let_def)
qed

section \<open>Ownership of opened handles\<close>

text \<open>What a program does with the objects it holds: construct by a move, move-assign, reset.\<close>

datatype ia_label = IaMove nat | IaAssign nat nat | IaReset nat

inductive ia_step ::
  "'d cuda_runtime \<Rightarrow> ipc_allocation list \<times> 'd \<Rightarrow> ia_label \<Rightarrow> ipc_allocation list \<times> 'd \<Rightarrow> bool"
  for R where
  ia_moved: "j < length objs \<Longrightarrow> ia_move (objs ! j) = (new, left) \<Longrightarrow>
     ia_step R (objs, d) (IaMove j) (objs[j := left] @ [new], d)"
| ia_assigned: "i < length objs \<Longrightarrow> j < length objs \<Longrightarrow>
     ia_step R (objs, d) (IaAssign i j) (ia_assign R i j (objs, d))"
| ia_reset_step: "i < length objs \<Longrightarrow> ia_reset R (objs ! i) d = (cleared, d') \<Longrightarrow>
     ia_step R (objs, d) (IaReset i) (objs[i := cleared], d')"

inductive_cases ia_step_cases: "ia_step R s e t"

text \<open>The handles open in the objects, and the device after a list of closes.\<close>

definition ia_open :: "ipc_allocation list \<Rightarrow> device_ptr multiset" where
  "ia_open objs = filter_mset (\<lambda>p. p \<noteq> null_ptr) (mset (map ia_pointer objs))"

definition close_all :: "'d cuda_runtime \<Rightarrow> device_ptr list \<Rightarrow> 'd \<Rightarrow> 'd" where
  "close_all R ps d = fold (\<lambda>p. snd \<circ> cu_ipc_close_mem_handle R p) ps d"

definition destroy_all :: "'d cuda_runtime \<Rightarrow> ipc_allocation list \<times> 'd \<Rightarrow> 'd" where
  "destroy_all R s = fold (ia_destroy R) (fst s) (snd s)"

lemma close_all_append: "close_all R (ps @ qs) d = close_all R qs (close_all R ps d)"
  by (simp add: close_all_def)

lemma ia_open_simps [simp]:
  "ia_open [] = {#}"
  "ia_open (a # objs) = (if ia_pointer a = null_ptr then ia_open objs
     else add_mset (ia_pointer a) (ia_open objs))"
  "ia_open (objs @ objs') = ia_open objs + ia_open objs'"
  by (simp_all add: ia_open_def)

lemma ia_open_update:
  assumes "i < length objs"
  shows "ia_open (objs[i := a]) + ia_open [objs ! i] = ia_open objs + ia_open [a]"
proof -
  have o: "objs = take i objs @ [objs ! i] @ drop (Suc i) objs"
    using assms by (simp add: id_take_nth_drop [symmetric])
  have "ia_open objs = ia_open (take i objs) + (ia_open [objs ! i] + ia_open (drop (Suc i) objs))"
    by (subst o) (simp only: ia_open_simps(3))
  moreover have "ia_open (objs[i := a]) = ia_open (take i objs) + (ia_open [a] + ia_open (drop (Suc i) objs))"
    unfolding upd_conv_take_nth_drop [OF assms] by (simp only: ia_open_simps(3) append_Cons [symmetric]
      append_Nil [symmetric] append.simps(2) [of _ "[]", symmetric]) simp
  ultimately show ?thesis by (simp add: ac_simps)
qed

lemma multiset_swap:
  fixes A :: "'a multiset"
  assumes "A + I = P + J" and "B + J = A"
  shows "I + B = P"
proof -
  have "(I + B) + J = P + J"
    using assms(1) [folded assms(2)] by (simp only: ac_simps)
  then show ?thesis by simp
qed

lemma ia_reset_closes:
  "\<exists>ps. snd (ia_reset R a d) = close_all R ps d \<and> mset ps = ia_open [a] \<and>
     ia_pointer (fst (ia_reset R a d)) = null_ptr"
proof (cases "ia_pointer a = null_ptr")
  case False
  then show ?thesis
    by (intro exI [of _ "[ia_pointer a]"])
      (simp add: ia_reset_def ipc_close_def close_all_def case_prod_beta Let_def)
qed (intro exI [of _ "[]"], simp add: ia_reset_def close_all_def)

lemma ia_step_closes:
  assumes "ia_step R s l t"
  shows "\<exists>ps. snd t = close_all R ps (snd s) \<and> mset ps + ia_open (fst t) = ia_open (fst s)"
  using assms
proof cases
  case (ia_moved j objs new left d)
  then have "ia_pointer left = null_ptr" "ia_open [new] = ia_open [objs ! j]"
    by (auto simp: ia_move_def)
  with ia_open_update [OF ia_moved(4), of left] ia_moved(1,3) show ?thesis
    by (intro exI [of _ "[]"]) (simp add: close_all_def ac_simps)
next
  case (ia_assigned i objs j d)
  show ?thesis
  proof (cases "i = j")
    case False
    let ?x = "(fst (ia_reset R (objs ! i) d))\<lparr>ia_pointer := ia_pointer (objs ! j),
        ia_bytes := ia_bytes (objs ! j)\<rparr>"
      and ?left = "(objs ! j)\<lparr>ia_pointer := null_ptr, ia_bytes := 0\<rparr>"
    have t: "t = (objs[i := ?x, j := ?left], snd (ia_reset R (objs ! i) d))"
      using ia_assigned False by (simp add: ia_assign_def ia_move_def case_prod_beta Let_def)
    obtain ps where ps: "snd (ia_reset R (objs ! i) d) = close_all R ps d" "mset ps = ia_open [objs ! i]"
      using ia_reset_closes [of R "objs ! i" d] by blast
    have "ia_open (objs[i := ?x]) + ia_open [objs ! i] = ia_open objs + ia_open [objs ! j]"
      using ia_open_update [OF ia_assigned(4), of ?x] by simp
    moreover have "ia_open (objs[i := ?x, j := ?left]) + ia_open [objs ! j] = ia_open (objs[i := ?x])"
      using ia_open_update [of j "objs[i := ?x]" ?left] ia_assigned(5) False by simp
    ultimately have "ia_open [objs ! i] + ia_open (objs[i := ?x, j := ?left]) = ia_open objs"
      by (rule multiset_swap)
    with ps ia_assigned(1) show ?thesis by (intro exI [of _ ps]) (simp add: t)
  qed (use ia_assigned in \<open>intro exI [of _ "[]"], simp add: ia_assign_def close_all_def\<close>)
next
  case (ia_reset_step i objs d cleared d')
  obtain ps where ps: "d' = close_all R ps d" "mset ps = ia_open [objs ! i]" "ia_pointer cleared = null_ptr"
    using ia_reset_closes [of R "objs ! i" d] ia_reset_step(5) by auto
  with ia_open_update [OF ia_reset_step(4), of cleared] ia_reset_step(1,3) show ?thesis
    by (intro exI [of _ ps]) (simp add: ac_simps)
qed

lemma ia_run_closes:
  "run (ia_step R) s ls t \<Longrightarrow>
   \<exists>ps. snd t = close_all R ps (snd s) \<and> mset ps + ia_open (fst t) = ia_open (fst s)"
proof (induction ls arbitrary: s)
  case Nil
  then show ?case by (intro exI [of _ "[]"]) (simp add: close_all_def)
next
  case (Cons l ls)
  then obtain u where u: "ia_step R s l u" "run (ia_step R) u ls t" by auto
  from ia_step_closes [OF u(1)] obtain ps
    where ps: "snd u = close_all R ps (snd s)" "mset ps + ia_open (fst u) = ia_open (fst s)" by blast
  from Cons.IH [OF u(2)] obtain qs
    where "snd t = close_all R qs (snd u)" "mset qs + ia_open (fst t) = ia_open (fst u)" by blast
  with ps show ?case
    by (intro exI [of _ "ps @ qs"]) (simp add: close_all_append ac_simps)
qed

lemma destroy_all_closes:
  "\<exists>ps. fold (ia_destroy R) objs d = close_all R ps d \<and> mset ps = ia_open objs"
proof (induction objs arbitrary: d)
  case (Cons a objs)
  obtain ps where ps: "ia_destroy R a d = close_all R ps d" "mset ps = ia_open [a]"
    using ia_reset_closes [of R a d] by (auto simp: ia_destroy_def)
  from Cons.IH [of "close_all R ps d"] obtain qs
    where "fold (ia_destroy R) objs (close_all R ps d) = close_all R qs (close_all R ps d)"
      "mset qs = ia_open objs" by blast
  with ps show ?case by (intro exI [of _ "ps @ qs"]) (simp add: close_all_append)
qed (intro exI [of _ "[]"], simp add: close_all_def)

text \<open>
  C38: an opened handle is closed exactly once. However a program constructs objects by moves,
  move-assigns them, also to themselves, and resets them, once all are destroyed the closes
  the runtime has seen are the handles open at the start, each once.
\<close>

theorem handles_closed_once:
  assumes "run (ia_step R) s ls t"
  shows "\<exists>ps. destroy_all R t = close_all R ps (snd s) \<and> mset ps = ia_open (fst s)"
proof -
  from ia_run_closes [OF assms] obtain ps
    where ps: "snd t = close_all R ps (snd s)" "mset ps + ia_open (fst t) = ia_open (fst s)" by blast
  from destroy_all_closes [of R "fst t" "snd t"] obtain qs
    where "destroy_all R t = close_all R qs (snd t)" "mset qs = ia_open (fst t)"
    by (auto simp: destroy_all_def)
  with ps show ?thesis by (intro exI [of _ "ps @ qs"]) (simp add: close_all_append)
qed

text \<open>A runtime that writes down the handles it closes.\<close>

definition log_runtime :: "device_ptr list cuda_runtime" where
  "log_runtime = \<lparr>cu_get_device_count = (\<lambda>d. (cuda_success, 1)),
     cu_mem_get_info = (\<lambda>d. (cuda_success, 0, 0)), cu_malloc = (\<lambda>n d. ((2, null_ptr), d)),
     cu_memcpy_to_device = (\<lambda>p xs d. (1, d)), cu_free = (\<lambda>p d. (1, d)),
     cu_ipc_get_mem_handle = (\<lambda>p d. ((1, []), d)), cu_ipc_open_mem_handle = (\<lambda>h d. ((1, null_ptr), d)),
     cu_ipc_close_mem_handle = (\<lambda>p d. (cuda_success, d @ [p])), cu_memset = (\<lambda>p v n d. (1, d)),
     cu_device_synchronize = (\<lambda>d. (cuda_success, d)), cu_error_string = (\<lambda>e. [])\<rparr>"

lemma log_close_all: "close_all log_runtime ps d = d @ ps"
  by (induction ps arbitrary: d) (simp_all add: close_all_def log_runtime_def)

theorem handles_closed_once_witness:
  "ia_step log_runtime ([ia_new 7 10, ia_new 8 20], []) (IaAssign 0 1)
     ([ia_new 8 20, ia_empty], [7]) \<and>
   mset (destroy_all log_runtime ([ia_new 8 20, ia_empty], [7])) = {#7, 8#}"
proof -
  have a: "ia_assign log_runtime 0 1 ([ia_new 7 10, ia_new 8 20], []) = ([ia_new 8 20, ia_empty], [7])"
    by (simp add: ia_assign_def ia_reset_def ia_move_def ia_new_def ia_empty_def ipc_close_def log_runtime_def)
  have st: "ia_step log_runtime ([ia_new 7 10, ia_new 8 20], []) (IaAssign 0 1)
     ([ia_new 8 20, ia_empty], [7])"
    unfolding a [symmetric] by (rule ia_assigned) simp_all
  then have "run (ia_step log_runtime) ([ia_new 7 10, ia_new 8 20], []) [IaAssign 0 1]
     ([ia_new 8 20, ia_empty], [7])" by auto
  from handles_closed_once [OF this] st show ?thesis
    by (auto simp: log_close_all ia_new_def)
qed

section \<open>The messages of the demonstration program\<close>

text \<open>
  The reason printed when a model cannot be opened is the wrong way round: a failure of
  CUDA itself prints the daemon's OK line as the reason, and only a daemon that cannot be
  reached is reported as a CUDA IPC failure.
\<close>

theorem demo_failure_texts:
  assumes "demo_options args [] [] = Some (path, model)" and "path \<noteq> []" and "model \<noteq> []"
    and "open_model R path conn model d = (sent, Some shared, d')" and "or_allocation shared = None"
  shows "cr_ok (or_response shared) \<Longrightarrow> starts_with ''OK '' (cr_payload (or_response shared)) \<and>
      demo_main R conn args d = (Some \<lparr>dp_status = 1, dp_stdout = [],
        dp_stderr = ''gpumemd-cuda-demo: could not open model: '' @ cr_payload (or_response shared)\<rparr>, d')"
    and "cr_error (or_response shared) = client_error.ConnectionFailed \<Longrightarrow>
      demo_main R conn args d = (Some \<lparr>dp_status = 1, dp_stdout = [],
        dp_stderr = ''gpumemd-cuda-demo: could not open model: CUDA IPC failure''\<rparr>, d')"
proof -
  obtain answer where req: "client_request path conn (share_command model) = (sent, answer)"
    using assms(4) by (auto simp: open_model_def split: prod.splits)
  obtain response where ans: "answer = Some response"
    using assms(4) req by (cases answer) (simp_all add: open_model_def)
  have resp: "or_response shared = response \<or>
      or_response shared = \<lparr>cr_error = client_error.ReadFailed, cr_payload = cr_payload response\<rparr>"
    using assms(4) req ans by (auto simp: open_model_def Let_def split: if_splits option.splits prod.splits)
  have main: "demo_main R conn args d = (Some \<lparr>dp_status = 1, dp_stdout = [],
      dp_stderr = ''gpumemd-cuda-demo: could not open model: '' @
        (if cr_payload (or_response shared) = [] then ''CUDA IPC failure''
         else cr_payload (or_response shared))\<rparr>, d')"
    using assms by (simp add: demo_main_def)
  have ok: "starts_with ''OK '' (cr_payload response)" if "cr_error response = client_error.NoError"
    using req ans that
    by (auto simp: client_request_def Let_def split: if_splits option.splits bool.splits prod.splits)
  have failed: "cr_payload response = []" if "cr_error response = client_error.ConnectionFailed"
    using req ans that
    by (auto simp: client_request_def Let_def split: if_splits option.splits bool.splits prod.splits)
  show "starts_with ''OK '' (cr_payload (or_response shared)) \<and>
      demo_main R conn args d = (Some \<lparr>dp_status = 1, dp_stdout = [],
        dp_stderr = ''gpumemd-cuda-demo: could not open model: '' @ cr_payload (or_response shared)\<rparr>, d')"
    if "cr_ok (or_response shared)"
  proof -
    have "starts_with ''OK '' (cr_payload (or_response shared))"
      using that resp ok by (auto simp: cr_ok_def)
    moreover from this have "cr_payload (or_response shared) \<noteq> []" by (auto simp: starts_with_def)
    ultimately show ?thesis by (simp add: main)
  qed
  show "demo_main R conn args d = (Some \<lparr>dp_status = 1, dp_stdout = [],
        dp_stderr = ''gpumemd-cuda-demo: could not open model: CUDA IPC failure''\<rparr>, d')"
    if "cr_error (or_response shared) = client_error.ConnectionFailed"
    using that resp failed by (auto simp: main)
qed

end
