(* ===== verification/CudaServer.thy ===== *)
theory CudaServer
  imports SharingProperties ClientServer
begin

text \<open>
  The whole daemon on a GPU: what holds of every reliable backend holds of the CUDA backend
  on a runtime that behaves as documented, so the device memory can be accounted for in
  any interleaving of the clients' sessions.
\<close>

section \<open>Tokens on one line\<close>

lemma xdigits_no_newline: "list_all is_xdigit s \<Longrightarrow> no_newline s"
  by (auto simp: no_newline_def list_all_iff is_xdigit_def)

lemma cuda_token_lines: "token_lines (cuda_ops R)"
  by (simp add: token_lines_def cuda_share_def case_prod_beta Let_def
      xdigits_no_newline [OF hex_token_xdigits] split: option.split)

section \<open>Device memory and the books\<close>

text \<open>
  C8: on a GPU that behaves as documented, device memory is what the books say. In every
  state the daemon can reach the live device memory is exactly the backend's allocations;
  their bytes and the clients' reservations add up to \<open>used\<close>, plus the one model of a load
  that has not swapped its reservation in, and \<open>used\<close> stays within the capacity.
\<close>

theorem gpu_memory_is_reserved:
  assumes "driver_ok R live" and "server_start (cuda_owned live) cuda_held sv0"
    and "run (server_step rd (cuda_ops R)) sv0 ls sv"
  shows "live (cb_device (rw_backend (dm_world (sv_daemon sv)))) =
      map_of (cuda_pointers (cb_allocations (rw_backend (dm_world (sv_daemon sv))))) \<and>
    device_bytes (rw_backend (dm_world (sv_daemon sv))) +
      um_total (rm_reservations (resources (sv_daemon sv))) =
      unat (rm_used (resources (sv_daemon sv))) +
        (case sv_load sv of None \<Rightarrow> 0 | Some (i, name, m, es) \<Rightarrow> unat (md_footprint m)) \<and>
    rm_used (resources (sv_daemon sv)) \<le> rm_capacity (resources (sv_daemon sv))"
proof -
  note rel = cuda_reliable [OF assms(1)]
  from reliable_backend.server_inv_parts(1) [OF rel reliable_backend.server_reachable(1) [OF rel assms(2,3)]]
  have "rz_inv (cuda_owned live) cuda_held (dm_world (sv_daemon sv), sv_planned sv)" .
  from device_accounted [OF this] show ?thesis
    by (auto simp: server_rz_def split: option.splits)
qed

section \<open>A daemon on a simulated GPU\<close>

definition gpu_server ::
  "model_registry \<Rightarrow> (device_ptr \<times> bytes) list cuda_backend \<Rightarrow> metrics \<Rightarrow> session \<Rightarrow>
   (nat \<times> string \<times> model_record \<times> residency_record list) option \<Rightarrow>
   (device_ptr \<times> bytes) list cuda_backend server" where
  "gpu_server reg b m ss load = \<lparr>sv_daemon = \<lparr>dm_world = \<lparr>rw_registry = reg,
       rw_resources = rw_resources demo_world, rw_backend = b, rw_residency = rz_new\<rparr>,
       dm_metrics = Some m, dm_nodes = Some nr_new\<rparr>,
     sv_sessions = [ss], sv_stop = False, sv_phase = Accepting, sv_load = load\<rparr>"

definition gpu_registry :: model_registry where
  "gpu_registry = \<lparr>mr_models = [(''a'', demo_record ''a'' 60)], mr_next_access = 0\<rparr>"

definition gpu_loaded :: "(device_ptr \<times> bytes) list cuda_backend" where
  "gpu_loaded = \<lparr>cb_allocations = [(''a'', \<lparr>ca_pointer = 1, ca_bytes = 60\<rparr>)], cb_device = [(1, 60)]\<rparr>"

definition register_line :: string where
  "register_line = join_tokens [''register'', ''a'', show_u64 60, ''fp16'']"

definition load_line :: string where
  "load_line = load_command ''a''"

lemma gpu_tokens:
  "list_all (is_token is_space) [''register'', ''a'', show_u64 60, ''fp16'']"
  "load_line = join_tokens [''load'', ''a'']" "list_all (is_token is_space) [''load'', ''a'']"
  using show_token by (simp_all add: is_token_def is_space_def load_line_def load_command_def)

lemma gpu_line:
  "no_newline register_line" "strip_cr register_line = register_line" "length register_line < 100"
  "no_newline load_line" "strip_cr load_line = load_line" "length load_line < 100"
proof -
  show "no_newline register_line" "strip_cr register_line = register_line"
    unfolding register_line_def by (rule joined_tokens_line [OF gpu_tokens(1)], simp)+
  show "no_newline load_line" "strip_cr load_line = load_line"
    unfolding gpu_tokens(2) by (rule joined_tokens_line [OF gpu_tokens(3)], simp)+
  have "length (show_u64 60) \<le> 2" by (simp add: show_u64_def show_nat_length)
  then show "length register_line < 100" by (simp add: register_line_def)
  show "length load_line < 100" by (simp add: gpu_tokens(2))
qed

lemma gpu_parse:
  "parse_command register_line = parsed (empty_command\<lparr>
     cm_type := command_type.RegisterModel, cm_name := ''a'', cm_bytes := 60, cm_metadata := ''fp16''\<rparr>)"
  "parse_command load_line = parsed (empty_command\<lparr>
     cm_type := command_type.LoadModel, cm_name := ''a''\<rparr>)"
proof -
  have blank: "list_all (is_token is_blank) [''register'', ''a'', show_u64 60, ''fp16'']"
    "list_all (is_token is_blank) [''load'', ''a'']"
    using gpu_tokens(1,3) by (auto simp: list_all_iff dest: space_token_blank)
  show "parse_command load_line = parsed (empty_command\<lparr>
     cm_type := command_type.LoadModel, cm_name := ''a''\<rparr>)"
    unfolding gpu_tokens(2) parse_join [OF blank(2)]
    by (simp add: parse_tokens_def parse_named_def pr_valid_name_def)
  show "parse_command register_line = parsed (empty_command\<lparr>
     cm_type := command_type.RegisterModel, cm_name := ''a'', cm_bytes := 60, cm_metadata := ''fp16''\<rparr>)"
    unfolding register_line_def parse_join [OF blank(1)]
    by (simp add: parse_tokens_def parse_register_def pr_valid_name_def pr_valid_metadata_def parse_size_show)
qed

text \<open>
  A client registers a model of 60 bytes and asks for it to be loaded; when the model is on
  the device and the reservation is not yet swapped in, the device holds 60 bytes more than
  the books say.
\<close>

definition gpu_input :: string where
  "gpu_input = register_line @ newline @ load_line @ newline"

lemma gpu_input_length: "gpu_input \<noteq> []" "length gpu_input \<le> 4096"
  using gpu_line(3,6) by (simp_all add: gpu_input_def)

lemma gpu_frame:
  "next_frame [] = NeedMore"
  "next_frame (gpu_input) = Line register_line (load_line @ newline)"
  "next_frame (load_line @ newline) = Line load_line []"
  using next_frame_line [OF gpu_line(1), of "load_line @ newline"] next_frame_line [OF gpu_line(4), of "[]"]
    gpu_line(3,6)
  by (simp_all add: gpu_input_def max_line_bytes_def next_frame_def)

abbreviation gpu_session :: "string \<Rightarrow> string \<Rightarrow> session_state \<Rightarrow> session" where
  "gpu_session inp out st \<equiv> \<lparr>ss_input = inp, ss_output = out, ss_state = st\<rparr>"

lemma gpu_next:
  "next_command (gpu_session (gpu_input) out st) = Some (empty_command\<lparr>
     cm_type := command_type.RegisterModel, cm_name := ''a'', cm_bytes := 60, cm_metadata := ''fp16''\<rparr>)"
  "next_command (gpu_session (load_line @ newline) out st) =
     Some (empty_command\<lparr>cm_type := command_type.LoadModel, cm_name := ''a''\<rparr>)"
  by (simp_all add: next_command_def gpu_frame gpu_line gpu_parse pa_ok_def)

lemma gpu_prepared:
  "load_prepared id (cuda_ops sim_runtime) demo_fs ''a''
     (dm_world (sv_daemon (gpu_server gpu_registry (cuda_new []) m ss None))) =
   Some (demo_record ''a'' 60, [], gpu_loaded)"
proof -
  have "mr_inv gpu_registry"
    by (simp add: gpu_registry_def mr_inv_def model_ok_def demo_record_def mr_valid_id_def
        mr_valid_metadata_def um_all_def)
  then have f: "find_model (mr_snapshot gpu_registry) ''a'' = Some (demo_record ''a'' 60)"
    by (simp add: find_model_eq) (simp add: gpu_registry_def)
  show ?thesis
    by (simp add: load_prepared_def load_plan_def gpu_server_def f)
      (simp add: demo_world_def rz_new_def resident_record_def rm_status_def choose_evictions_def
        demo_record_def load_fetch_def cuda_load_def cuda_valid_id_def cuda_new_def um_contains_def
        um_emplace_def sim_runtime_def gpu_loaded_def bo_ok_def Let_def u64_max_def)
qed

lemma gpu_run:
  "\<exists>sv0 m out. server_start (cuda_owned map_of) cuda_held sv0 \<and>
     run (server_step id (cuda_ops sim_runtime)) sv0
       [SvAccept, SvTurn 0 demo_env False (Received (gpu_input)),
        SvServe 0 demo_env, SvLoadBegin 0 demo_env]
       (gpu_server gpu_registry gpu_loaded m (gpu_session [] out Loading)
          (Some (0, ''a'', demo_record ''a'' 60, [])))"
proof -
  let ?step = "server_step id (cuda_ops sim_runtime)"
  let ?s1 = "gpu_server mr_new (cuda_new []) mt_new (gpu_session [] [] Reading) None"
  let ?s2 = "gpu_server mr_new (cuda_new []) mt_new (gpu_session gpu_input [] Reading) None"
  let ?s0 = "?s1\<lparr>sv_sessions := []\<rparr>"
  have start: "server_start (cuda_owned map_of) cuda_held ?s0"
    unfolding server_start_def
    by (rule exI [of _ 100], rule exI [of _ PriorityFifo], rule exI [of _ "cuda_new []"])
      (simp add: server_new_def rm_new_def gpu_server_def demo_world_def cuda_new_def cuda_owned_def
        cuda_inv_def cuda_held_def fun_eq_iff)
  have a: "?step ?s0 SvAccept ?s1"
    using server_step.sv_accept [of ?s0 id "cuda_ops sim_runtime"]
    by (simp add: gpu_server_def new_session_def)
  have b: "?step ?s1 (SvTurn 0 demo_env False (Received gpu_input)) ?s2"
    using server_step.sv_turn [of 0 ?s1 "gpu_session [] [] Reading" False "Received gpu_input" id
        "cuda_ops sim_runtime" demo_env] gpu_input_length
    by (simp add: gpu_server_def loop_done_def gpu_frame read_answer_def put_session_def
        session_turn_def session_read_def)
  obtain m out where c: "?step ?s2 (SvServe 0 demo_env)
      (gpu_server gpu_registry (cuda_new []) m (gpu_session (load_line @ newline) out Reading) None)"
  proof -
    have "mr_register_model ''a'' 60 ''fp16'' mr_new = (mo_done 60, gpu_registry)"
      by (simp add: mr_register_model_def mr_valid_id_def mr_valid_metadata_def mr_new_def
          um_contains_def um_emplace_def demo_record_def gpu_registry_def)
    then have "\<exists>m out. put_session 0 (serve_frame id (cuda_ops sim_runtime) demo_env
        (sv_daemon ?s2, gpu_session gpu_input [] Reading)) ?s2 =
        gpu_server gpu_registry (cuda_new []) m (gpu_session (load_line @ newline) out Reading) None"
      by (simp add: serve_frame_def gpu_frame answer_line_def gpu_line gpu_parse pa_ok_def dispatch_def
          dispatch_model_def Let_def gpu_server_def send_response_def demo_env_def put_session_def
          note_metrics_def)
    moreover have "?step ?s2 (SvServe 0 demo_env) (put_session 0 (serve_frame id (cuda_ops sim_runtime)
        demo_env (sv_daemon ?s2, gpu_session gpu_input [] Reading)) ?s2)"
      by (rule sv_serve) (simp_all add: gpu_server_def loop_done_def gpu_frame load_next_def gpu_next)
    ultimately show thesis using that by metis
  qed
  let ?s3 = "gpu_server gpu_registry (cuda_new []) m (gpu_session (load_line @ newline) out Reading) None"
  have "?step ?s3 (SvLoadBegin 0 demo_env)
      ((put_session 0 (session_load gpu_loaded (sv_daemon ?s3, gpu_session (load_line @ newline) out Reading)) ?s3)
        \<lparr>sv_load := Some (0, ''a'', demo_record ''a'' 60, [])\<rparr>)"
    by (rule sv_load_begin)
      (simp_all add: gpu_server_def loop_done_def gpu_frame load_next_def gpu_next demo_env_def
        gpu_prepared [unfolded gpu_server_def, simplified])
  then have d: "?step ?s3 (SvLoadBegin 0 demo_env)
      (gpu_server gpu_registry gpu_loaded m (gpu_session [] out Loading)
        (Some (0, ''a'', demo_record ''a'' 60, [])))"
    by (simp add: session_load_def put_session_def gpu_server_def rest_of_input_def gpu_frame)
  show ?thesis
    by (rule exI [of _ ?s0], rule exI [of _ m], rule exI [of _ out], rule conjI [OF start],
        rule run_cons, rule a, rule run_cons, rule b, rule run_cons, rule c, rule run_cons, rule d, rule run_nil)
qed

theorem gpu_memory_is_reserved_witness:
  "\<exists>sv0 ls sv. server_start (cuda_owned map_of) cuda_held sv0 \<and>
     run (server_step id (cuda_ops sim_runtime)) sv0 ls sv \<and> sv_load sv \<noteq> None \<and>
     device_bytes (rw_backend (dm_world (sv_daemon sv))) + um_total (rm_reservations (resources (sv_daemon sv))) =
       unat (rm_used (resources (sv_daemon sv))) + 60"
proof -
  obtain sv0 m out ls where start: "server_start (cuda_owned map_of) cuda_held sv0"
    and r: "run (server_step id (cuda_ops sim_runtime)) sv0 ls
      (gpu_server gpu_registry gpu_loaded m (gpu_session [] out Loading)
        (Some (0, ''a'', demo_record ''a'' 60, [])))"
    using gpu_run by metis
  let ?sv = "gpu_server gpu_registry gpu_loaded m (gpu_session [] out Loading)
        (Some (0, ''a'', demo_record ''a'' 60, []))"
  have "sv_load ?sv = Some (0, ''a'', demo_record ''a'' 60, [])" by (simp add: gpu_server_def)
  moreover have "unat (md_footprint (demo_record ''a'' 60)) = 60" by (simp add: demo_record_def)
  ultimately have "sv_load ?sv \<noteq> None \<and> device_bytes (rw_backend (dm_world (sv_daemon ?sv))) +
      um_total (rm_reservations (resources (sv_daemon ?sv))) = unat (rm_used (resources (sv_daemon ?sv))) + 60"
    using gpu_memory_is_reserved [OF sim_driver_ok start r] by simp
  with start r show ?thesis by blast
qed

end
