(* ===== verification/MetalBackend.thy ===== *)
theory MetalBackend
  imports Backend
begin

text \<open>
  The Metal backend (metal_backend.hpp, metal_backend.mm). The Metal framework is not part of
  the program: \<open>newBufferWithLength\<close> is a parameter, and \<open>metal_ok\<close> states what is assumed of
  it. Under that assumption the class meets the contract \<open>reliable_backend\<close>.
\<close>

section \<open>The framework as the code sees it\<close>

text \<open>A buffer with its \<open>length\<close> and \<open>contents\<close>; releasing the last reference frees it.\<close>

record metal_buffer =
  mb_length :: "64 word"
  mb_contents :: file_data

record 'd metal_framework =
  mt_device :: "'d \<Rightarrow> bool"
  mt_new_buffer :: "64 word \<Rightarrow> 'd \<Rightarrow> metal_buffer option \<times> 'd"

definition metal_ok :: "'d metal_framework \<Rightarrow> bool" where
  "metal_ok M \<longleftrightarrow> (\<forall>n d buffer d'. mt_new_buffer M n d = (Some buffer, d') \<longrightarrow> mb_length buffer = n)"

section \<open>State and operations\<close>

record 'd metal_backend =
  mb_buffers :: "metal_buffer umap"
  mb_device :: 'd

definition metal_new :: "'d \<Rightarrow> 'd metal_backend" where
  "metal_new d = \<lparr>mb_buffers = [], mb_device = d\<rparr>"

text \<open>The default device exists.\<close>

definition metal_is_available :: "'d metal_framework \<Rightarrow> 'd \<Rightarrow> bool" where
  "metal_is_available M d \<longleftrightarrow> mt_device M d"

definition metal_load ::
  "'d metal_framework \<Rightarrow> string \<Rightarrow> bytes \<Rightarrow> 'd metal_backend \<Rightarrow>
   backend_operation_result \<times> 'd metal_backend" where
  "metal_load M ident n b =
     (if ident = [] \<or> length ident > 64 then (bo_fail backend_error.InvalidModelId, b)
      else if n = 0 then (bo_fail backend_error.InvalidSize, b)
      else if \<not> mt_device M (mb_device b) then (bo_fail backend_error.DeviceUnavailable, b)
      else if unat n > u64_max then (bo_fail backend_error.AllocationFailed, b)
      else if um_contains ident (mb_buffers b) then (bo_fail backend_error.AlreadyLoaded, b)
      else case mt_new_buffer M n (mb_device b) of
        (None, d) \<Rightarrow> (bo_fail backend_error.AllocationFailed, b\<lparr>mb_device := d\<rparr>)
      | (Some buffer, d) \<Rightarrow>
          (bo_done n, \<lparr>mb_buffers = um_emplace ident buffer (mb_buffers b), mb_device = d\<rparr>))"

text \<open>\<open>memcpy\<close> to the start of the buffer.\<close>

definition metal_memcpy :: "file_data \<Rightarrow> metal_buffer \<Rightarrow> metal_buffer" where
  "metal_memcpy xs buffer =
     buffer\<lparr>mb_contents := xs @ drop (length xs) (mb_contents buffer)\<rparr>"

definition metal_load_data ::
  "'d metal_framework \<Rightarrow> string \<Rightarrow> file_data \<Rightarrow> 'd metal_backend \<Rightarrow>
   backend_operation_result \<times> 'd metal_backend" where
  "metal_load_data M ident xs b =
     (let (result, b') = metal_load M ident (of_nat (length xs)) b
      in if \<not> bo_ok result then (result, b')
         else case map_of (mb_buffers b') ident of
           None \<Rightarrow> (bo_fail backend_error.RuntimeFailure, b')
         | Some buffer \<Rightarrow>
             (result, b'\<lparr>mb_buffers := um_put ident (metal_memcpy xs buffer) (mb_buffers b')\<rparr>))"

definition metal_unload ::
  "string \<Rightarrow> 'd metal_backend \<Rightarrow> backend_operation_result \<times> 'd metal_backend" where
  "metal_unload ident b =
     (if ident = [] \<or> length ident > 64 then (bo_fail backend_error.InvalidModelId, b)
      else case map_of (mb_buffers b) ident of
        None \<Rightarrow> (bo_fail backend_error.NotLoaded, b)
      | Some buffer \<Rightarrow>
          (bo_done (mb_length buffer), b\<lparr>mb_buffers := um_erase ident (mb_buffers b)\<rparr>))"

definition metal_share ::
  "string \<Rightarrow> 'd metal_backend \<Rightarrow> backend_share_result \<times> 'd metal_backend" where
  "metal_share ident b =
     (\<lparr>sh_error = backend_error.Unsupported, sh_amount = 0, sh_token = []\<rparr>, b)"

definition metal_is_loaded :: "string \<Rightarrow> 'd metal_backend \<Rightarrow> bool" where
  "metal_is_loaded ident b \<longleftrightarrow> um_contains ident (mb_buffers b)"

definition metal_snapshot :: "'d metal_backend \<Rightarrow> backend_snapshot" where
  "metal_snapshot b =
     \<lparr>bs_allocations = map (\<lambda>(k, buffer). \<lparr>ba_id = k, ba_bytes = mb_length buffer\<rparr>)
        (um_sorted (mb_buffers b))\<rparr>"

definition metal_ops :: "'d metal_framework \<Rightarrow> 'd metal_backend accelerator_backend" where
  "metal_ops M = \<lparr>bk_load = metal_load M, bk_load_data = metal_load_data M, bk_unload = metal_unload,
     bk_share = metal_share, bk_is_loaded = metal_is_loaded, bk_snapshot = metal_snapshot\<rparr>"

lemma metal_ops_simps [simp]:
  "bk_load (metal_ops M) = metal_load M" "bk_load_data (metal_ops M) = metal_load_data M"
  "bk_unload (metal_ops M) = metal_unload" "bk_share (metal_ops M) = metal_share"
  "bk_is_loaded (metal_ops M) = metal_is_loaded" "bk_snapshot (metal_ops M) = metal_snapshot"
  by (simp_all add: metal_ops_def)

section \<open>The contract\<close>

definition metal_inv :: "'d metal_backend \<Rightarrow> bool" where
  "metal_inv b \<longleftrightarrow> um_wf (mb_buffers b) \<and>
     um_all (\<lambda>k buffer. k \<noteq> [] \<and> length k \<le> 64) (mb_buffers b)"

definition metal_held :: "'d metal_backend \<Rightarrow> string \<Rightarrow> bytes option" where
  "metal_held b k = map_option mb_length (map_of (mb_buffers b) k)"

lemma metal_load_cases:
  assumes "metal_ok M"
  obtains (loaded) buffer d where "metal_load M k n b = (bo_done n,
      \<lparr>mb_buffers = um_emplace k buffer (mb_buffers b), mb_device = d\<rparr>)" "mb_length buffer = n"
      "map_of (mb_buffers b) k = None" "k \<noteq> []" "length k \<le> 64"
  | (refused) e d where "metal_load M k n b = (bo_fail e, b\<lparr>mb_device := d\<rparr>)" "e \<noteq> backend_error.NoError"
proof -
  have stay: "b = b\<lparr>mb_device := mb_device b\<rparr>" by simp
  obtain new d where nb: "mt_new_buffer M n (mb_device b) = (new, d)" by fastforce
  show thesis
  proof (cases "k = [] \<or> length k > 64 \<or> n = 0 \<or> \<not> mt_device M (mb_device b) \<or>
      um_contains k (mb_buffers b)")
    case True
    then have "\<exists>e. metal_load M k n b = (bo_fail e, b) \<and> e \<noteq> backend_error.NoError"
      using unat_le_u64_max [of n] by (auto simp: metal_load_def)
    with stay refused show thesis by metis
  next
    case False
    then have go: "metal_load M k n b = (case (new, d) of
        (None, d) \<Rightarrow> (bo_fail backend_error.AllocationFailed, b\<lparr>mb_device := d\<rparr>)
      | (Some buffer, d) \<Rightarrow>
          (bo_done n, \<lparr>mb_buffers = um_emplace k buffer (mb_buffers b), mb_device = d\<rparr>))"
      using unat_le_u64_max [of n] by (simp add: metal_load_def nb)
    show thesis
    proof (cases new)
      case None
      with go show thesis by (intro refused [of backend_error.AllocationFailed d]) simp_all
    next
      case (Some buffer)
      have "mb_length buffer = n" using assms nb Some unfolding metal_ok_def by blast
      with go Some False show thesis by (intro loaded) (simp_all add: um_contains_def)
    qed
  qed
qed

lemma metal_load_inv: "metal_ok M \<Longrightarrow> metal_inv b \<Longrightarrow> metal_inv (snd (metal_load M k n b))"
  by (cases rule: metal_load_cases [of M k n b]) (auto simp: metal_inv_def intro: um_all_emplace)

lemma metal_load_held:
  "metal_ok M \<Longrightarrow> metal_held (snd (metal_load M k n b)) =
     (if bo_ok (fst (metal_load M k n b)) then (metal_held b)(k \<mapsto> n) else metal_held b)"
  by (cases rule: metal_load_cases [of M k n b])
    (auto simp: bo_ok_def metal_held_def map_of_um_emplace um_contains_def)

lemma metal_load_new: "metal_ok M \<Longrightarrow> bo_ok (fst (metal_load M k n b)) \<Longrightarrow> metal_held b k = None"
  by (cases rule: metal_load_cases [of M k n b]) (auto simp: bo_ok_def metal_held_def)

text \<open>The copy changes the contents of the new buffer and nothing else.\<close>

lemma metal_load_data_held:
  assumes "metal_ok M"
  shows "metal_held (snd (metal_load_data M k xs b)) = metal_held (snd (metal_load M k (of_nat (length xs)) b))"
    and "fst (metal_load_data M k xs b) = fst (metal_load M k (of_nat (length xs)) b)"
    and "metal_inv b \<Longrightarrow> metal_inv (snd (metal_load_data M k xs b))"
proof -
  have held: "metal_held (snd (metal_load_data M k xs b)) = metal_held (snd (metal_load M k (of_nat (length xs)) b)) \<and>
      fst (metal_load_data M k xs b) = fst (metal_load M k (of_nat (length xs)) b) \<and>
      (metal_inv b \<longrightarrow> metal_inv (snd (metal_load_data M k xs b)))"
    using assms
  proof (cases rule: metal_load_cases [of M k "of_nat (length xs)" b])
    case (loaded buffer d)
    let ?m = "um_emplace k buffer (mb_buffers b)"
    have m: "map_of ?m k = Some buffer" using loaded(3) by (simp add: map_of_um_emplace um_contains_def)
    have data: "metal_load_data M k xs b = (bo_done (of_nat (length xs)),
        \<lparr>mb_buffers = um_put k (metal_memcpy xs buffer) ?m, mb_device = d\<rparr>)"
      by (simp add: metal_load_data_def loaded(1) bo_ok_def m)
    have "metal_inv b \<longrightarrow> metal_inv \<lparr>mb_buffers = um_put k (metal_memcpy xs buffer) ?m, mb_device = d\<rparr>"
      using loaded(4,5) by (auto simp: metal_inv_def intro!: um_all_put um_all_emplace)
    then show ?thesis
      by (auto simp: data loaded(1) metal_held_def update_conv' m metal_memcpy_def)
  next
    case (refused e d)
    then show ?thesis by (auto simp: metal_load_data_def bo_ok_def metal_inv_def)
  qed
  then show "metal_held (snd (metal_load_data M k xs b)) = metal_held (snd (metal_load M k (of_nat (length xs)) b))"
    "fst (metal_load_data M k xs b) = fst (metal_load M k (of_nat (length xs)) b)"
    "metal_inv b \<Longrightarrow> metal_inv (snd (metal_load_data M k xs b))" by simp_all
qed

lemma metal_unload_inv: "metal_inv b \<Longrightarrow> metal_inv (snd (metal_unload k b))"
  by (auto simp: metal_unload_def metal_inv_def intro: um_all_erase split: option.splits)

lemma metal_unload_held:
  "metal_held (snd (metal_unload k b)) =
     (if bo_ok (fst (metal_unload k b)) then (metal_held b)(k := None) else metal_held b)"
  by (auto simp: metal_unload_def metal_held_def bo_ok_def map_of_um_erase split: option.splits)

lemma metal_unload_ok: "metal_inv b \<Longrightarrow> metal_held b k \<noteq> None \<Longrightarrow> bo_ok (fst (metal_unload k b))"
  by (auto simp: metal_unload_def metal_held_def bo_ok_def metal_inv_def dest: um_allD split: option.splits)

lemma metal_reliable:
  assumes "metal_ok M"
  shows "reliable_backend (metal_ops M) metal_inv metal_held"
  by unfold_locales
    (use assms in \<open>simp_all add: metal_load_inv metal_load_data_held metal_unload_inv metal_load_held
      metal_load_new metal_unload_held metal_unload_ok\<close>,
     simp_all add: metal_share_def metal_is_loaded_def um_contains_def metal_held_def)

end
