(* ===== verification/DaemonBackend.thy ===== *)
theory DaemonBackend
  imports Daemon CudaServer MetalBackend
begin

text \<open>
  The backend the daemon's \<open>main\<close> makes and the calls the residency manager makes through its
  \<open>AcceleratorBackend\<close> reference: one object of three classes. Whatever is compiled in and
  available, it meets the contract, so the results on the server hold of the daemon as it
  is started.
\<close>

section \<open>The object behind the reference\<close>

datatype ('c, 'm) any_backend =
    MockDevice mock_backend
  | CudaDevice "'c cuda_backend"
  | MetalDevice "'m metal_backend"

text \<open>A virtual call, by the class of the object.\<close>

definition virtual ::
  "(mock_backend \<Rightarrow> 'r \<times> mock_backend) \<Rightarrow> ('c cuda_backend \<Rightarrow> 'r \<times> 'c cuda_backend) \<Rightarrow>
   ('m metal_backend \<Rightarrow> 'r \<times> 'm metal_backend) \<Rightarrow> ('c, 'm) any_backend \<Rightarrow> 'r \<times> ('c, 'm) any_backend" where
  "virtual f g h b = (case b of
     MockDevice x \<Rightarrow> apsnd MockDevice (f x)
   | CudaDevice x \<Rightarrow> apsnd CudaDevice (g x)
   | MetalDevice x \<Rightarrow> apsnd MetalDevice (h x))"

definition device_ops ::
  "'c cuda_runtime \<Rightarrow> 'm metal_framework \<Rightarrow> ('c, 'm) any_backend accelerator_backend" where
  "device_ops R M = \<lparr>
     bk_load = (\<lambda>k n. virtual (bk_load mock_ops k n) (bk_load (cuda_ops R) k n) (bk_load (metal_ops M) k n)),
     bk_load_data = (\<lambda>k xs. virtual (bk_load_data mock_ops k xs) (bk_load_data (cuda_ops R) k xs)
       (bk_load_data (metal_ops M) k xs)),
     bk_unload = (\<lambda>k. virtual (bk_unload mock_ops k) (bk_unload (cuda_ops R) k) (bk_unload (metal_ops M) k)),
     bk_share = (\<lambda>k. virtual (bk_share mock_ops k) (bk_share (cuda_ops R) k) (bk_share (metal_ops M) k)),
     bk_is_loaded = (\<lambda>k b. case b of
         MockDevice x \<Rightarrow> bk_is_loaded mock_ops k x
       | CudaDevice x \<Rightarrow> bk_is_loaded (cuda_ops R) k x
       | MetalDevice x \<Rightarrow> bk_is_loaded (metal_ops M) k x),
     bk_snapshot = (\<lambda>b. case b of
         MockDevice x \<Rightarrow> bk_snapshot mock_ops x
       | CudaDevice x \<Rightarrow> bk_snapshot (cuda_ops R) x
       | MetalDevice x \<Rightarrow> bk_snapshot (metal_ops M) x)\<rparr>"

text \<open>
  The choice in \<open>main\<close>; the booleans are the two macros of the build, \<open>c\<close> and \<open>m\<close> the devices
  the CUDA runtime and the Metal framework find.
\<close>

definition choose_backend ::
  "bool \<Rightarrow> bool \<Rightarrow> 'c cuda_runtime \<Rightarrow> 'm metal_framework \<Rightarrow> 'c \<Rightarrow> 'm \<Rightarrow> ('c, 'm) any_backend" where
  "choose_backend has_cuda has_metal R M c m =
     (let backend = MockDevice mk_new;
          backend = (if has_cuda \<and> cuda_is_available R c then CudaDevice (cuda_new c) else backend)
      in if has_metal \<and> backend = MockDevice mk_new \<and> metal_is_available M m
         then MetalDevice (metal_new m) else backend)"

section \<open>The contract\<close>

definition device_inv ::
  "('c \<Rightarrow> device_ptr \<Rightarrow> bytes option) \<Rightarrow> ('c, 'm) any_backend \<Rightarrow> bool" where
  "device_inv live b = (case b of
     MockDevice x \<Rightarrow> mk_inv x | CudaDevice x \<Rightarrow> cuda_owned live x | MetalDevice x \<Rightarrow> metal_inv x)"

definition device_held :: "('c, 'm) any_backend \<Rightarrow> string \<Rightarrow> bytes option" where
  "device_held b = (case b of
     MockDevice x \<Rightarrow> mk_held x | CudaDevice x \<Rightarrow> cuda_held x | MetalDevice x \<Rightarrow> metal_held x)"

lemma device_simps [simp]:
  "device_inv live (MockDevice x) = mk_inv x" "device_inv live (CudaDevice y) = cuda_owned live y"
  "device_inv live (MetalDevice z) = metal_inv z" "device_held (MockDevice x) = mk_held x"
  "device_held (CudaDevice y) = cuda_held y" "device_held (MetalDevice z) = metal_held z"
  by (simp_all add: device_inv_def device_held_def)

lemma virtual_simps [simp]:
  "fst (virtual f g h (MockDevice x)) = fst (f x)" "snd (virtual f g h (MockDevice x)) = MockDevice (snd (f x))"
  "fst (virtual f g h (CudaDevice y)) = fst (g y)" "snd (virtual f g h (CudaDevice y)) = CudaDevice (snd (g y))"
  "fst (virtual f g h (MetalDevice z)) = fst (h z)" "snd (virtual f g h (MetalDevice z)) = MetalDevice (snd (h z))"
  by (simp_all add: virtual_def)

lemmas backend_laws = backend.load_inv backend.load_data_inv backend.unload_inv backend.share_inv
  backend.load_held backend.load_new backend.load_data_held backend.load_data_new backend.unload_held
  backend.share_held backend.is_loaded_held

lemma device_reliable:
  assumes "driver_ok R live" and "metal_ok M"
  shows "reliable_backend (device_ops R M) (device_inv live) device_held"
proof -
  note rel = cuda_reliable [OF assms(1)] metal_reliable [OF assms(2)]
  note laws = backend_laws [OF mock.backend_axioms]
    backend_laws [OF reliable_backend.axioms(1) [OF rel(1)]]
    backend_laws [OF reliable_backend.axioms(1) [OF rel(2)]]
    mock.unload_ok reliable_backend.unload_ok [OF rel(1)] reliable_backend.unload_ok [OF rel(2)]
  show ?thesis
    by (unfold_locales; case_tac b; simp add: device_ops_def laws del: mock_ops_simps cuda_ops_simps metal_ops_simps)
qed

lemma device_token_lines: "token_lines (device_ops R M)"
  unfolding token_lines_def
proof (intro allI)
  fix k b
  show "no_newline (sh_token (fst (bk_share (device_ops R M) k b)))"
    using mock_token_lines cuda_token_lines [of R]
    by (cases b) (simp_all add: device_ops_def token_lines_def metal_share_def no_newline_def)
qed

lemma chosen_backend:
  assumes "live c = Map.empty"
  shows "device_inv live (choose_backend has_cuda has_metal R M c m)"
    and "device_held (choose_backend has_cuda has_metal R M c m) = Map.empty"
  using assms
  by (simp_all add: choose_backend_def Let_def mk_new_def mk_inv_def cuda_new_def cuda_owned_def
      cuda_inv_def metal_new_def metal_inv_def, simp_all add: mk_held_def cuda_held_def metal_held_def fun_eq_iff)

section \<open>The capacity\<close>

lemma one_call_capacity: "one_call s t \<Longrightarrow> rm_capacity t = rm_capacity s"
  by (auto simp: one_call_def dest: rm_step_frame(1))

lemma rz_step_capacity:
  "rz_step rd B s e t \<Longrightarrow> rm_capacity (rw_resources (fst t)) = rm_capacity (rw_resources (fst s))"
proof (induction rule: rz_step.induct)
  case (step_client e w rm l)
  then show ?case by (simp add: rm_step_frame(1))
next
  case (step_load_end now elapsed m es w r w')
  then show ?case by (simp add: one_call_capacity commit_one_call)
next
  case (step_unload now k w r w')
  then show ?case by (simp add: one_call_capacity unload_one_call)
qed (simp_all add: model_calls_none)

lemma rz_run_capacity:
  "run (rz_step rd B) s es t \<Longrightarrow> rm_capacity (rw_resources (fst t)) = rm_capacity (rw_resources (fst s))"
  by (induction rule: run.induct) (simp_all add: rz_step_capacity)

section \<open>The daemon as it is started\<close>

lemma setup_start:
  assumes "daemon_setup b args = Inr (Some sv, socket)" and "binv b" and "held b = Map.empty"
  shows "server_start binv held sv"
    and "\<exists>ps. args = option_pairs ps \<and>
      parse_size (last_value ''--memory'' [] ps) = Some (rm_capacity (resources (sv_daemon sv)))"
proof -
  obtain opts capacity where opts: "parse_options args no_options = Inr opts"
    "parse_size (do_memory opts) = Some capacity" "server_new capacity (do_policy opts) b = Some sv"
    using assms(1)
    by (auto simp: daemon_setup_def parse_bytes_def split: sum.splits option.splits option_error.splits if_splits)
  show "server_start binv held sv"
    using opts(3) assms(2,3) unfolding server_start_def by blast
  have "rm_capacity (resources (sv_daemon sv)) = capacity"
    using opts(3) by (auto simp: server_new_def rm_new_def split: option.splits if_splits)
  moreover obtain ps where "args = option_pairs ps" "opts = options_of no_options ps"
    using opts(1) by (auto simp: parse_options_exact)
  ultimately show "\<exists>ps. args = option_pairs ps \<and>
      parse_size (last_value ''--memory'' [] ps) = Some (rm_capacity (resources (sv_daemon sv)))"
    using opts(2) by (auto simp: options_of_def no_options_def)
qed

text \<open>
  C2: the daemon never promises more than its \<open>--memory\<close>. Started by \<open>main\<close> on whatever
  backend is compiled in and available, in every state its sessions can bring it to, the
  bytes reserved by clients and by models add up to at most the last \<open>--memory\<close> it was given,
  the models reserved are those marked resident, and the device holds exactly these and the
  one model of a load under way. The CUDA runtime and the Metal framework are assumed to
  behave as documented, in particular \<open>cudaFree\<close> of live memory to succeed.
\<close>

theorem daemon_keeps_its_promises:
  assumes "driver_ok R live" and "metal_ok M" and "live c = Map.empty"
    and "daemon_setup (choose_backend has_cuda has_metal R M c m) args = Inr (Some sv, socket)"
    and "run (server_step rd (device_ops R M)) sv ls sv'"
  shows "\<exists>ps memory. args = option_pairs ps \<and> parse_size (last_value ''--memory'' [] ps) = Some memory \<and>
    um_total (rm_reservations (resources (sv_daemon sv'))) +
      um_total (rm_model_reservations (resources (sv_daemon sv'))) \<le> unat memory \<and>
    map_of (rm_model_reservations (resources (sv_daemon sv'))) =
      resident_bytes (rz_records (rw_residency (dm_world (sv_daemon sv')))) \<and>
    device_held (rw_backend (dm_world (sv_daemon sv'))) = (case sv_load sv' of
      None \<Rightarrow> resident_bytes (rz_records (rw_residency (dm_world (sv_daemon sv'))))
    | Some (i, name, m, es) \<Rightarrow>
        (resident_bytes (rz_records (rw_residency (dm_world (sv_daemon sv')))))(md_id m \<mapsto> md_footprint m))"
proof -
  let ?rm = "resources (sv_daemon sv')"
  note rel = device_reliable [OF assms(1,2)]
  note start = setup_start [where binv = "device_inv live" and held = device_held,
      OF assms(4) chosen_backend [where live = live, OF assms(3)]]
  from start(2) obtain ps where ps: "args = option_pairs ps"
    "parse_size (last_value ''--memory'' [] ps) = Some (rm_capacity (resources (sv_daemon sv)))" by blast
  note reach = reliable_backend.server_reachable [OF rel start(1) assms(5)]
  have rz: "rz_reachable (device_ops R M) (device_inv live) device_held rd (dm_world (sv_daemon sv'), sv_planned sv')"
    using reach(2) by (simp add: server_rz_def)
  obtain es where "run (rz_step rd (device_ops R M)) (server_rz sv) es (server_rz sv')"
    using reliable_backend.server_run_sound [OF rel assms(5) reliable_backend.server_start_inv [OF rel start(1)]]
    by blast
  from rz_run_capacity [OF this] have cap: "rm_capacity ?rm = rm_capacity (resources (sv_daemon sv))"
    by (simp add: server_rz_def)
  have "rm_inv ?rm"
    using reliable_backend.server_inv_good [OF rel reach(1)] by (simp add: rm_good_def)
  from rm.total_le_cap [OF this] have "um_total (rm_reservations ?rm) + um_total (rm_model_reservations ?rm)
      \<le> unat (rm_capacity (resources (sv_daemon sv)))"
    by (simp add: rm_total_def cap)
  with ps reliable_backend.books_agree [OF rel rz] show ?thesis
    by (intro exI [of _ ps] exI [of _ "rm_capacity (resources (sv_daemon sv))"])
      (auto simp: server_rz_def split: option.splits)
qed

text \<open>A daemon of 100 bytes with both libraries compiled in, on a machine with a GPU only.\<close>

definition no_metal :: "unit metal_framework" where
  "no_metal = \<lparr>mt_device = (\<lambda>_. False), mt_new_buffer = (\<lambda>n d. (None, d))\<rparr>"

theorem daemon_keeps_its_promises_witness:
  "\<exists>sv. daemon_setup (choose_backend True True sim_runtime no_metal [] ())
      [''--memory'', show_u64 100, ''--socket'', ''/s''] = Inr (Some sv, ''/s'') \<and>
     rw_backend (dm_world (sv_daemon sv)) = CudaDevice (cuda_new []) \<and>
     um_total (rm_reservations (resources (sv_daemon sv))) +
       um_total (rm_model_reservations (resources (sv_daemon sv))) \<le> 100"
proof -
  let ?b = "choose_backend True True sim_runtime no_metal [] ()"
  let ?args = "[''--memory'', show_u64 100, ''--socket'', ''/s'']"
  have b: "?b = CudaDevice (cuda_new [])"
    by (simp add: choose_backend_def cuda_is_available_def sim_runtime_def)
  have size: "parse_size (show_u64 100) = Some 100" by (rule parse_size_show) simp
  obtain sv where sv: "server_new 100 PriorityFifo ?b = Some sv"
    by (simp add: server_new_def rm_new_def)
  have made: "daemon_setup ?b ?args = Inr (Some sv, ''/s'')"
    by (simp add: daemon_setup_def no_options_def parse_bytes_def size sv)
  have dev: "rw_backend (dm_world (sv_daemon sv)) = CudaDevice (cuda_new [])"
    using sv by (auto simp: server_new_def rm_new_def b)
  have metal: "metal_ok no_metal" by (simp add: metal_ok_def no_metal_def)
  from daemon_keeps_its_promises [OF sim_driver_ok metal _ made, where ls = "[]" and rd = id and sv' = sv]
  obtain ps memory where ps: "?args = option_pairs ps" "parse_size (last_value ''--memory'' [] ps) = Some memory"
    "um_total (rm_reservations (resources (sv_daemon sv))) +
       um_total (rm_model_reservations (resources (sv_daemon sv))) \<le> unat memory" by auto
  from ps(1) have "ps = [(''--memory'', show_u64 100), (''--socket'', ''/s'')]"
    by (cases ps; cases "tl ps"; cases "tl (tl ps)") (auto simp: option_pairs_def)
  with ps(2) size have "memory = 100" by simp
  with made dev ps(3) show ?thesis by auto
qed

end
