(* ===== verification/Benchmark.thy ===== *)
theory Benchmark
  imports DaemonBackend
begin

text \<open>
  The benchmark program (benchmark/main.cpp): its arguments, the choice of the backend, the
  cold and warm loops over the residency manager and the statistics. The clock, the files
  and the rounding of \<open>double\<close> are arguments; so is the text of a \<open>double\<close> with three digits.
\<close>

section \<open>Arguments\<close>

record bench_options =
  bn_file :: string
  bn_backend :: string
  bn_iterations :: "64 word"

record bench_exit =
  bx_status :: int
  bx_stdout :: string
  bx_stderr :: string

definition bench_usage :: string where
  "bench_usage = ''Usage: gpumemd-bench --file PATH [--iterations N] '' @
     ''[--backend auto|mock|metal|cuda]'' @ newline"

definition parse_iterations :: "string \<Rightarrow> 64 word option" where
  "parse_iterations token =
     (case from_chars_u64 token of
        None \<Rightarrow> None
      | Some (v, rest) \<Rightarrow> if rest \<noteq> [] \<or> v = 0 then None else Some v)"

definition bench_error :: "int \<Rightarrow> string \<Rightarrow> bench_exit" where
  "bench_error status text = \<lparr>bx_status = status, bx_stdout = [],
     bx_stderr = ''gpumemd-bench: '' @ text @ newline\<rparr>"

text \<open>The loop over the arguments after the program name; \<open>Inl\<close> is a return from \<open>main\<close>.\<close>

definition bench_other :: "string \<Rightarrow> bench_exit" where
  "bench_other argument =
     (if argument = ''--help'' then \<lparr>bx_status = 0, bx_stdout = bench_usage, bx_stderr = []\<rparr>
      else \<lparr>bx_status = 2, bx_stdout = [], bx_stderr = bench_usage\<rparr>)"

fun bench_arguments :: "string list \<Rightarrow> bench_options \<Rightarrow> bench_exit + bench_options" where
  "bench_arguments [] opts = Inr opts"
| "bench_arguments [argument] opts = Inl (bench_other argument)"
| "bench_arguments (argument # v # rest) opts =
     (if argument = ''--file'' then bench_arguments rest (opts\<lparr>bn_file := v\<rparr>)
      else if argument = ''--backend'' then bench_arguments rest (opts\<lparr>bn_backend := v\<rparr>)
      else if argument = ''--iterations'' then
        (case parse_iterations v of
           None \<Rightarrow> Inl (bench_error 2 ''invalid iteration count'')
         | Some n \<Rightarrow> bench_arguments rest (opts\<lparr>bn_iterations := n\<rparr>))
      else Inl (bench_other argument))"

definition bench_configuration :: "string list \<Rightarrow> bench_exit + bench_options" where
  "bench_configuration args =
     (case bench_arguments args \<lparr>bn_file = [], bn_backend = ''auto'', bn_iterations = 3\<rparr> of
        Inl x \<Rightarrow> Inl x
      | Inr opts \<Rightarrow>
          if bn_file opts = [] \<or> (bn_backend opts \<noteq> ''auto'' \<and> bn_backend opts \<noteq> ''mock'' \<and>
             bn_backend opts \<noteq> ''metal'' \<and> bn_backend opts \<noteq> ''cuda'')
          then Inl \<lparr>bx_status = 2, bx_stdout = [], bx_stderr = bench_usage\<rparr>
          else Inr opts)"

section \<open>The backend\<close>

text \<open>The choice of \<open>main\<close>, with the macros of the build as in \<open>choose_backend\<close>, and its name.\<close>

definition bench_backend ::
  "bool \<Rightarrow> bool \<Rightarrow> 'c cuda_runtime \<Rightarrow> 'm metal_framework \<Rightarrow> 'c \<Rightarrow> 'm \<Rightarrow> string \<Rightarrow>
   bench_exit + ('c, 'm) any_backend \<times> string" where
  "bench_backend has_cuda has_metal R M c m name =
     (let cuda =
        (if has_cuda then
           (if name = ''cuda'' \<or> (name = ''auto'' \<and> cuda_is_available R c) then
              (if \<not> cuda_is_available R c then Inl (bench_error 1 ''CUDA backend is unavailable'')
               else Inr (CudaDevice (cuda_new c), ''cuda''))
            else Inr (MockDevice mk_new, ''mock''))
         else if name = ''cuda'' then Inl (bench_error 1 ''CUDA backend was not built'')
         else Inr (MockDevice mk_new, ''mock''))
      in case cuda of
           Inl x \<Rightarrow> Inl x
         | Inr (b, selected) \<Rightarrow>
             (let metal =
                (if has_metal then
                   (if name = ''metal'' \<or>
                       (name = ''auto'' \<and> b = MockDevice mk_new \<and> metal_is_available M m) then
                      (if \<not> metal_is_available M m
                       then Inl (bench_error 1 ''Metal backend is unavailable'')
                       else Inr (MetalDevice (metal_new m), ''metal''))
                    else Inr (b, selected))
                 else if name = ''metal'' then Inl (bench_error 1 ''Metal backend was not built'')
                 else Inr (b, selected))
              in case metal of
                   Inl x \<Rightarrow> Inl x
                 | Inr (b', selected') \<Rightarrow>
                     Inr (if name = ''mock'' then (MockDevice mk_new, ''mock'') else (b', selected'))))"

section \<open>The loops\<close>

text \<open>
  What a turn takes from outside: the files and the clock of the load, the milliseconds
  between the two readings around it, and the clock of the unload.
\<close>

record bench_call =
  bc_files :: file_system
  bc_now :: time
  bc_elapsed :: millis
  bc_sample :: rat
  bc_unload_now :: time

definition bench_load ::
  "(rat \<Rightarrow> rat) \<Rightarrow> 'b accelerator_backend \<Rightarrow> bench_call \<Rightarrow> 'b residency_world \<Rightarrow>
   model_operation_result \<times> 'b residency_world" where
  "bench_load rd B c w = rz_load rd B (bc_files c) (bc_now c) (bc_elapsed c) ''benchmark'' w"

text \<open>The cold loop: the samples, or the message it ends with.\<close>

fun cold_loop ::
  "(rat \<Rightarrow> rat) \<Rightarrow> 'b accelerator_backend \<Rightarrow> bench_call list \<Rightarrow> 'b residency_world \<Rightarrow>
   string + rat list \<times> 'b residency_world" where
  "cold_loop rd B [] w = Inr ([], w)"
| "cold_loop rd B (c # cs) w =
     (let (loaded, w1) = bench_load rd B c w
      in if \<not> mo_ok loaded then Inl ''cold load failed''
         else (let (unloaded, w2) = rz_unload B (bc_unload_now c) ''benchmark'' w1
               in if \<not> mo_ok unloaded then Inl ''cold unload failed''
                  else (case cold_loop rd B cs w2 of
                          Inl text \<Rightarrow> Inl text
                        | Inr (samples, w3) \<Rightarrow> Inr (bc_sample c # samples, w3))))"

text \<open>The two warm loops, the first of which keeps no samples.\<close>

fun warm_loop ::
  "(rat \<Rightarrow> rat) \<Rightarrow> 'b accelerator_backend \<Rightarrow> bench_call list \<Rightarrow> 'b residency_world \<Rightarrow>
   (rat list \<times> 'b residency_world) option" where
  "warm_loop rd B [] w = Some ([], w)"
| "warm_loop rd B (c # cs) w =
     (let (loaded, w1) = bench_load rd B c w
      in if \<not> mo_ok loaded then None
         else map_option (\<lambda>(samples, w2). (bc_sample c # samples, w2)) (warm_loop rd B cs w1))"

definition warm_iterations :: "64 word \<Rightarrow> 64 word" where
  "warm_iterations iterations = max iterations 10000"

record bench_env =
  be_register :: file_system
  be_cold :: "nat \<Rightarrow> bench_call"
  be_setup :: bench_call
  be_warm_up :: "nat \<Rightarrow> bench_call"
  be_warm :: "nat \<Rightarrow> bench_call"

text \<open>From the constructed objects to the samples; the last unload's result is not looked at.\<close>

definition bench_measure ::
  "(rat \<Rightarrow> rat) \<Rightarrow> 'b accelerator_backend \<Rightarrow> bench_env \<Rightarrow> 64 word \<Rightarrow> 'b residency_world \<Rightarrow>
   bench_exit + rat list \<times> rat list \<times> 'b residency_world" where
  "bench_measure rd B env iterations w =
     (case cold_loop rd B (map (be_cold env) [0..<unat iterations]) w of
        Inl text \<Rightarrow> Inl (bench_error 1 text)
      | Inr (cold, w1) \<Rightarrow>
          (let (loaded, w2) = bench_load rd B (be_setup env) w1
           in if \<not> mo_ok loaded then Inl (bench_error 1 ''warm setup failed'')
              else case warm_loop rd B (map (be_warm_up env) [0..<1000]) w2 of
                     None \<Rightarrow> Inl \<lparr>bx_status = 1, bx_stdout = [], bx_stderr = []\<rparr>
                   | Some (discarded, w3) \<Rightarrow>
                       (case warm_loop rd B (map (be_warm env) [0..<unat (warm_iterations iterations)]) w3 of
                          None \<Rightarrow> Inl (bench_error 1 ''warm load failed'')
                        | Some (warm, w4) \<Rightarrow>
                            Inr (cold, warm, snd (rz_unload B (bc_unload_now (be_setup env)) ''benchmark'' w4)))))"

section \<open>The statistics\<close>

text \<open>\<open>dbl\<close> is the rounding of \<open>double\<close>, applied to each literal, conversion and operation.\<close>

definition average_ms :: "(rat \<Rightarrow> rat) \<Rightarrow> rat list \<Rightarrow> rat" where
  "average_ms dbl samples =
     dbl (foldl (\<lambda>total sample. dbl (total + sample)) 0 samples / dbl (of_nat (length samples)))"

text \<open>The index of a quantile; the subtraction is that of \<open>std::size_t\<close>.\<close>

definition quantile_index :: "(rat \<Rightarrow> rat) \<Rightarrow> rat \<Rightarrow> nat \<Rightarrow> nat" where
  "quantile_index dbl q n = unat ((word_of_int \<lceil>dbl (q * dbl (of_nat n))\<rceil> :: 64 word) - 1)"

text \<open>A line for each quantile; \<open>None\<close> when a vector is read out of its bounds.\<close>

definition quantile_line ::
  "(rat \<Rightarrow> rat) \<Rightarrow> (rat \<Rightarrow> string) \<Rightarrow> string \<Rightarrow> rat list \<Rightarrow> rat \<Rightarrow> string option" where
  "quantile_line dbl fixed3 name samples q =
     (let index = quantile_index dbl q (length samples)
      in if index < length samples
         then Some (name @ ''_p'' @ show_int \<lfloor>dbl (q * 100)\<rfloor> @ ''_ns '' @
           fixed3 (dbl (samples ! index * 1000000)) @ newline)
         else None)"

definition distribution ::
  "(rat \<Rightarrow> rat) \<Rightarrow> (rat \<Rightarrow> string) \<Rightarrow> string \<Rightarrow> rat list \<Rightarrow> string option" where
  "distribution dbl fixed3 name samples =
     (let sorted = sort samples
      in case (quantile_line dbl fixed3 name sorted (dbl (1 / 2)),
               quantile_line dbl fixed3 name sorted (dbl (95 / 100)),
               quantile_line dbl fixed3 name sorted (dbl (99 / 100))) of
           (Some a, Some b, Some c) \<Rightarrow> Some (a @ b @ c)
         | _ \<Rightarrow> None)"

section \<open>The program\<close>

definition bench_report ::
  "(rat \<Rightarrow> rat) \<Rightarrow> (rat \<Rightarrow> string) \<Rightarrow> string \<Rightarrow> bytes \<Rightarrow> 64 word \<Rightarrow> rat list \<Rightarrow> rat list \<Rightarrow> string option" where
  "bench_report dbl fixed3 selected amount iterations cold warm =
     (case (distribution dbl fixed3 ''cold'' cold, distribution dbl fixed3 ''warm'' warm) of
        (Some c, Some h) \<Rightarrow> Some
          (''backend '' @ selected @ newline @
           ''bytes '' @ show_u64 amount @ newline @
           ''iterations '' @ show_u64 iterations @ newline @
           ''cold_avg_ms '' @ fixed3 (average_ms dbl cold) @ newline @
           ''warm_avg_ms '' @ fixed3 (average_ms dbl warm) @ newline @
           ''warm_samples '' @ show_u64 (warm_iterations iterations) @ newline @ c @ h)
      | _ \<Rightarrow> None)"

text \<open>
  \<open>main\<close> on the arguments after the program name; \<open>None\<close> is an exception of the resource
  manager's constructor or a read out of bounds.
\<close>

definition bench_main ::
  "(rat \<Rightarrow> rat) \<Rightarrow> (rat \<Rightarrow> rat) \<Rightarrow> (rat \<Rightarrow> string) \<Rightarrow> bool \<Rightarrow> bool \<Rightarrow> 'c cuda_runtime \<Rightarrow> 'm metal_framework \<Rightarrow>
   'c \<Rightarrow> 'm \<Rightarrow> bench_env \<Rightarrow> string list \<Rightarrow> bench_exit option" where
  "bench_main rd dbl fixed3 has_cuda has_metal R M c m env args =
     (case bench_configuration args of
        Inl x \<Rightarrow> Some x
      | Inr opts \<Rightarrow>
          (case bench_backend has_cuda has_metal R M c m (bn_backend opts) of
             Inl x \<Rightarrow> Some x
           | Inr (b, selected) \<Rightarrow>
               (let (registered, registry) = mr_register_file (be_register env) ''benchmark''
                      (bn_file opts) ''benchmark'' mr_new
                in if \<not> mo_ok registered then Some (bench_error 1 ''could not register model file'')
                   else case rm_new (mo_amount registered) PriorityFifo of
                     None \<Rightarrow> None
                   | Some manager \<Rightarrow>
                       (case bench_measure rd (device_ops R M) env (bn_iterations opts)
                              \<lparr>rw_registry = registry, rw_resources = manager, rw_backend = b,
                               rw_residency = rz_new\<rparr> of
                          Inl x \<Rightarrow> Some x
                        | Inr (cold, warm, w) \<Rightarrow>
                            map_option (\<lambda>text. \<lparr>bx_status = 0, bx_stdout = text, bx_stderr = []\<rparr>)
                              (bench_report dbl fixed3 selected (mo_amount registered)
                                 (bn_iterations opts) cold warm)))))"

section \<open>What the loops measure\<close>

text \<open>Before a cold turn: the model is registered and nobody retains it, and nothing is resident.\<close>

definition bench_ready ::
  "'b accelerator_backend \<Rightarrow> ('b \<Rightarrow> bool) \<Rightarrow> ('b \<Rightarrow> string \<Rightarrow> bytes option) \<Rightarrow> (rat \<Rightarrow> rat) \<Rightarrow>
   model_record \<Rightarrow> 'b residency_world \<Rightarrow> bool" where
  "bench_ready B binv held rd m w \<longleftrightarrow> rz_reachable B binv held rd (w, None) \<and>
     map_of (mr_models (rw_registry w)) ''benchmark'' = Some m \<and> md_ref_count m = 0 \<and>
     resident_bytes (rz_records (rw_residency w)) = Map.empty"

text \<open>Between a load and its unload: it is the one model resident.\<close>

definition bench_loaded ::
  "'b accelerator_backend \<Rightarrow> ('b \<Rightarrow> bool) \<Rightarrow> ('b \<Rightarrow> string \<Rightarrow> bytes option) \<Rightarrow> (rat \<Rightarrow> rat) \<Rightarrow>
   model_record \<Rightarrow> 'b residency_world \<Rightarrow> bool" where
  "bench_loaded B binv held rd m w \<longleftrightarrow> rz_reachable B binv held rd (w, None) \<and>
     map_of (mr_models (rw_registry w)) ''benchmark'' = Some m \<and> md_ref_count m = 0 \<and>
     resident_bytes (rz_records (rw_residency w)) = [''benchmark'' \<mapsto> md_footprint m]"

lemma resident_load:
  assumes "rz_books w" and rec: "resident_record (rz_records (rw_residency w)) k = Some r"
  shows "rz_load rd B fs now elapsed k w = (mo_done (rr_footprint r), w)"
proof -
  from resident_known [OF assms] obtain m where m: "map_of (mr_models (rw_registry w)) k = Some m"
    by (auto simp: find_model_books [OF assms(1)])
  then have "md_id m = k" using assms(1) mr_inv_entry by (auto simp: rz_books_def)
  with m rec show ?thesis by (simp add: rz_load_def load_plan_def find_model_books [OF assms(1)])
qed

context reliable_backend
begin

lemma bench_loaded_record:
  assumes "bench_loaded B binv held rd m w"
  obtains r where "resident_record (rz_records (rw_residency w)) ''benchmark'' = Some r"
    and "rr_footprint r = md_footprint m" and "rr_ref_count r = 0" and "rz_books w"
proof -
  have "resident_bytes (rz_records (rw_residency w)) ''benchmark'' = Some (md_footprint m)"
    using assms by (simp add: bench_loaded_def)
  then obtain r where r: "resident_record (rz_records (rw_residency w)) ''benchmark'' = Some r"
    "rr_footprint r = md_footprint m" by (auto simp: resident_bytes_def)
  have books: "rz_books w" using assms reachable_books by (auto simp: bench_loaded_def)
  then have "record_matches (rw_registry w) ''benchmark'' r"
    using r(1) um_allD [of "record_matches (rw_registry w)" "rz_records (rw_residency w)" "''benchmark''" r]
    unfolding rz_books_def resident_record_Some by blast
  then have "rr_ref_count r = 0" using assms by (auto simp: record_matches_def bench_loaded_def)
  with r books show thesis by (intro that)
qed

text \<open>A warm load is no load: it returns at once and nothing changes.\<close>

lemma warm_loop_same: "bench_loaded B binv held rd m w \<Longrightarrow> warm_loop rd B cs w = Some (map bc_sample cs, w)"
proof (induction cs)
  case (Cons c cs)
  obtain r where "resident_record (rz_records (rw_residency w)) ''benchmark'' = Some r" "rz_books w"
    using bench_loaded_record [OF Cons.prems] by blast
  then have "bench_load rd B c w = (mo_done (rr_footprint r), w)"
    by (simp add: bench_load_def resident_load)
  with Cons show ?case by (simp add: mo_ok_def)
qed simp

text \<open>A cold load that succeeds has put the model on the backend, and its unload takes it off.\<close>

lemma cold_load:
  assumes ready: "bench_ready B binv held rd m w" and load: "bench_load rd B c w = (r, w')" and ok: "mo_ok r"
  shows "bench_loaded B binv held rd m w'"
proof -
  have reach: "rz_reachable B binv held rd (w, None)" and none: "resident_bytes (rz_records (rw_residency w)) = Map.empty"
    using ready by (simp_all add: bench_ready_def)
  have l: "rz_load rd B (bc_files c) (bc_now c) (bc_elapsed c) ''benchmark'' w = (r, w')"
    using load by (simp add: bench_load_def)
  have books: "rz_books w" by (rule reachable_books [OF reach])
  from reachable_inv [OF reach] l show ?thesis
  proof (cases rule: load_cases)
    case planned
    have "resident_record (rz_records (rw_residency w)) ''benchmark'' = None"
      using fun_cong [OF none, of "''benchmark''"] by (simp add: resident_bytes_def)
    moreover have "map_of (mr_models (rw_registry w)) ''benchmark'' = Some m"
      using ready by (simp add: bench_ready_def)
    ultimately have "\<not> mo_ok r"
      using planned(1) by (auto simp: fresh_plan [OF books] mo_ok_def split: if_splits option.splits)
    with ok show ?thesis by simp
  next
    case (fetch_failed m' es e b)
    then have "\<not> mo_ok r" using fetch_error by simp
    with ok show ?thesis by simp
  next
    case (committed m' es b)
    note ready' = plan_ready(1,2) [OF books committed(1)]
    have m: "m' = m" using ready' ready by (simp add: load_ready_def bench_ready_def)
    note acc = commit_accepted [OF committed(3,4) ok]
    have "resident_bytes (rz_records (rw_residency w')) = [''benchmark'' \<mapsto> md_footprint m]"
      using acc(2) none ready'(2) by (simp add: m)
    then show ?thesis
      using load_reachable [OF reach l] acc(3) ready by (simp add: bench_loaded_def bench_ready_def)
  qed
qed

lemma cold_unload:
  assumes loaded: "bench_loaded B binv held rd m w" and unload: "rz_unload B now ''benchmark'' w = (r, w')"
  shows "mo_ok r" and "bench_ready B binv held rd m w'" and "held (rw_backend w') = Map.empty"
proof -
  have reach: "rz_reachable B binv held rd (w, None)" using loaded by (simp add: bench_loaded_def)
  obtain rc where rc: "resident_record (rz_records (rw_residency w)) ''benchmark'' = Some rc" "rr_ref_count rc = 0"
    using bench_loaded_record [OF loaded] by blast
  from unload_result [OF reach unload] rc
  have r: "r = mo_done (rr_footprint rc)" and bytes: "resident_bytes (rz_records (rw_residency w')) = Map.empty"
    using loaded by (simp_all add: bench_loaded_def)
  then show "mo_ok r" by (simp add: mo_ok_def)
  have reach': "rz_reachable B binv held rd (w', None)"
    by (rule rz_reachable_step [OF reach step_unload [OF unload]])
  have "rw_registry w' = rw_registry w"
    using unload by (auto simp: rz_unload_def Let_def split: if_splits option.splits prod.splits)
  with loaded reach' bytes show "bench_ready B binv held rd m w'"
    by (simp add: bench_ready_def bench_loaded_def)
  from reachable_holds [OF reach'] bytes show "held (rw_backend w') = Map.empty" by simp
qed

lemma cold_loop_outcome:
  "bench_ready B binv held rd m w \<Longrightarrow> (case cold_loop rd B cs w of
     Inl text \<Rightarrow> text = ''cold load failed''
   | Inr (samples, w') \<Rightarrow> samples = map bc_sample cs \<and> bench_ready B binv held rd m w')"
proof (induction cs arbitrary: w)
  case (Cons c cs)
  obtain r w1 where l: "bench_load rd B c w = (r, w1)" by fastforce
  obtain u w2 where u: "rz_unload B (bc_unload_now c) ''benchmark'' w1 = (u, w2)" by fastforce
  show ?case
  proof (cases "mo_ok r")
    case True
    note un = cold_unload(1,2) [OF cold_load [OF Cons.prems l True] u]
    from Cons.IH [OF un(2)] show ?thesis
      using l u True un(1) by (simp split: sum.splits prod.splits)
  qed (simp add: l)
qed simp

text \<open>What the program measured when it reports, and where it stopped when it does not.\<close>

lemma bench_measure_outcome:
  assumes "bench_ready B binv held rd m w"
  shows "case bench_measure rd B env iterations w of
     Inl x \<Rightarrow> x = bench_error 1 ''cold load failed'' \<or> x = bench_error 1 ''warm setup failed''
   | Inr (cold, warm, w') \<Rightarrow> cold = map (bc_sample \<circ> be_cold env) [0..<unat iterations] \<and>
       warm = map (bc_sample \<circ> be_warm env) [0..<unat (warm_iterations iterations)] \<and>
       held (rw_backend w') = Map.empty"
proof (cases "cold_loop rd B (map (be_cold env) [0..<unat iterations]) w")
  case (Inl msg)
  with cold_loop_outcome [OF assms, of "map (be_cold env) [0..<unat iterations]"] show ?thesis
    by (simp add: bench_measure_def)
next
  case (Inr p)
  obtain cold w1 where p: "p = (cold, w1)" by fastforce
  with cold_loop_outcome [OF assms, of "map (be_cold env) [0..<unat iterations]"] Inr
  have c: "cold = map (bc_sample \<circ> be_cold env) [0..<unat iterations]" "bench_ready B binv held rd m w1" by simp_all
  obtain r w2 where l: "bench_load rd B (be_setup env) w1 = (r, w2)" by fastforce
  obtain u w5 where u: "rz_unload B (bc_unload_now (be_setup env)) ''benchmark'' w2 = (u, w5)" by fastforce
  show ?thesis
  proof (cases "mo_ok r")
    case True
    note loaded = cold_load [OF c(2) l True]
    from Inr p c(1) l True cold_unload(3) [OF loaded u] u show ?thesis
      by (simp add: bench_measure_def warm_loop_same [OF loaded] del: upt_Suc)
  next
    case False
    with Inr p l show ?thesis by (simp add: bench_measure_def)
  qed
qed

end

section \<open>The quantiles\<close>

text \<open>What is used of the rounding of \<open>double\<close>: it is monotone and exact on small integers and on a half.\<close>

definition double_rounding :: "(rat \<Rightarrow> rat) \<Rightarrow> bool" where
  "double_rounding dbl \<longleftrightarrow> (\<forall>x y. x \<le> y \<longrightarrow> dbl x \<le> dbl y) \<and>
     (\<forall>n :: nat. n \<le> 2 ^ 53 \<longrightarrow> dbl (of_nat n) = of_nat n) \<and> dbl (1 / 2) = 1 / 2"

lemma double_mono: "double_rounding dbl \<Longrightarrow> x \<le> y \<Longrightarrow> dbl x \<le> dbl y"
  and double_nat: "double_rounding dbl \<Longrightarrow> n \<le> 2 ^ 53 \<Longrightarrow> dbl (of_nat n) = of_nat n"
  and double_half: "double_rounding dbl \<Longrightarrow> dbl (1 / 2) = 1 / 2"
  by (simp_all add: double_rounding_def)

lemma quantile_index_bound:
  assumes dbl: "double_rounding dbl" and n: "0 < n" "n \<le> 2 ^ 53" and q: "1 / 2 \<le> q" "q \<le> 1"
  shows "quantile_index dbl q n < n"
    and "quantile_index dbl q n = nat \<lceil>dbl (q * of_nat n)\<rceil> - 1"
proof -
  let ?x = "dbl (q * of_nat n)"
  have "q * of_nat n \<le> 1 * of_nat n" by (rule mult_right_mono [OF q(2)]) simp
  then have "?x \<le> dbl (of_nat n)" by (intro double_mono [OF dbl]) simp
  then have le: "?x \<le> of_nat n" using double_nat [OF dbl n(2)] by simp
  have "1 / 2 * 1 \<le> q * of_nat n" by (rule mult_mono [OF q(1)]) (use n(1) q(1) in simp_all)
  then have "dbl (1 / 2) \<le> ?x" by (intro double_mono [OF dbl]) simp
  then have "1 / 2 \<le> ?x" using double_half [OF dbl] by simp
  then have pos: "1 \<le> \<lceil>?x\<rceil>" by linarith
  have top: "\<lceil>?x\<rceil> \<le> int n" using le by (simp add: ceiling_le_iff)
  define i where "i = nat \<lceil>?x\<rceil> - 1"
  have ix: "\<lceil>?x\<rceil> = int i + 1" "i < n" unfolding i_def using pos top by linarith+
  have "(word_of_int \<lceil>?x\<rceil> :: 64 word) - 1 = word_of_int (int i)" by (simp add: ix(1))
  moreover have "i < 2 ^ 64" using ix(2) n(2) by simp
  ultimately have "quantile_index dbl q n = i"
    using double_nat [OF dbl n(2)] by (simp add: quantile_index_def unsigned_of_nat take_bit_nat_eq_self)
  with ix(2) show "quantile_index dbl q n < n" and "quantile_index dbl q n = nat \<lceil>dbl (q * of_nat n)\<rceil> - 1"
    by (simp_all add: i_def)
qed

lemma distribution_defined:
  assumes dbl: "double_rounding dbl" and "samples \<noteq> []" and "length samples \<le> 2 ^ 53"
  shows "distribution dbl fixed3 name samples \<noteq> None"
proof -
  have q: "1 / 2 \<le> dbl x \<and> dbl x \<le> 1" if "1 / 2 \<le> x" "x \<le> 1" for x
    using double_mono [OF dbl that(1)] double_mono [OF dbl that(2)] double_half [OF dbl]
      double_nat [OF dbl, of 1] by simp
  have "quantile_line dbl fixed3 name (sort samples) (dbl x) \<noteq> None" if "1 / 2 \<le> x" "x \<le> 1" for x
    using quantile_index_bound(1) [OF dbl, of "length samples" "dbl x"] q [OF that] assms(2,3)
    by (simp add: quantile_line_def)
  from this [of "1 / 2"] this [of "95 / 100"] this [of "99 / 100"] show ?thesis
    by (auto simp: distribution_def split: option.splits)
qed

section \<open>The program as a whole\<close>

lemma bench_arguments_iterations:
  "bench_arguments args opts = Inr opts' \<Longrightarrow> bn_iterations opts \<noteq> 0 \<Longrightarrow> bn_iterations opts' \<noteq> 0"
  by (induction args opts rule: bench_arguments.induct)
    (auto simp: parse_iterations_def split: if_splits option.splits)

lemma bench_configuration_iterations:
  "bench_configuration args = Inr opts \<Longrightarrow> 0 < unat (bn_iterations opts)"
  using bench_arguments_iterations
  by (fastforce simp: bench_configuration_def unat_gt_0 split: sum.splits if_splits)

lemma bench_backend_fresh:
  assumes "bench_backend has_cuda has_metal R M c m name = Inr (b, selected)" and "live c = Map.empty"
  shows "device_inv live b" and "device_held b = Map.empty"
proof -
  have "b = MockDevice mk_new \<or> b = CudaDevice (cuda_new c) \<or> b = MetalDevice (metal_new m)"
    using assms(1) by (auto simp: bench_backend_def Let_def split: if_splits sum.splits)
  then show "device_inv live b" and "device_held b = Map.empty"
    using assms(2)
    by (auto simp: mk_new_def mk_inv_def cuda_new_def cuda_owned_def cuda_inv_def metal_new_def metal_inv_def
        mk_held_def cuda_held_def metal_held_def fun_eq_iff)
qed

lemma bench_start_ready:
  assumes reg: "mr_register_file fs ''benchmark'' path ''benchmark'' mr_new = (r, registry)" and ok: "mo_ok r"
    and b: "binv b" "held b = Map.empty"
  shows "\<exists>m rm. rm_new (mo_amount r) PriorityFifo = Some rm \<and>
    bench_ready B binv held rd m \<lparr>rw_registry = registry, rw_resources = rm, rw_backend = b, rw_residency = rz_new\<rparr>"
proof -
  obtain m where m: "map_of (mr_models registry) ''benchmark'' = Some m" "md_ref_count m = 0" "mo_amount r \<noteq> 0"
    using reg ok
    by (auto simp: mr_register_file_def mr_new_def mo_ok_def um_emplace_def um_contains_def Let_def
        split: if_splits prod.splits)
  let ?w = "\<lambda>reg rm. \<lparr>rw_registry = reg, rw_resources = rm, rw_backend = b, rw_residency = rz_new\<rparr>"
  from m(3) obtain rm where rm: "rm_new (mo_amount r) PriorityFifo = Some rm" by (simp add: rm_new_def)
  then have "rm_start rm" by (auto simp: rm_start_def rm_new_def split: if_splits)
  then have "rz_start binv held (?w mr_new rm, None)" using b by (simp add: rz_start_def)
  moreover have "rz_step rd B (?w mr_new rm, None) (RzRegister ''benchmark'' r) (?w registry rm, None)"
    using step_register_file [of fs "''benchmark''" path "''benchmark''" "?w mr_new rm" r registry rd B None] reg
    by simp
  ultimately have "rz_reachable B binv held rd (?w registry rm, None)"
    by (blast intro: rz_reachable_step rz_reachable_start)
  moreover have "resident_bytes (rz_records rz_new) = Map.empty"
    by (simp add: rz_new_def resident_bytes_def resident_record_def fun_eq_iff)
  ultimately show ?thesis using m rm by (intro exI [of _ m] exI [of _ rm]) (simp add: bench_ready_def)
qed

text \<open>
  The benchmark measures what it says or tells why not. Whatever files and devices do, on
  arguments it accepts the program neither reads out of bounds nor ends by an exception, it
  never fails to unload and never fails in the warm loop: it prints its report, or one of
  the seven messages about the backend, the file and the loads.
\<close>

theorem benchmark_ends:
  assumes "driver_ok R live" and "metal_ok M" and "live c = Map.empty" and "double_rounding dbl"
    and "bench_configuration args = Inr opts" and "unat (bn_iterations opts) \<le> 2 ^ 53"
  shows "\<exists>x. bench_main rd dbl fixed3 has_cuda has_metal R M c m env args = Some x \<and>
    (bx_status x = 0 \<and> bx_stderr x = [] \<or> x \<in> bench_error 1 ` {''CUDA backend is unavailable'',
       ''CUDA backend was not built'', ''Metal backend is unavailable'', ''Metal backend was not built'',
       ''could not register model file'', ''cold load failed'', ''warm setup failed''})"
proof (cases "bench_backend has_cuda has_metal R M c m (bn_backend opts)")
  case (Inl x)
  then have "x \<in> bench_error 1 ` {''CUDA backend is unavailable'', ''CUDA backend was not built'',
      ''Metal backend is unavailable'', ''Metal backend was not built''}"
    by (auto simp: bench_backend_def Let_def split: if_splits sum.splits)
  then show ?thesis using Inl assms(5) by (auto simp: bench_main_def)
next
  case (Inr bs)
  then obtain b selected where b: "bench_backend has_cuda has_metal R M c m (bn_backend opts) = Inr (b, selected)"
    by (cases bs) simp
  obtain r registry where reg: "mr_register_file (be_register env) ''benchmark'' (bn_file opts) ''benchmark'' mr_new
      = (r, registry)" by fastforce
  show ?thesis
  proof (cases "mo_ok r")
    case False
    with assms(5) b reg show ?thesis by (simp add: bench_main_def)
  next
    case True
    note fresh = bench_backend_fresh [where live = live, OF b assms(3)]
    obtain md rm where rm: "rm_new (mo_amount r) PriorityFifo = Some rm"
      and ready: "bench_ready (device_ops R M) (device_inv live) device_held rd md
        \<lparr>rw_registry = registry, rw_resources = rm, rw_backend = b, rw_residency = rz_new\<rparr>"
      using bench_start_ready [where binv = "device_inv live" and held = device_held, OF reg True fresh] by blast
    let ?n = "bn_iterations opts"
    let ?res = "bench_measure rd (device_ops R M) env ?n
        \<lparr>rw_registry = registry, rw_resources = rm, rw_backend = b, rw_residency = rz_new\<rparr>"
    have main: "bench_main rd dbl fixed3 has_cuda has_metal R M c m env args = (case ?res of
        Inl x \<Rightarrow> Some x
      | Inr (cold, warm, w) \<Rightarrow>
          map_option (\<lambda>text. \<lparr>bx_status = 0, bx_stdout = text, bx_stderr = []\<rparr>)
            (bench_report dbl fixed3 selected (mo_amount r) ?n cold warm))"
      using assms(5) b reg True rm by (simp add: bench_main_def)
    note out = reliable_backend.bench_measure_outcome [OF device_reliable [OF assms(1,2)] ready, of env ?n]
    show ?thesis
    proof (cases ?res)
      case (Inl x)
      with out main show ?thesis by auto
    next
      case (Inr p)
      obtain cold warm w where p: "p = (cold, warm, w)" by (cases p) auto
      have pos: "0 < unat ?n" using assms(5) by (rule bench_configuration_iterations)
      have "unat (warm_iterations ?n) = max (unat ?n) 10000"
        by (simp add: warm_iterations_def max_def word_le_nat_alt)
      with out Inr p pos assms(6) have "cold \<noteq> [] \<and> length cold \<le> 2 ^ 53" "warm \<noteq> [] \<and> length warm \<le> 2 ^ 53"
        by auto
      then have "distribution dbl fixed3 ''cold'' cold \<noteq> None" "distribution dbl fixed3 ''warm'' warm \<noteq> None"
        using distribution_defined [OF assms(4)] by blast+
      then have "bench_report dbl fixed3 selected (mo_amount r) ?n cold warm \<noteq> None"
        by (auto simp: bench_report_def)
      with main Inr p show ?thesis by auto
    qed
  qed
qed

theorem benchmark_ends_witness:
  "\<exists>x. bench_main id id (\<lambda>_. ''0.000'') True True sim_runtime no_metal [] () env [''--file'', ''/m''] = Some x \<and>
    bx_stderr x \<noteq> ''gpumemd-bench: warm load failed'' @ newline"
proof -
  have metal: "metal_ok no_metal" by (simp add: metal_ok_def no_metal_def)
  have dbl: "double_rounding id" by (simp add: double_rounding_def)
  have conf: "bench_configuration [''--file'', ''/m''] =
      Inr \<lparr>bn_file = ''/m'', bn_backend = ''auto'', bn_iterations = 3\<rparr>"
    by (simp add: bench_configuration_def)
  have "unat (bn_iterations \<lparr>bn_file = ''/m'', bn_backend = ''auto'', bn_iterations = 3\<rparr>) \<le> 2 ^ 53" by simp
  from benchmark_ends [OF sim_driver_ok metal _ dbl conf this, of "[]" id "\<lambda>_. ''0.000''" True True "()" env]
  show ?thesis by (auto simp: bench_error_def)
qed

end
