(* ===== verification/CudaWorker.thy ===== *)
theory CudaWorker
  imports SharingProperties
begin

text \<open>
  The worker process of the CUDA benchmark (benchmark/cuda_worker.cu): it opens a shared
  model or loads a copy of its own, waits for its parent and closes it. \<open>cudaSetDevice\<close>, the
  standard input, the file and the text of the durations are arguments.
\<close>

section \<open>The program\<close>

record worker_output =
  wo_status :: int
  wo_stdout :: string
  wo_stderr :: string

text \<open>
  \<open>we_go\<close> and \<open>we_close\<close>: whether \<open>getline\<close> delivered the two lines; \<open>we_size\<close>: \<open>tellg\<close> of the file
  opened at its end, \<open>None\<close> when it did not open; \<open>we_read\<close>: the bytes, \<open>None\<close> when the read failed.
\<close>

record worker_env =
  we_go :: bool
  we_close :: bool
  we_size :: "int option"
  we_read :: "file_data option"
  we_load_us :: string
  we_sync_us :: string
  we_close_us :: string

text \<open>The handler of the function-try-block, with what was printed before.\<close>

definition worker_throw :: "string \<Rightarrow> string \<Rightarrow> worker_output" where
  "worker_throw out what = \<lparr>wo_status = 1, wo_stdout = out, wo_stderr = what @ newline\<rparr>"

text \<open>\<open>check\<close>, with what follows when it does not throw.\<close>

definition checked ::
  "'d cuda_runtime \<Rightarrow> string \<Rightarrow> cuda_error \<times> 'd \<Rightarrow> ('d \<Rightarrow> worker_output option \<times> 'd) \<Rightarrow>
   worker_output option \<times> 'd" where
  "checked R out r k =
     (let (result, d) = r
      in if result \<noteq> cuda_success then (Some (worker_throw out (cu_error_string R result)), d) else k d)"

text \<open>
  The rest of \<open>main\<close> once the model is there. \<open>leave\<close> is what leaving the scope does to the
  device, \<open>close_it\<close> the close by command, after which the scope holds nothing.
\<close>

definition worker_loaded ::
  "'d cuda_runtime \<Rightarrow> worker_env \<Rightarrow> ('d \<Rightarrow> 'd) \<Rightarrow> ('d \<Rightarrow> cuda_error \<times> 'd) \<Rightarrow> 'd \<Rightarrow>
   worker_output option \<times> 'd" where
  "worker_loaded R env leave close_it d =
     (let ready = ''ready'' @ newline; (synced, d1) = cu_device_synchronize R d
      in if synced \<noteq> cuda_success
         then (Some (worker_throw ready (cu_error_string R synced)), leave d1)
         else
           (let out = ready @ ''load_or_share_open_us '' @ we_load_us env @ '' sync_us '' @
                  we_sync_us env @ newline
            in if \<not> we_close env then (Some \<lparr>wo_status = 1, wo_stdout = out, wo_stderr = []\<rparr>, leave d1)
               else checked R out (close_it d1) (\<lambda>d2.
                 (Some \<lparr>wo_status = 0, wo_stdout = out @ ''close_us '' @ we_close_us env @ newline,
                    wo_stderr = []\<rparr>, d2))))"

definition worker_shared ::
  "'d cuda_runtime \<Rightarrow> worker_env \<Rightarrow> connection \<Rightarrow> string \<Rightarrow> string \<Rightarrow> 'd \<Rightarrow> worker_output option \<times> 'd" where
  "worker_shared R env conn socket model d =
     (case snd (open_model R socket conn model d) of
        (None, d') \<Rightarrow> (None, d')
      | (Some shared, d') \<Rightarrow>
          (case or_allocation shared of
             Some allocation \<Rightarrow>
               if or_ok shared
               then worker_loaded R env (ia_destroy R allocation)
                      (\<lambda>d1. (cuda_success, ia_destroy R allocation d1)) d'
               else (Some (worker_throw (''ready'' @ newline) ''IPC open failed''), ia_destroy R allocation d')
           | None \<Rightarrow> (Some (worker_throw (''ready'' @ newline) ''IPC open failed''), d')))"

definition worker_independent ::
  "'d cuda_runtime \<Rightarrow> worker_env \<Rightarrow> 'd \<Rightarrow> worker_output option \<times> 'd" where
  "worker_independent R env d =
     (let ready = ''ready'' @ newline
      in case we_size env of
           None \<Rightarrow> (Some (worker_throw ready ''invalid file''), d)
         | Some amount \<Rightarrow>
             if amount \<le> 0 then (Some (worker_throw ready ''invalid file''), d)
             else case we_read env of
                    None \<Rightarrow> (Some (worker_throw ready ''read failed''), d)
                  | Some bytes \<Rightarrow>
                      (let ((result, pointer), d1) = cu_malloc R (word_of_int amount) d
                       in checked R ready (result, d1) (\<lambda>d2.
                            checked R ready (cu_memcpy_to_device R pointer bytes d2) (\<lambda>d3.
                              worker_loaded R env (\<lambda>x. x) (cu_free R pointer) d3))))"

text \<open>\<open>main\<close> on the arguments after the program name.\<close>

definition worker_main ::
  "'d cuda_runtime \<Rightarrow> (int \<Rightarrow> 'd \<Rightarrow> cuda_error \<times> 'd) \<Rightarrow> worker_env \<Rightarrow> connection \<Rightarrow> string list \<Rightarrow> 'd \<Rightarrow>
   worker_output option \<times> 'd" where
  "worker_main R set_device env conn args d =
     (if length args \<noteq> 4 then
        (Some (worker_throw [] ''Usage: cuda-bench-worker independent|shared FILE SOCKET MODEL''), d)
      else if args ! 0 \<noteq> ''independent'' \<and> args ! 0 \<noteq> ''shared'' then
        (Some (worker_throw [] ''invalid mode''), d)
      else
        checked R [] (set_device 0 d) (\<lambda>d1.
          checked R [] (cu_free R null_ptr d1) (\<lambda>d2.
            if \<not> we_go env
            then (Some \<lparr>wo_status = 1, wo_stdout = ''ready'' @ newline, wo_stderr = []\<rparr>, d2)
            else if args ! 0 = ''shared'' then worker_shared R env conn (args ! 2) (args ! 3) d2
            else worker_independent R env d2)))"

section \<open>What it leaves behind\<close>

text \<open>
  A worker that shares closes the handle it opened exactly once, whatever fails afterwards:
  the synchronisation, its parent's line or nothing.
\<close>

theorem shared_worker_closes:
  assumes "open_model R socket conn model d = (sent, Some shared, d')" and "or_allocation shared = Some allocation"
    and "or_ok shared"
  shows "snd (worker_shared R env conn socket model d) =
    ia_destroy R allocation (snd (cu_device_synchronize R d'))"
  using assms by (auto simp: worker_shared_def worker_loaded_def checked_def Let_def split: prod.splits)

text \<open>
  A worker with a copy of its own frees it when it is told to close, and only then: an error
  or the end of its input leaves the memory to the end of the process.
\<close>

theorem independent_worker_frees:
  assumes "we_size env = Some amount" and "0 < amount" and "we_read env = Some bytes"
    and "cu_malloc R (word_of_int amount) d = ((cuda_success, pointer), d1)"
    and "cu_memcpy_to_device R pointer bytes d1 = (cuda_success, d2)"
    and "cu_device_synchronize R d2 = (cuda_success, d3)"
  shows "snd (worker_independent R env d) = (if we_close env then snd (cu_free R pointer d3) else d3)"
    and "(\<exists>out. fst (worker_independent R env d) = Some out \<and> wo_status out = 0) \<longleftrightarrow>
      we_close env \<and> fst (cu_free R pointer d3) = cuda_success"
  using assms
  by (auto simp: worker_independent_def worker_loaded_def checked_def worker_throw_def Let_def split: prod.splits)

end
