(* ===== verification/Spec2Isabelle.thy ===== *)
theory Spec2Isabelle
  imports ResourceProperties AllocatorProperties SchedulerSpec PlacementProperties NodeRegistry
    Metrics ResidencyProperties
    ProtocolProperties ServerLoop ClientAcquire CtlServer Benchmark CudaWorker
begin

text \<open>
  gpumemd, a broker for accelerator memory: a model of the daemon, its clients and its
  backends, with the theorems that make them correct.

  \<^bold>\<open>The program.\<close> The daemon (src/daemon/main.cpp) owns one \<open>ResourceManager\<close> that lends out a
  fixed number of bytes, one \<open>ModelRegistry\<close> with the models it knows, one
  \<open>ModelResidencyManager\<close> that loads models into an \<open>AcceleratorBackend\<close> and evicts those
  nobody retains, a \<open>Metrics\<close> and a \<open>NodeRegistry\<close>. \<open>UnixSocketServer\<close> runs a session per
  connection; a session parses lines, dispatches them to these objects and formats the
  answer. Clients are \<open>Client\<close>, gpumemctl and, for shared GPU memory, \<open>CudaClient\<close>.

  \<^bold>\<open>The theories, bottom up.\<close>

  \<^item> Prelude: bytes as 64-bit words, unordered maps (\<open>umap\<close>), the locale \<open>ledger\<close> of amounts
    that add up within a capacity, executions (\<open>run\<close>) and the locale \<open>invariant_system\<close>.
  \<^item> ResourceManager (resource_manager.hpp, resource_manager.cpp): reservations, the queue of
    waiting requests in an explicit store of \<open>PendingRequest\<close> objects (\<open>shared_ptr\<close>s), the
    grant loop, and the steps of a blocked \<open>acquire\<close> (enter, poll, expire). Scheduling,
    ResourceInvariant and ResourceOps hold the lemmas of the loops and operations and the step
    relation \<open>rm_step\<close>; SchedulerSpec the abstract greedy scheduler and the refinement proof;
    WaiterFate what a step can do to a waiting request; ResourceProperties the properties.
  \<^item> MemoryAllocator (memory_allocator.hpp, .cpp), AllocatorPool, AllocatorProperties: the direct
    and the pool strategy, first-fit carving and coalescing.
  \<^item> DevicePlacement, PlacementProperties; NodeRegistry; Metrics: the components of these names.
  \<^item> Backend (accelerator_backend.hpp, mock_backend.cpp): the abstract class as a record of
    functions, its contract as the locales \<open>backend\<close> and \<open>reliable_backend\<close>, and the mock
    backend, which meets them. CudaBackend (cuda_backend.cu) and MetalBackend
    (metal_backend.mm) are the other two implementations. The CUDA runtime and the Metal
    framework are parameters; CudaBackend meets \<open>backend\<close> for every runtime, and CudaMemory
    shows that it meets \<open>reliable_backend\<close> on a runtime with \<open>driver_ok\<close>.
  \<^item> ModelLoader, ModelRegistry, ModelResidency: the components of these names.
    ResidencyInvariant, ResidencySteps and EvictionPlan prove, for any reliable backend, the
    invariant that ties registry, reservations, backend and records together, over the step
    relation \<open>rz_step\<close> in which clients act between the two halves of a load.
    The books of registry, reservations and records hold on every backend, also one that
    fails to unload. ResidencyContract draws the consequences inside the locales \<open>backend\<close>
    (unloading may fail: unload and the rollback of a load) and \<open>reliable_backend\<close>, and
    ResidencyProperties states them for every backend that meets them, with the mock backend
    in the witnesses; CudaResidency adds what is special to CUDA.
  \<^item> TextFormat, Protocol (protocol.hpp, protocol.cpp), ProtocolProperties: numbers as
    \<open>std::from_chars\<close> and streams read and print them, the parser and all formatters.
  \<^item> SocketIO: reads and writes as lists of the kernel's answers. Client (client.cpp and the
    gpumemctl \<open>main\<close>), Server (unix_socket_server.cpp: dispatch, sessions, the two halves of a
    load, the step relation \<open>server_step\<close> over all threads), ServerInvariant and ServerSteps (every
    step keeps \<open>server_inv\<close> and is a run of \<open>rz_step\<close>), ServerSessions, ResponseFraming,
    ResponseShapes, ClientProperties, ServerProperties, ClientServer (the life of a request
    through the daemon), CtlServer (the same for gpumemctl), ClientOperations and ClientAcquire
    (\<open>try_acquire\<close>, \<open>release\<close> and \<open>acquire\<close> from end to end), ServerShutdown (when a shutdown
    ends), ServerListen (the listening socket from creation to destructor) and ServerLoop (the accepting
    loop of \<open>run\<close>, whose turns are steps of \<open>server_step\<close>).
  \<^item> Daemon (daemon/main.cpp) and DaemonBackend: the arguments, the choice of the backend, virtual
    calls on one object of three classes, and the daemon as it is started.
  \<^item> CudaIpc (cuda_ipc_client.cu, cuda_client.cu, examples/cuda_ipc_demo.cu) and
    SharingProperties: the client side of sharing. CudaServer: the whole daemon on a GPU.
  \<^item> Benchmark (benchmark/main.cpp): gpumemd-bench over the residency manager, with its
    statistics. CudaWorker (benchmark/cuda_worker.cu): a process that
    shares a model or loads its own copy.

  \<^bold>\<open>What the lemmas show.\<close> The books of the resource manager always balance, its scheduler is
  one greedy pass over the queue, nothing that fits waits, and every waiter is settled once.
  Allocator regions are disjoint and refused only without a hole. Residency, reservations,
  registry and backend agree in every reachable state; loads fail without effect, evict no
  more than needed and never a retained model. Sizes and commands are parsed exactly; the
  server answers each line once and in order whatever the reads are, a client gets each
  answer whole whatever the other sessions do, the daemon is a run of its components on
  whichever backend \<open>main\<close> chose, and waiting sessions and queued requests match. What a client
  is told by \<open>try_acquire\<close>, \<open>acquire\<close> and \<open>release\<close> is what happened to the reservations. A daemon
  told to stop ends once no request is queued, no session has a whole command buffered and
  nothing more is read. What parses is well formed for the layer below, two checks of paths
  and endpoints apart. An unload follows the answer of the backend, also a failure; a load
  that loses a race is refused and rolled back. Device memory on
  CUDA is what the reservations say, is neither leaked nor freed twice, and a shared handle
  is opened and closed exactly. The benchmark never fails to unload, nor in its warm loop, and
  its quantiles are read within bounds (\<open>benchmark_ends\<close>); its worker closes a shared handle
  whatever fails, and frees its own copy when told to (\<open>shared_worker_closes\<close>,
  \<open>independent_worker_frees\<close>). Some theorems show what the
  code gets wrong: \<open>shutdown_can_hang\<close>, \<open>failed_poll_never_ends\<close>,
  \<open>failed_eviction_keeps_memory\<close>,
  \<open>acquire_options_received\<close>, \<open>models_listing_cut_short\<close>, \<open>ctl_nodes_stops_early\<close>,
  \<open>demo_failure_texts\<close>, \<open>backend_exceeds_capacity_during_load\<close>.

  \<^bold>\<open>Conventions.\<close> An operation under a mutex is one step; where the code releases the mutex
  (the wait of \<open>acquire\<close>, the load between the backend and the reservations, the CUDA load
  between allocation and copy) the halves are separate definitions. Unordered maps are
  association lists, the iteration order being that of the list. Clocks, files, the kernel's
  answers, the rounding of \<open>long double\<close> and \<open>double\<close> and external libraries are arguments. \<open>size_t\<close> has 64
  bits and \<open>sun_path\<close> 108 bytes. No definition uses fuel: loops are structural or have a
  measure, and a call that has not returned is \<open>None\<close>. Whether \<open>send_all\<close> wrote a response
  whole is one answer: the bytes written before a failure, after which the session ends, are
  not kept, and a write does not block. Sequence numbers wrap after \<open>2 ^ 64\<close>
  requests; the theorems that need them not to say so.

  \<^bold>\<open>The server's threads.\<close> A step of \<open>server_step\<close> is one turn of a session's read loop, one line
  served, one half of a load, one wake-up of a blocked request, or a step of the thread in
  \<open>run\<close>. A request that blocks or loads leaves its session in the state \<open>Blocked\<close> or \<open>Loading\<close>;
  \<open>sv_load\<close> is the holder of the mutex of the residency manager between the halves, and a
  session whose next command needs that mutex waits. \<open>process_input\<close> is the same loop with
  nothing in between, and \<open>serve_frame_load\<close> says that the two halves are then what it does.

  \<^bold>\<open>Not modelled.\<close> The signal handlers are the step that sets the stop flag. The two macros of
  the build that include CUDA and Metal are arguments of \<open>choose_backend\<close> and
  \<open>bench_backend\<close>. Allocation failures of the C++ library are not modelled. The lines of the
  sources that no definition translates are includes, the declarations in headers of what is
  modelled, constructors that only store references, and the second copy of \<open>write_all\<close> in
  client/main.cpp, which is that of client.cpp. Tests, scripts and build files are left out.
\<close>

end
